(* ===== verification/Go_Prelude.thy ===== *)
theory Go_Prelude
  imports Main "HOL-Library.Word" "HOL-Library.Monad_Syntax"
begin

text \<open>
  The prelude of the development: the Go language and standard library as far as the
  driver uses them, and the generic lemmas the components share.

  \<^item> A Go \<open>string\<close> and a Go \<open>[]byte\<close> are byte sequences; a HOL \<open>char\<close> is exactly one
    byte, so both are \<open>string\<close> and the conversions between them are the identity. A nil
    slice, where the code tells it from an empty one, is the \<open>None\<close> of an \<open>option\<close>.
  \<^item> Machine integers are words: \<open>int64\<close> is \<open>64 word\<close> read by \<open>sint\<close>, \<open>uint32\<close> is
    \<open>32 word\<close> read by \<open>uint\<close>, and Go's \<open>int\<close> is the 64-bit one of the supported
    platforms.
  \<^item> An \<open>error\<close> is a value of \<open>go_error\<close>, and \<open>nil\<close> errors are the \<open>None\<close> of
    \<open>go_error option\<close>.
  \<^item> An \<open>interface{}\<close> value is a value of \<open>goval\<close>, whose constructor is the dynamic type.
  \<^item> A call that may panic or may not end has an \<open>option\<close> result: \<open>None\<close> is "does not
    return". Where a panic is told apart from an error the result type is \<open>outcome\<close>.
\<close>

named_theorems go_defs \<open>definitions of thin wrappers that component proofs unfold\<close>
named_theorems go_split \<open>case splits for the result types\<close>

type_synonym bytes = string

subsection \<open>Errors and outcomes\<close>

datatype go_error =
    Errorf string
  | ErrorfW string go_error
  | ErrorfV string go_error
  | ErrTxClosed
  | ErrTxCommitRollback
  | ErrNoRows
  | ErrBadConn
  | ErrNotPgx
  | EOF
  | ScanArgError nat go_error
  | SerializationError string
  | ErrExt nat

text \<open>
  \<open>errors.Is\<close>: follows \<open>Unwrap\<close>, which \<open>fmt.Errorf\<close> with \<open>%w\<close> and \<open>ScanArgError\<close>
  provide.
\<close>

fun errors_Is :: "go_error \<Rightarrow> go_error \<Rightarrow> bool" where
  "errors_Is (ErrorfW s e) t = (ErrorfW s e = t \<or> errors_Is e t)"
| "errors_Is (ScanArgError i e) t = (ScanArgError i e = t \<or> errors_Is e t)"
| "errors_Is e t = (e = t)"

lemma errors_Is_refl [simp]: "errors_Is e e"
  by (cases e) auto

datatype 'a outcome = Ret 'a | Err go_error | Panic

subsection \<open>Formatting and parsing of numbers\<close>

definition rune :: "char \<Rightarrow> nat" where
  "rune c = of_char c"

definition digit_char :: "nat \<Rightarrow> char" where
  "digit_char d = char_of (48 + d)"

definition is_digit :: "char \<Rightarrow> bool" where
  "is_digit c \<longleftrightarrow> 48 \<le> rune c \<and> rune c \<le> 57"

definition digit_val :: "char \<Rightarrow> nat" where
  "digit_val c = rune c - 48"

fun format_nat :: "nat \<Rightarrow> string" where
  "format_nat n = (if n < 10 then [digit_char n]
     else format_nat (n div 10) @ [digit_char (n mod 10)])"

declare format_nat.simps [simp del]

text \<open>\<open>strconv.FormatInt(i, 10)\<close>, and the decimal forms of \<open>fmt\<close>'s \<open>%d\<close>.\<close>

definition FormatInt :: "int \<Rightarrow> string" where
  "FormatInt i = (if i < 0 then CHR ''-'' # format_nat (nat (- i)) else format_nat (nat i))"

definition FormatBool :: "bool \<Rightarrow> string" where
  "FormatBool b = (if b then ''true'' else ''false'')"

definition decimal_val :: "nat \<Rightarrow> string \<Rightarrow> nat" where
  "decimal_val a ds = foldl (\<lambda>n c. n * 10 + digit_val c) a ds"

text \<open>
  \<open>strconv.ParseInt(s, 10, bits)\<close>: an optional sign and at least one digit, within the
  signed range of \<open>bits\<close> bits. The two failures are \<open>ErrSyntax\<close> and \<open>ErrRange\<close>.
\<close>

definition ParseInt :: "string \<Rightarrow> nat \<Rightarrow> go_error + int" where
  "ParseInt s bits =
     (let neg = (s \<noteq> [] \<and> hd s = CHR ''-'');
          ds = (if s \<noteq> [] \<and> (hd s = CHR ''-'' \<or> hd s = CHR ''+'') then tl s else s)
      in if ds = [] \<or> \<not> list_all is_digit ds then Inl (Errorf ''invalid syntax'')
         else let v = (if neg then - int (decimal_val 0 ds) else int (decimal_val 0 ds))
              in if v < - (2 ^ (bits - 1)) \<or> 2 ^ (bits - 1) \<le> v
                 then Inl (Errorf ''value out of range'') else Inr v)"

text \<open>\<open>strconv.ParseBool\<close>.\<close>

definition ParseBool :: "string \<Rightarrow> go_error + bool" where
  "ParseBool s =
     (if s \<in> set [''1'', ''t'', ''T'', ''true'', ''TRUE'', ''True''] then Inr True
      else if s \<in> set [''0'', ''f'', ''F'', ''false'', ''FALSE'', ''False''] then Inr False
      else Inl (Errorf ''invalid syntax''))"

lemma rune_less_256: "rune c < 256"
  by (simp add: rune_def)

lemma rune_inject [simp]: "rune c = rune d \<longleftrightarrow> c = d"
  by (simp add: rune_def)

lemma char_of_rune [simp]: "char_of (rune c) = c"
  by (simp add: rune_def)

lemma rune_digit_char [simp]: "d < 10 \<Longrightarrow> rune (digit_char d) = 48 + d"
  by (simp add: rune_def digit_char_def)

lemma is_digit_digit_char [simp]: "d < 10 \<Longrightarrow> is_digit (digit_char d)"
  by (simp add: is_digit_def)

lemma digit_val_digit_char [simp]: "d < 10 \<Longrightarrow> digit_val (digit_char d) = d"
  by (simp add: digit_val_def)

lemma digit_char_digit_val [simp]: "is_digit c \<Longrightarrow> digit_char (digit_val c) = c"
  by (simp add: is_digit_def digit_val_def digit_char_def)

lemma format_nat_nonempty [simp]: "format_nat n \<noteq> []"
  by (subst format_nat.simps) simp

lemma format_nat_digits: "list_all is_digit (format_nat n)"
proof (induction n rule: format_nat.induct)
  case (1 n)
  then show ?case by (subst format_nat.simps) simp
qed

lemma decimal_val_append: "decimal_val a (xs @ ys) = decimal_val (decimal_val a xs) ys"
  by (simp add: decimal_val_def)

lemma decimal_val_format_nat: "decimal_val 0 (format_nat n) = n"
proof (induction n rule: format_nat.induct)
  case (1 n)
  show ?case
  proof (cases "n < 10")
    case True
    then show ?thesis by (subst format_nat.simps) (simp add: decimal_val_def)
  next
    case False
    with 1 have "decimal_val 0 (format_nat (n div 10)) = n div 10" by simp
    with False show ?thesis
      by (subst format_nat.simps) (simp add: decimal_val_append, simp add: decimal_val_def)
  qed
qed

lemma format_nat_inject: "format_nat m = format_nat n \<longleftrightarrow> m = n"
  by (metis decimal_val_format_nat)

lemma minus_not_digit [simp]: "\<not> is_digit CHR ''-''"
  by (simp add: is_digit_def rune_def)

lemma plus_not_digit [simp]: "\<not> is_digit CHR ''+''"
  by (simp add: is_digit_def rune_def)

lemma hd_format_nat: "is_digit (hd (format_nat n))"
  using format_nat_digits [of n] by (cases "format_nat n") auto

lemma FormatInt_inject: "FormatInt i = FormatInt j \<longleftrightarrow> i = j"
proof
  assume eq: "FormatInt i = FormatInt j"
  have sign: "CHR ''-'' # s \<noteq> format_nat n" for s n
    using hd_format_nat [of n] by (metis list.sel(1) minus_not_digit)
  from eq show "i = j"
    by (auto simp: FormatInt_def format_nat_inject sign sign [symmetric] split: if_splits)
qed simp

text \<open>Formatting and parsing agree on every integer of the width.\<close>

lemma ParseInt_FormatInt:
  assumes "- (2 ^ (bits - 1)) \<le> i" and "i < 2 ^ (bits - 1)"
  shows "ParseInt (FormatInt i) bits = Inr i"
proof (cases "i < 0")
  case True
  with assms show ?thesis
    by (simp add: ParseInt_def FormatInt_def Let_def format_nat_digits decimal_val_format_nat)
next
  case False
  have "hd (format_nat (nat i)) \<noteq> CHR ''-''" and "hd (format_nat (nat i)) \<noteq> CHR ''+''"
    using hd_format_nat [of "nat i"] minus_not_digit plus_not_digit by metis+
  with False assms show ?thesis
    by (simp add: ParseInt_def FormatInt_def Let_def format_nat_digits decimal_val_format_nat)
qed

lemma ParseInt_range:
  "ParseInt s bits = Inr i \<Longrightarrow> - (2 ^ (bits - 1)) \<le> i \<and> i < 2 ^ (bits - 1)"
  by (auto simp: ParseInt_def Let_def split: if_splits)

subsection \<open>Strings\<close>

text \<open>\<open>strings.ReplaceAll(s, old, new)\<close> for an \<open>old\<close> of one byte.\<close>

definition ReplaceAll :: "string \<Rightarrow> char \<Rightarrow> string \<Rightarrow> string" where
  "ReplaceAll s old new = concat (map (\<lambda>c. if c = old then new else [c]) s)"

lemma ReplaceAll_Nil [simp]: "ReplaceAll [] old new = []"
  by (simp add: ReplaceAll_def)

lemma ReplaceAll_Cons [simp]:
  "ReplaceAll (c # s) old new = (if c = old then new else [c]) @ ReplaceAll s old new"
  by (simp add: ReplaceAll_def)

lemma ReplaceAll_append:
  "ReplaceAll (s @ t) old new = ReplaceAll s old new @ ReplaceAll t old new"
  by (simp add: ReplaceAll_def)

lemma ReplaceAll_id: "old \<notin> set s \<Longrightarrow> ReplaceAll s old new = s"
  by (induction s) auto

lemma ReplaceAll_delete: "ReplaceAll s old [] = filter (\<lambda>c. c \<noteq> old) s"
  by (induction s) auto

text \<open>\<open>strings.Join\<close>.\<close>

fun Join :: "string list \<Rightarrow> string \<Rightarrow> string" where
  "Join [] sep = []"
| "Join [x] sep = x"
| "Join (x # y # xs) sep = x @ sep @ Join (y # xs) sep"

definition HasPrefix :: "string \<Rightarrow> string \<Rightarrow> bool" where
  "HasPrefix s p \<longleftrightarrow> take (length p) s = p"

lemma HasPrefix_append [simp]: "HasPrefix (p @ s) p"
  by (simp add: HasPrefix_def)

subsection \<open>Hexadecimal\<close>

definition hex_digit :: "nat \<Rightarrow> char" where
  "hex_digit n = (if n < 10 then char_of (48 + n) else char_of (87 + n))"

text \<open>\<open>hex.EncodeToString\<close>: two lower-case digits a byte.\<close>

fun EncodeToString :: "bytes \<Rightarrow> string" where
  "EncodeToString [] = []"
| "EncodeToString (b # bs) =
     hex_digit (rune b div 16) # hex_digit (rune b mod 16) # EncodeToString bs"

definition hex_val :: "char \<Rightarrow> nat" where
  "hex_val c = (if rune c < 58 then rune c - 48 else rune c - 87)"

fun DecodeHex :: "string \<Rightarrow> bytes option" where
  "DecodeHex [] = Some []"
| "DecodeHex [c] = None"
| "DecodeHex (c # d # s) =
     map_option ((#) (char_of (hex_val c * 16 + hex_val d))) (DecodeHex s)"

lemma hex_val_hex_digit [simp]: "n < 16 \<Longrightarrow> hex_val (hex_digit n) = n"
  by (auto simp: hex_val_def hex_digit_def rune_def)

lemma rune_hex_digit: "n < 16 \<Longrightarrow> rune (hex_digit n) = (if n < 10 then 48 + n else 87 + n)"
  by (simp add: hex_digit_def rune_def)

lemma EncodeToString_no_quote: "CHR 0x27 \<notin> set (EncodeToString bs)"
proof (induction bs)
  case (Cons b bs)
  have *: "hex_digit n \<noteq> CHR 0x27" if "n < 16" for n
  proof
    assume "hex_digit n = CHR 0x27"
    then have "rune (hex_digit n) = 39" by (simp add: rune_def)
    with that show False by (simp add: rune_hex_digit split: if_splits)
  qed
  have "rune b div 16 < 16" using rune_less_256 [of b] by simp
  with Cons show ?case using * [of "rune b div 16"] * [of "rune b mod 16"] by auto
qed simp

lemma DecodeHex_EncodeToString: "DecodeHex (EncodeToString bs) = Some bs"
proof (induction bs)
  case Nil
  then show ?case by simp
next
  case (Cons b bs)
  have "rune b div 16 < 16" using rune_less_256 [of b] by simp
  with Cons show ?case by simp
qed

subsection \<open>Dynamic values\<close>

text \<open>
  A floating point number by the real it stands for: \<open>FDyadic m e\<close> is \<open>m * 2 ^ e\<close>, so that
  the conversion of a \<open>float32\<close> to a \<open>float64\<close>, which is exact, is the identity.
\<close>

datatype gofloat = FNaN | FInf bool | FNegZero | FDyadic int int

text \<open>
  A \<open>time.Time\<close> by its civil components in its own location and the location's offset from
  UTC in seconds.
\<close>

record gotime =
  t_year :: int
  t_month :: nat
  t_day :: nat
  t_hour :: nat
  t_minute :: nat
  t_second :: nat
  t_nanosecond :: nat
  t_offset :: int

text \<open>
  The dynamic types the driver tells apart. \<open>GNamed n v\<close> is a value of a named type whose
  underlying type is that of \<open>v\<close> (\<open>type Status int16\<close>); \<open>GPtr n v\<close> is a pointer to the
  type \<open>n\<close>, nil for \<open>None\<close>; \<open>GObj n i\<close> is a value of any other type, whose methods are
  known only through the environment the definitions take as a parameter. The last three
  are the driver's own option types.
\<close>

datatype goval =
    GNil
  | GBool bool
  | GInt "64 word" | GInt8 "8 word" | GInt16 "16 word" | GInt32 "32 word" | GInt64 "64 word"
  | GUint "64 word" | GUint8 "8 word" | GUint16 "16 word" | GUint32 "32 word" | GUint64 "64 word"
  | GFloat32 gofloat
  | GFloat64 gofloat
  | GString string
  | GBytes "bytes option"
  | GTime gotime
  | GDuration "64 word"
  | GNamed string goval
  | GPtr string "goval option"
  | GObj string nat
  | GQuerySimpleProtocol bool
  | GQueryResultFormats "16 word list option"
  | GQueryResultFormatsByOID "(32 word \<times> 16 word) list option"

text \<open>The text \<open>fmt\<close>'s \<open>%T\<close> prints.\<close>

fun type_name :: "goval \<Rightarrow> string" where
  "type_name GNil = ''<nil>''"
| "type_name (GBool _) = ''bool''"
| "type_name (GInt _) = ''int''"
| "type_name (GInt8 _) = ''int8''"
| "type_name (GInt16 _) = ''int16''"
| "type_name (GInt32 _) = ''int32''"
| "type_name (GInt64 _) = ''int64''"
| "type_name (GUint _) = ''uint''"
| "type_name (GUint8 _) = ''uint8''"
| "type_name (GUint16 _) = ''uint16''"
| "type_name (GUint32 _) = ''uint32''"
| "type_name (GUint64 _) = ''uint64''"
| "type_name (GFloat32 _) = ''float32''"
| "type_name (GFloat64 _) = ''float64''"
| "type_name (GString _) = ''string''"
| "type_name (GBytes _) = ''[]uint8''"
| "type_name (GTime _) = ''time.Time''"
| "type_name (GDuration _) = ''time.Duration''"
| "type_name (GNamed n _) = n"
| "type_name (GPtr n _) = CHR ''*'' # n"
| "type_name (GObj n _) = n"
| "type_name (GQuerySimpleProtocol _) = ''pgx.QuerySimpleProtocol''"
| "type_name (GQueryResultFormats _) = ''pgx.QueryResultFormats''"
| "type_name (GQueryResultFormatsByOID _) = ''pgx.QueryResultFormatsByOID''"

definition bytes_of :: "bytes option \<Rightarrow> bytes" where
  "bytes_of b = (case b of None \<Rightarrow> [] | Some s \<Rightarrow> s)"

lemma bytes_of_simps [simp]: "bytes_of None = []" "bytes_of (Some s) = s"
  by (simp_all add: bytes_of_def)

end
