(* ===== verification/Utf8.thy ===== *)
theory Utf8
  imports Go_Prelude
begin

text \<open>
  \<open>unicode/utf8\<close> as far as the lexer of \<open>sanitize.go\<close> uses it: the decoder of one rune, with
  the ranges of second bytes that rule out overlong forms, surrogates and values beyond
  U+10FFFF. A failure is the pair of U+FFFD and width 1 (width 0 at the end of the input),
  and the valid encoding of U+FFFD itself gives the same rune with width 3.
\<close>

definition RuneError :: nat where
  "RuneError = 65533"

text \<open>Is \<open>b\<close> a continuation byte in the given range?\<close>

definition in_range :: "nat \<Rightarrow> nat \<Rightarrow> char \<Rightarrow> bool" where
  "in_range lo hi b \<longleftrightarrow> lo \<le> rune b \<and> rune b \<le> hi"

definition accept_lo :: "nat \<Rightarrow> nat" where
  "accept_lo p0 = (if p0 = 224 then 160 else if p0 = 240 then 144 else 128)"

definition accept_hi :: "nat \<Rightarrow> nat" where
  "accept_hi p0 = (if p0 = 237 then 159 else if p0 = 244 then 143 else 191)"

fun DecodeRuneInString :: "string \<Rightarrow> nat \<times> nat" where
  "DecodeRuneInString [] = (RuneError, 0)"
| "DecodeRuneInString (b0 # s) =
     (let p0 = rune b0 in
      if p0 < 128 then (p0, 1)
      else if 194 \<le> p0 \<and> p0 \<le> 223 then
        (case s of
           b1 # _ \<Rightarrow> if in_range 128 191 b1
                     then ((p0 mod 32) * 64 + rune b1 mod 64, 2) else (RuneError, 1)
         | _ \<Rightarrow> (RuneError, 1))
      else if 224 \<le> p0 \<and> p0 \<le> 239 then
        (case s of
           b1 # b2 # _ \<Rightarrow>
             if in_range (accept_lo p0) (accept_hi p0) b1 \<and> in_range 128 191 b2
             then ((p0 mod 16) * 4096 + (rune b1 mod 64) * 64 + rune b2 mod 64, 3)
             else (RuneError, 1)
         | _ \<Rightarrow> (RuneError, 1))
      else if 240 \<le> p0 \<and> p0 \<le> 244 then
        (case s of
           b1 # b2 # b3 # _ \<Rightarrow>
             if in_range (accept_lo p0) (accept_hi p0) b1 \<and> in_range 128 191 b2
                \<and> in_range 128 191 b3
             then ((p0 mod 8) * 262144 + (rune b1 mod 64) * 4096 + (rune b2 mod 64) * 64
                   + rune b3 mod 64, 4)
             else (RuneError, 1)
         | _ \<Rightarrow> (RuneError, 1))
      else (RuneError, 1))"

lemma decode_width_le: "DecodeRuneInString s = (r, w) \<Longrightarrow> w \<le> length s"
  by (cases s) (auto simp: Let_def split: if_splits list.splits)

lemma decode_width_pos: "DecodeRuneInString s = (r, w) \<Longrightarrow> s \<noteq> [] \<Longrightarrow> 0 < w"
  by (cases s) (auto simp: Let_def split: if_splits list.splits)

lemma decode_ok_width:
  "DecodeRuneInString s = (r, w) \<Longrightarrow> r \<noteq> RuneError \<Longrightarrow> 0 < w \<and> w \<le> length s"
  by (cases s) (auto simp: Let_def split: if_splits list.splits)

lemma decode_ascii [simp]:
  "rune b < 128 \<Longrightarrow> DecodeRuneInString (b # s) = (rune b, 1)"
  by simp

lemma RuneError_not_ascii [simp]: "n < 128 \<Longrightarrow> n \<noteq> RuneError" "n < 128 \<Longrightarrow> RuneError \<noteq> n"
  by (simp_all add: RuneError_def)

lemma rune_neq_RuneError [simp]: "rune c \<noteq> RuneError" "RuneError \<noteq> rune c"
  using rune_less_256 [of c] by (simp_all add: RuneError_def)

text \<open>A rune below 128 is one byte, the byte itself; a multi-byte rune is at least 128.\<close>

lemma mod_by_quotient: "n * q \<le> m \<Longrightarrow> m < n * Suc q \<Longrightarrow> m mod n = m - n * q" for m n q :: nat
  using minus_mult_div_eq_mod [of m n] by (simp add: div_nat_eqI)

lemma decode_multi_ge:
  assumes "DecodeRuneInString (b # s) = (r, w)" and "128 \<le> rune b"
  shows "128 \<le> r"
proof -
  have *: "128 \<le> (p mod 32) * 64 + q" if "194 \<le> p" "p \<le> 223" for p q :: nat
  proof -
    have "2 \<le> p mod 32" using that mod_by_quotient [of 32 6 p] by simp
    then show ?thesis by simp
  qed
  have **: "128 \<le> (p mod 16) * 4096 + ((rune b1 mod 64) * 64 + q)"
    if "224 \<le> p" "p \<le> 239" "in_range (accept_lo p) (accept_hi p) b1" for p q :: nat and b1
  proof (cases "p = 224")
    case True
    with that have "160 \<le> rune b1" "rune b1 \<le> 191"
      by (auto simp: in_range_def accept_lo_def accept_hi_def)
    then have "32 \<le> rune b1 mod 64" using mod_by_quotient [of 64 2 "rune b1"] by simp
    then show ?thesis by simp
  next
    case False
    with that have "1 \<le> p mod 16" using mod_by_quotient [of 16 14 p] by simp
    then show ?thesis by simp
  qed
  have ***: "128 \<le> (p mod 8) * 262144 + ((rune b1 mod 64) * 4096 + q)"
    if "240 \<le> p" "p \<le> 244" "in_range (accept_lo p) (accept_hi p) b1" for p q :: nat and b1
  proof (cases "p = 240")
    case True
    with that have "144 \<le> rune b1" "rune b1 \<le> 191"
      by (auto simp: in_range_def accept_lo_def accept_hi_def)
    then have "16 \<le> rune b1 mod 64" using mod_by_quotient [of 64 2 "rune b1"] by simp
    then show ?thesis by simp
  next
    case False
    with that have "1 \<le> p mod 8" using mod_by_quotient [of 8 30 p] by simp
    then show ?thesis by simp
  qed
  from assms show ?thesis
    by (auto simp: Let_def RuneError_def * ** *** add.assoc split: if_splits list.splits)
qed

lemma decode_is_ascii:
  assumes "DecodeRuneInString s = (r, w)" and "r < 128"
  obtains t where "s = char_of r # t" and "w = 1" and "rune (char_of r) = r"
proof (cases s)
  case Nil
  with assms show ?thesis by (simp add: RuneError_def)
next
  case (Cons b t)
  with assms have "rune b < 128" using decode_multi_ge [of b t r w] by (cases "rune b < 128") auto
  with assms Cons show ?thesis using that [of t] by auto
qed

text \<open>The decoder looks only at the bytes it consumes, unless it fails.\<close>

lemma decode_prefix:
  "DecodeRuneInString s = (r, w) \<Longrightarrow> r \<noteq> RuneError \<Longrightarrow> DecodeRuneInString (s @ t) = (r, w)"
  by (cases s) (auto simp: Let_def split: if_splits list.splits)

end
