(* ===== verification/Lex_Lossless.thy ===== *)
theory Lex_Lossless
  imports Sanitize
begin

text \<open>
  Properties of the specification lexer on texts that decode: one step of it, and that the
  parts it returns are the text again, with every placeholder replaced by its number.
\<close>

function utf8_clean :: "string \<Rightarrow> bool" where
  "utf8_clean s = (if s = [] then True else
     (let (r, w) = DecodeRuneInString s in if r = RuneError then False else utf8_clean (drop w s)))"
  by pat_completeness auto
termination
  by (relation "measure length") (auto dest!: sym [of _ "DecodeRuneInString _"] decode_ok_width)

declare utf8_clean.simps [simp del]

lemma utf8_clean_Nil [simp]: "utf8_clean []"
  by (simp add: utf8_clean.simps)

lemma utf8_clean_step:
  assumes "utf8_clean s" and "s \<noteq> []"
  obtains r w where "DecodeRuneInString s = (r, w)" and "r \<noteq> RuneError" and "0 < w"
    and "w \<le> length s" and "utf8_clean (drop w s)"
proof -
  obtain r w where d: "DecodeRuneInString s = (r, w)" by force
  have "r \<noteq> RuneError" and "utf8_clean (drop w s)"
    using assms d by (subst (asm) utf8_clean.simps; simp split: if_splits)+
  with d decode_ok_width [OF d] that show ?thesis by blast
qed

lemma utf8_clean_ascii: "rune c < 128 \<Longrightarrow> utf8_clean (c # s) \<longleftrightarrow> utf8_clean s"
  by (subst utf8_clean.simps) simp

lemma utf8_clean_next:
  assumes "next_is s c" and "rune c < 128" and "utf8_clean s"
  obtains t where "s = c # t" and "utf8_clean t"
proof -
  have "fst (DecodeRuneInString s) = rune c" using assms(1) by (simp add: next_is_def)
  then obtain t where "s = c # t"
    using assms(2) by (metis char_of_rune decode_is_ascii prod.collapse)
  with assms that show ?thesis by (simp add: utf8_clean_ascii)
qed

lemma utf8_clean_skip:
  assumes "utf8_clean s"
  shows "utf8_clean (drop (snd (DecodeRuneInString s)) s)"
proof (cases "s = []")
  case False
  from utf8_clean_step [OF assms this] show ?thesis by (metis snd_conv)
qed simp

fun is_placeholder :: "mode \<Rightarrow> bool" where
  "is_placeholder (Placeholder _) = True"
| "is_placeholder _ = False"

lemma lexSQL_Nil [simp]: "\<not> is_placeholder m \<Longrightarrow> lexSQL m acc [] = emit acc"
  by (cases m)
    (simp_all add: lexSQL.simps(2) [of acc "[]"] lexSQL.simps(3) [of _ acc "[]"]
      lexSQL.simps(4) [of acc "[]"] lexSQL.simps(5) [of acc "[]"] lexSQL.simps(6) [of _ acc "[]"])

subsection \<open>Small steps\<close>

text \<open>
  \<open>lexStep m s\<close>: the mode after the next token and the number of bytes it takes, outside
  placeholders. It looks at two runes at most.
\<close>

definition lexStep :: "mode \<Rightarrow> string \<Rightarrow> mode \<times> nat" where
  "lexStep m s =
     (let (r, w) = DecodeRuneInString s; (r2, w2) = DecodeRuneInString (drop w s) in
      case m of
        Placeholder n \<Rightarrow> (Placeholder n, 0)
      | Raw \<Rightarrow>
          if (r = rune CHR ''e'' \<or> r = rune CHR ''E'') \<and> r2 = rune CHR 0x27 then (Escape, w + w2)
          else if r = rune CHR 0x27 then (Quote CHR 0x27, w)
          else if r = rune CHR 0x22 then (Quote CHR 0x22, w)
          else if r = rune CHR ''-'' \<and> r2 = rune CHR ''-'' then (LineComment, w + w2)
          else if r = rune CHR ''/'' \<and> r2 = rune CHR ''*'' then (BlockComment 0, w + w2)
          else (Raw, w)
      | Quote q \<Rightarrow>
          if r = rune q then (if r2 = rune q then (Quote q, w + w2) else (Raw, w)) else (Quote q, w)
      | Escape \<Rightarrow>
          if r = rune CHR 0x5C then (Escape, w + w2)
          else if r = rune CHR 0x27 then (if r2 = rune CHR 0x27 then (Escape, w + w2) else (Raw, w))
          else (Escape, w)
      | LineComment \<Rightarrow>
          if r = rune CHR 0x5C then (LineComment, w + w2)
          else if r = rune CHR 0x0A then (Raw, w) else (LineComment, w)
      | BlockComment k \<Rightarrow>
          if r = rune CHR ''/'' \<and> r2 = rune CHR ''*'' then (BlockComment (k + 1), w + w2)
          else if r = rune CHR ''*'' \<and> r2 = rune CHR ''/''
            then (if k = 0 then Raw else BlockComment (k - 1), w + w2)
          else (BlockComment k, w))"

definition opens :: "mode \<Rightarrow> string \<Rightarrow> bool" where
  "opens m s \<longleftrightarrow> m = Raw \<and> s \<noteq> [] \<and> hd s = CHR ''$'' \<and> next_digit (tl s)"

lemma ascii_next:
  assumes "DecodeRuneInString t = (rune c, w)" and "rune c < 128"
  shows "take w t = [c]" and "drop w t = tl t"
  using assms by (auto elim!: decode_is_ascii)

lemma lexSQL_lexStep:
  assumes "utf8_clean s" and "s \<noteq> []" and "\<not> is_placeholder m" and "\<not> opens m s"
    and "lexStep m s = (m', n)"
  shows "lexSQL m acc s = lexSQL m' (acc @ take n s) (drop n s)"
proof -
  obtain r w where d: "DecodeRuneInString s = (r, w)" and r: "r \<noteq> RuneError"
    using utf8_clean_step [OF assms(1,2)] by metis
  obtain r2 w2 where d2: "DecodeRuneInString (drop w s) = (r2, w2)" by force
  define t where "t = drop w s"
  have tk: "take (w + w2) s = take w s @ take w2 t" and dr: "drop (w + w2) s = drop w2 t"
    by (simp add: t_def take_add) (simp add: t_def add.commute)
  have nx: "next_is t c \<longleftrightarrow> r2 = rune c" for c by (simp add: next_is_def d2 t_def)
  have dollar: "\<not> (r = rune CHR ''$'' \<and> next_digit t)" if "m = Raw"
    using assms(4) that d by (auto simp: opens_def t_def elim!: decode_is_ascii)
  note unf = d Let_def prod.case nx d2 t_def [symmetric] snd_conv
  show ?thesis
  proof (cases m)
    case (Placeholder n)
    with assms(3) show ?thesis by simp
  next
    case Raw
    show ?thesis
      using assms(5) dollar [OF Raw] r
        ascii_next [of t "CHR 0x27" w2] ascii_next [of t "CHR ''-''" w2] ascii_next [of t "CHR ''*''" w2]
      unfolding Raw lexSQL.simps(2) [of acc s] lexStep_def unf
      by (auto simp: tk dr d2 t_def)
  next
    case (Quote q)
    show ?thesis
      using assms(5) r unfolding Quote lexSQL.simps(3) [of q acc s] lexStep_def unf
      by (auto simp: tk dr d2 t_def split: if_splits)
  next
    case Escape
    show ?thesis
      using assms(5) r ascii_next [of t "CHR 0x27" w2]
      unfolding Escape lexSQL.simps(4) [of acc s] lexStep_def unf
      by (auto simp: tk dr d2 t_def split: if_splits)
  next
    case LineComment
    show ?thesis
      using assms(5) r unfolding LineComment lexSQL.simps(5) [of acc s] lexStep_def unf
      by (auto simp: tk dr d2 t_def split: if_splits)
  next
    case (BlockComment k)
    show ?thesis
      using assms(5) r ascii_next [of t "CHR ''/''" w2] ascii_next [of t "CHR ''*''" w2]
      unfolding BlockComment lexSQL.simps(6) [of k acc s] lexStep_def unf
      by (auto simp: tk dr d2 t_def split: if_splits)
  qed
qed

subsection \<open>Placeholders\<close>

lemma is_digit_ascii: "is_digit c \<Longrightarrow> rune c < 128"
  by (simp add: is_digit_def)

lemma next_digit_iff: "next_digit s \<longleftrightarrow> s \<noteq> [] \<and> is_digit (hd s)"
proof (cases s)
  case Nil
  then show ?thesis by (simp add: next_digit_def RuneError_def)
next
  case (Cons c t)
  obtain r w where d: "DecodeRuneInString s = (r, w)" by force
  show ?thesis
  proof (cases "rune c < 128")
    case True
    then show ?thesis by (simp add: Cons next_digit_def is_digit_def Let_def)
  next
    case False
    with decode_multi_ge [OF d [unfolded Cons]] d Cons show ?thesis
      by (simp add: next_digit_def is_digit_def Let_def)
  qed
qed

lemma lexSQL_placeholder_end:
  "\<not> next_digit s \<Longrightarrow> lexSQL (Placeholder n) acc s = PInt n # lexSQL Raw [] s"
  by (subst lexSQL.simps) (auto simp: next_digit_def Let_def split: prod.splits)

lemma lexSQL_digits:
  "list_all is_digit ds \<Longrightarrow>
     lexSQL (Placeholder (of_nat k)) acc (ds @ s) = lexSQL (Placeholder (of_nat (decimal_val k ds))) acc s"
proof (induction ds arbitrary: k)
  case Nil
  then show ?case by (simp add: decimal_val_def)
next
  case (Cons c ds)
  then have "lexSQL (Placeholder (of_nat k)) acc (c # ds @ s)
      = lexSQL (Placeholder (of_nat (k * 10 + digit_val c))) acc (ds @ s)"
    by (subst lexSQL.simps) (simp add: is_digit_ascii, simp add: is_digit_def digit_val_def)
  then show ?case using Cons.IH [of "k * 10 + digit_val c"] Cons.prems
    by (simp add: decimal_val_def)
qed

lemma utf8_clean_digits: "list_all is_digit ds \<Longrightarrow> utf8_clean (ds @ s) \<longleftrightarrow> utf8_clean s"
  by (induction ds) (simp_all add: utf8_clean_ascii is_digit_ascii)

lemma lexSQL_placeholder:
  assumes "next_digit s"
  obtains ds s' where "s = ds @ s'" and "ds \<noteq> []" and "list_all is_digit ds" and "\<not> next_digit s'"
    and "lexSQL (Placeholder 0) acc s = PInt (of_nat (decimal_val 0 ds)) # lexSQL Raw [] s'"
proof -
  define ds s' where "ds = takeWhile is_digit s" and "s' = dropWhile is_digit s"
  have s: "s = ds @ s'" and d: "list_all is_digit ds"
    by (auto simp: ds_def s'_def list_all_iff dest: set_takeWhileD)
  have n: "\<not> next_digit s'" unfolding next_digit_iff s'_def using hd_dropWhile by blast
  have ne: "ds \<noteq> []" using assms by (cases s) (auto simp: ds_def next_digit_iff)
  show thesis
    using that [OF s ne d n] lexSQL_digits [OF d, of 0 acc s'] lexSQL_placeholder_end [OF n]
    by (simp add: s)
qed

subsection \<open>The parts are the text\<close>

text \<open>
  \<open>renders ps s\<close>: writing the parts one after the other, each placeholder as a dollar sign and
  a numeral of its number, gives \<open>s\<close>. Go's \<open>int\<close> keeps the numeral modulo 2 to the 64.
\<close>

inductive renders :: "Part list \<Rightarrow> string \<Rightarrow> bool" where
  renders_Nil: "renders [] []"
| renders_PStr: "renders ps s \<Longrightarrow> renders (PStr a # ps) (a @ s)"
| renders_PInt: "\<lbrakk>renders ps s; ds \<noteq> []; list_all is_digit ds; \<not> next_digit s\<rbrakk>
    \<Longrightarrow> renders (PInt (of_nat (decimal_val 0 ds)) # ps) (CHR ''$'' # ds @ s)"

lemma renders_emit: "renders (emit acc) acc"
  using renders_PStr [OF renders_Nil, of acc] by (simp add: emit_def renders_Nil)

lemma lexStep_progress:
  assumes "utf8_clean s" and "s \<noteq> []" and "\<not> is_placeholder m" and "lexStep m s = (m', n)"
  shows "0 < n" and "n \<le> length s" and "utf8_clean (drop n s)" and "\<not> is_placeholder m'"
proof -
  obtain r w where d: "DecodeRuneInString s = (r, w)" "0 < w" "w \<le> length s" "utf8_clean (drop w s)"
    using utf8_clean_step [OF assms(1,2)] by metis
  obtain r2 w2 where d2: "DecodeRuneInString (drop w s) = (r2, w2)" by force
  have n: "n = w \<or> n = w + w2" and m': "\<not> is_placeholder m'"
    using assms(3,4) unfolding lexStep_def d(1) Let_def prod.case d2
    by (auto split: mode.splits if_splits)
  have "drop (w + w2) s = drop w2 (drop w s)" by (simp add: add.commute)
  with n d(4) utf8_clean_skip [OF d(4)] d2 show "utf8_clean (drop n s)" by auto
  show "0 < n" and "n \<le> length s" and "\<not> is_placeholder m'"
    using n d(2,3) decode_width_le [OF d2] m' by auto
qed

lemma lexSQL_opens:
  assumes "opens Raw s"
  shows "lexSQL Raw acc s = PStr acc # lexSQL (Placeholder 0) [] (tl s)"
proof -
  obtain t where s: "s = CHR ''$'' # t" "next_digit t" using assms by (cases s) (auto simp: opens_def)
  then show ?thesis unfolding s(1) by (subst lexSQL.simps) simp
qed

text \<open>Induction over the steps of the lexer, with the placeholder that a step may open.\<close>

lemma lex_induct [consumes 2, case_names Nil opens step]:
  assumes "utf8_clean s" and "\<not> is_placeholder m"
    and "\<And>m. \<not> is_placeholder m \<Longrightarrow> P m []"
    and "\<And>ds s. \<lbrakk>ds \<noteq> []; list_all is_digit ds; \<not> next_digit s; utf8_clean s; P Raw s\<rbrakk>
      \<Longrightarrow> P Raw (CHR ''$'' # ds @ s)"
    and "\<And>m s m' n. \<lbrakk>utf8_clean s; s \<noteq> []; \<not> is_placeholder m; \<not> opens m s;
      lexStep m s = (m', n); P m' (drop n s)\<rbrakk> \<Longrightarrow> P m s"
  shows "P m s"
  using assms(1,2)
proof (induction s arbitrary: m rule: length_induct)
  case (1 s)
  consider "s = []" | (op) "s \<noteq> []" "opens m s" | (st) "s \<noteq> []" "\<not> opens m s" by blast
  then show ?case
  proof cases
    case 1
    with 1(1) \<open>\<not> is_placeholder m\<close> assms(3) show ?thesis by simp
  next
    case op
    then obtain t where t: "m = Raw" "s = CHR ''$'' # t" "next_digit t" by (cases s) (auto simp: opens_def)
    obtain ds s' where s': "t = ds @ s'" "ds \<noteq> []" "list_all is_digit ds" "\<not> next_digit s'"
      using lexSQL_placeholder [OF t(3)] .
    have "utf8_clean s'" using 1(2) t s' by (simp add: utf8_clean_ascii utf8_clean_digits)
    with 1(1) t(2) s' have "P Raw s'" by simp
    with s' t assms(4) \<open>utf8_clean s'\<close> show ?thesis by simp
  next
    case st
    obtain m' n where n: "lexStep m s = (m', n)" by force
    note pr = lexStep_progress [OF 1(2) st(1) 1(3) n]
    then have "P m' (drop n s)" using 1(1) st(1) by simp
    with assms(5) [OF 1(2) st(1) 1(3) st(2) n] show ?thesis .
  qed
qed

lemma lexSQL_dollar:
  assumes "ds \<noteq> []" and "list_all is_digit ds" and "\<not> next_digit s"
  shows "lexSQL Raw acc (CHR ''$'' # ds @ s)
    = PStr acc # PInt (of_nat (decimal_val 0 ds)) # lexSQL Raw [] s"
proof -
  have "opens Raw (CHR ''$'' # ds @ s)" using assms by (cases ds) (auto simp: opens_def next_digit_iff)
  from lexSQL_opens [OF this, of acc] show ?thesis
    using lexSQL_digits [OF assms(2), of 0 "[]" s] lexSQL_placeholder_end [OF assms(3)] by simp
qed

lemma lexSQL_renders:
  assumes "utf8_clean s" and "\<not> is_placeholder m"
  shows "renders (lexSQL m acc s) (acc @ s)"
  using assms
proof (induction m s arbitrary: acc rule: lex_induct)
  case (Nil m)
  then show ?case by (simp add: renders_emit)
next
  case (opens ds s)
  from this(5) [of "[]"] this(1-4) show ?case
    by (simp add: lexSQL_dollar renders_PStr renders_PInt)
next
  case (step m s m' n)
  from this(6) [of "acc @ take n s"] show ?case by (simp add: lexSQL_lexStep [OF step(1-5)])
qed

end
