(* ===== verification/Splice.thy ===== *)
theory Splice
  imports Lex_Lossless
begin

text \<open>
  When a text may be put in front of another one without changing how it is lexed: the
  lexer looks at two runes at most, so only the pairs of \<open>fusing\<close> matter. The lemmas carry the
  proof that interpolated arguments leave the rest of a query as it was.
\<close>

subsection \<open>Texts that leave the lexer in its raw state\<close>

definition fusing :: "char \<Rightarrow> char \<Rightarrow> bool" where
  "fusing c d \<longleftrightarrow>
     (c = CHR ''e'' \<or> c = CHR ''E'' \<or> c = CHR 0x27) \<and> d = CHR 0x27
     \<or> c = CHR 0x22 \<and> d = CHR 0x22 \<or> c = CHR ''-'' \<and> d = CHR ''-''
     \<or> c = CHR ''/'' \<and> d = CHR ''*'' \<or> c = CHR ''*'' \<and> d = CHR ''/''
     \<or> c = CHR ''$'' \<and> is_digit d"

definition fuses :: "string \<Rightarrow> string \<Rightarrow> bool" where
  "fuses a x \<longleftrightarrow> a \<noteq> [] \<and> x \<noteq> [] \<and> fusing (last a) (hd x)"

definition closed_sql :: "string \<Rightarrow> bool" where
  "closed_sql a \<longleftrightarrow> utf8_clean a \<and>
     (\<forall>acc x. utf8_clean x \<longrightarrow> \<not> fuses a x \<longrightarrow> lexSQL Raw acc (a @ x) = lexSQL Raw (acc @ a) x)"

lemma closed_sqlD:
  "\<lbrakk>closed_sql a; utf8_clean x; \<not> fuses a x\<rbrakk> \<Longrightarrow> lexSQL Raw acc (a @ x) = lexSQL Raw (acc @ a) x"
  by (simp add: closed_sql_def)

lemma closed_sql_clean: "closed_sql a \<Longrightarrow> utf8_clean a"
  by (simp add: closed_sql_def)

lemma closed_sql_Nil [simp]: "closed_sql []"
  by (simp add: closed_sql_def)

lemma clean_decode: "utf8_clean s \<Longrightarrow> s \<noteq> [] \<Longrightarrow> DecodeRuneInString (s @ x) = DecodeRuneInString s"
  using utf8_clean_step [of s] decode_prefix by metis

lemma utf8_clean_append: "utf8_clean a \<Longrightarrow> utf8_clean (a @ b) \<longleftrightarrow> utf8_clean b"
proof (induction a rule: length_induct)
  case (1 a)
  show ?case
  proof (cases "a = []")
    case False
    obtain r w where d: "DecodeRuneInString a = (r, w)" "r \<noteq> RuneError" "0 < w" "w \<le> length a"
      "utf8_clean (drop w a)"
      using utf8_clean_step [OF 1(2) False] .
    have "utf8_clean (a @ b) = utf8_clean (drop w a @ b)"
      using d decode_prefix [OF d(1,2), of b] False by (subst utf8_clean.simps) simp
    with 1(1) d False show ?thesis by simp
  qed simp
qed

lemma fuses_append: "b \<noteq> [] \<Longrightarrow> fuses (a @ b) x \<longleftrightarrow> fuses b x" "b \<noteq> [] \<Longrightarrow> fuses a (b @ x) \<longleftrightarrow> fuses a b"
  by (simp_all add: fuses_def)

lemma closed_sql_append:
  assumes "closed_sql a" and "closed_sql b" and "\<not> fuses a b" and "b \<noteq> [] \<or> a = []"
  shows "closed_sql (a @ b)"
proof (cases "b = []")
  case False
  have "lexSQL Raw acc ((a @ b) @ x) = lexSQL Raw (acc @ a @ b) x"
    if "utf8_clean x" "\<not> fuses (a @ b) x" for acc x
    using that assms False closed_sqlD [OF assms(1), of "b @ x" acc]
      closed_sqlD [OF assms(2) that(1), of "acc @ a"]
    by (simp add: fuses_append utf8_clean_append closed_sql_clean)
  then show ?thesis using assms by (simp add: closed_sql_def utf8_clean_append)
qed (use assms in simp)

lemma decode_hd:
  assumes "DecodeRuneInString x = (rune c, w)" and "rune c < 128"
  shows "x \<noteq> []" and "hd x = c"
  using assms by (auto elim!: decode_is_ascii)

lemma closed_sql_char:
  assumes c: "rune c < 128" and q: "c \<noteq> CHR 0x27" "c \<noteq> CHR 0x22"
  shows "closed_sql [c]"
  unfolding closed_sql_def
proof (intro conjI allI impI)
  show "utf8_clean [c]" by (simp add: utf8_clean_ascii c)
  fix acc x assume x: "utf8_clean x" and nf: "\<not> fuses [c] x"
  have cl: "utf8_clean ([c] @ x)" using x by (simp add: utf8_clean_ascii c)
  have op: "\<not> opens Raw ([c] @ x)" using nf by (auto simp: opens_def fuses_def fusing_def next_digit_iff)
  obtain r2 w2 where d2: "DecodeRuneInString x = (r2, w2)" by force
  have "r2 \<noteq> rune d" if "fusing c d" "rune d < 128" for d
    using nf that decode_hd [of x d w2] d2 by (auto simp: fuses_def)
  from this [of "CHR 0x27"] this [of "CHR ''-''"] this [of "CHR ''*''"]
  have "lexStep Raw ([c] @ x) = (Raw, 1)"
    using c q d2 by (auto simp: lexStep_def fusing_def)
  from lexSQL_lexStep [OF cl _ _ op this] show "lexSQL Raw acc ([c] @ x) = lexSQL Raw (acc @ [c]) x"
    by simp
qed

text \<open>Plain texts: no quote, and no two bytes that fuse.\<close>

fun plain :: "string \<Rightarrow> bool" where
  "plain [] = True"
| "plain (c # s) = (rune c < 128 \<and> c \<noteq> CHR 0x27 \<and> c \<noteq> CHR 0x22
     \<and> \<not> fuses [c] s \<and> plain s)"

lemma closed_sql_plain: "plain s \<Longrightarrow> closed_sql s"
proof (induction s)
  case (Cons c s)
  then show ?case
    using closed_sql_append [of "[c]" s] closed_sql_char [of c] by (cases "s = []") auto
qed simp

subsection \<open>Induction over the runes of a text\<close>

lemma decode_multi:
  assumes "DecodeRuneInString (b # s) = (r, w)" and "r \<noteq> RuneError" and "128 \<le> rune b"
  shows "\<forall>c \<in> set (take w (b # s)). 128 \<le> rune c"
    and "DecodeRuneInString (take w (b # s)) = (r, w)"
  using assms
  by (auto simp: Let_def in_range_def accept_lo_def split: if_splits list.splits)

lemma clean_induct [consumes 1, case_names Nil ascii multi]:
  assumes "utf8_clean s" and "P []"
    and "\<And>c s. \<lbrakk>rune c < 128; utf8_clean s; P s\<rbrakk> \<Longrightarrow> P (c # s)"
    and "\<And>u r s. \<lbrakk>u \<noteq> []; \<forall>b \<in> set u. 128 \<le> rune b; 128 \<le> r; r \<noteq> RuneError;
      \<And>x. DecodeRuneInString (u @ x) = (r, length u); utf8_clean s; P s\<rbrakk> \<Longrightarrow> P (u @ s)"
  shows "P s"
  using assms(1)
proof (induction s rule: length_induct)
  case (1 s)
  show ?case
  proof (cases s)
    case Nil
    with assms(2) show ?thesis by simp
  next
    case (Cons b t)
    obtain r w where d: "DecodeRuneInString s = (r, w)" "r \<noteq> RuneError" "0 < w" "w \<le> length s"
      "utf8_clean (drop w s)"
      using utf8_clean_step [OF 1(2)] Cons by blast
    then have P: "P (drop w s)" using 1(1) Cons by simp
    show ?thesis
    proof (cases "rune b < 128")
      case True
      then have "w = 1" using d(1) Cons by simp
      with assms(3) [OF True _ P] d(5) Cons show ?thesis by simp
    next
      case False
      then have b: "128 \<le> rune b" by simp
      note mu = decode_multi [OF d(1) [unfolded Cons] d(2) b, folded Cons]
      have "DecodeRuneInString (take w s @ x) = (r, length (take w s))" for x
        using decode_prefix [OF mu(2) d(2)] d(4) by simp
      moreover have "s \<noteq> []" using Cons by simp
      ultimately show ?thesis
        using assms(4) [of "take w s" r "drop w s"] mu(1)
          decode_multi_ge [OF d(1) [unfolded Cons] b] d P by simp
    qed
  qed
qed

subsection \<open>Quoted literals\<close>

lemma utf8_clean_multi:
  assumes "u \<noteq> []" and "\<And>x. DecodeRuneInString (u @ x) = (r, length u)" and "r \<noteq> RuneError"
  shows "utf8_clean (u @ s) \<longleftrightarrow> utf8_clean s"
  using assms by (subst utf8_clean.simps) simp

lemma ReplaceAll_multi:
  "\<forall>b \<in> set u. 128 \<le> rune b \<Longrightarrow> rune q < 128 \<Longrightarrow> ReplaceAll (u @ s) q new = u @ ReplaceAll s q new"
  by (subst ReplaceAll_append, subst ReplaceAll_id) auto

lemma utf8_clean_ReplaceAll:
  assumes "utf8_clean s" and "rune q < 128" and "utf8_clean new"
  shows "utf8_clean (ReplaceAll s q new)"
  using assms(1)
proof (induction s rule: clean_induct)
  case (ascii c s)
  then show ?case using assms by (auto simp: utf8_clean_ascii utf8_clean_append)
next
  case (multi u r s)
  then show ?case using assms by (simp add: ReplaceAll_multi utf8_clean_multi)
qed simp

lemma lexSQL_quoted:
  assumes "utf8_clean s" and q: "rune q < 128" and "utf8_clean x" and "x = [] \<or> hd x \<noteq> q"
  shows "lexSQL (Quote q) acc (ReplaceAll s q [q, q] @ q # x) = lexSQL Raw (acc @ ReplaceAll s q [q, q] @ [q]) x"
  using assms(1)
proof (induction s arbitrary: acc rule: clean_induct)
  case Nil
  have "fst (DecodeRuneInString x) \<noteq> rune q"
    using assms(4) decode_hd [of x q] q by (metis prod.collapse)
  then have "lexStep (Quote q) (q # x) = (Raw, 1)"
    by (auto simp: lexStep_def q split: prod.splits)
  from lexSQL_lexStep [OF _ _ _ _ this, of acc] show ?case
    using assms by (simp add: utf8_clean_ascii opens_def)
next
  case (ascii c s)
  let ?rest = "ReplaceAll s q [q, q] @ q # x"
  have clean: "utf8_clean ?rest"
    using ascii(2) assms by (simp add: utf8_clean_append utf8_clean_ReplaceAll utf8_clean_ascii)
  show ?case
  proof (cases "c = q")
    case True
    have "lexStep (Quote q) (q # q # ?rest) = (Quote q, 2)" by (simp add: lexStep_def q)
    from lexSQL_lexStep [OF _ _ _ _ this, of acc] show ?thesis
      using clean ascii(3) [of "acc @ [q, q]"] True q by (simp add: utf8_clean_ascii opens_def)
  next
    case False
    then have "lexStep (Quote q) (c # ?rest) = (Quote q, 1)"
      using ascii(1) by (simp add: lexStep_def split: prod.splits)
    from lexSQL_lexStep [OF _ _ _ _ this, of acc] show ?thesis
      using clean ascii(1) ascii(3) [of "acc @ [c]"] False by (simp add: utf8_clean_ascii opens_def)
  qed
next
  case (multi u r s)
  let ?rest = "ReplaceAll s q [q, q] @ q # x"
  have clean: "utf8_clean ?rest"
    using multi(6) assms by (simp add: utf8_clean_append utf8_clean_ReplaceAll utf8_clean_ascii)
  have "lexStep (Quote q) (u @ ?rest) = (Quote q, length u)"
    using multi(3,5) q by (simp add: lexStep_def split: prod.splits)
  from lexSQL_lexStep [OF _ _ _ _ this, of acc] show ?case
    using multi(7) [of "acc @ u"] multi(1,2) clean q utf8_clean_multi [OF multi(1,5,4)]
    by (simp add: ReplaceAll_multi opens_def)
qed

text \<open>A literal quoted by doubling its quotes is closed, whatever it contains.\<close>

lemma closed_sql_quoted:
  assumes "utf8_clean s" and q: "q = CHR 0x27 \<or> q = CHR 0x22"
  shows "closed_sql ([q] @ ReplaceAll s q [q, q] @ [q])"
  unfolding closed_sql_def
proof (intro conjI allI impI)
  have a: "rune q < 128" using q by (auto simp: rune_def)
  show clean: "utf8_clean ([q] @ ReplaceAll s q [q, q] @ [q])"
    using assms a by (simp add: utf8_clean_ascii utf8_clean_append utf8_clean_ReplaceAll)
  fix acc x assume x: "utf8_clean x" "\<not> fuses ([q] @ ReplaceAll s q [q, q] @ [q]) x"
  then have hx: "x = [] \<or> hd x \<noteq> q" using q by (auto simp: fuses_def fusing_def)
  let ?rest = "ReplaceAll s q [q, q] @ q # x"
  have "lexStep Raw (q # ?rest) = (Quote q, 1)"
    using q by (auto simp: lexStep_def rune_def split: prod.splits)
  from lexSQL_lexStep [OF _ _ _ _ this, of acc]
  show "lexSQL Raw acc (([q] @ ReplaceAll s q [q, q] @ [q]) @ x)
      = lexSQL Raw (acc @ [q] @ ReplaceAll s q [q, q] @ [q]) x"
    using lexSQL_quoted [OF assms(1) a x(1) hx, of "acc @ [q]"] q a x(1) assms(1)
    by (auto simp: utf8_clean_ascii utf8_clean_append utf8_clean_ReplaceAll opens_def)
qed

subsection \<open>The raw text of a template\<close>

fun prepend :: "string \<Rightarrow> Part list \<Rightarrow> Part list" where
  "prepend a (PStr b # ps) = PStr (a @ b) # ps"
| "prepend a ps = emit a @ ps"

lemma lexSQL_prepend:
  assumes "utf8_clean s" and "\<not> is_placeholder m"
  shows "lexSQL m (a @ acc) s = prepend a (lexSQL m acc s)"
  using assms
proof (induction m s arbitrary: acc rule: lex_induct)
  case (Nil m)
  then show ?case by (simp add: emit_def)
next
  case (opens ds s)
  then show ?case by (simp add: lexSQL_dollar)
next
  case (step m s m' n)
  from this(6) [of "acc @ take n s"] show ?case by (simp add: lexSQL_lexStep [OF step(1-5)])
qed

lemma lexSQL_first:
  assumes "utf8_clean s" and "\<not> is_placeholder m" and "acc \<noteq> []"
  obtains b ps where "lexSQL m acc s = PStr (acc @ b) # ps"
proof -
  have "lexSQL m acc s = prepend acc (lexSQL m [] s)" using lexSQL_prepend [OF assms(1,2), of acc "[]"] by simp
  with that assms(3) show thesis by (cases "(acc, lexSQL m [] s)" rule: prepend.cases) (auto simp: emit_def)
qed

lemma lexStep_append:
  assumes "utf8_clean a" and "snd (DecodeRuneInString a) < length a"
  shows "lexStep m (a @ x) = lexStep m a"
proof -
  obtain r w where d: "DecodeRuneInString a = (r, w)" by force
  have ne: "a \<noteq> []" "drop w a \<noteq> []" using assms(2) d by auto
  have "utf8_clean (drop w a)" using utf8_clean_skip [OF assms(1)] d by simp
  then have "DecodeRuneInString (drop w a @ x) = DecodeRuneInString (drop w a)"
    by (rule clean_decode) (use ne in simp)
  moreover have "drop w (a @ x) = drop w a @ x" using assms(2) d by simp
  ultimately show ?thesis unfolding lexStep_def clean_decode [OF assms(1) ne(1)] d by simp
qed

lemma utf8_clean_before_ascii:
  "utf8_clean (a @ c # s) \<Longrightarrow> rune c < 128 \<Longrightarrow> utf8_clean a"
proof (induction "a @ c # s" arbitrary: a rule: clean_induct)
  case (ascii d t)
  then show ?case by (cases a) (auto simp: utf8_clean_ascii)
next
  case (multi u r t)
  then show ?case
  proof (cases "length u \<le> length a")
    case True
    then obtain a' where "a = u @ a'" using multi(8) by (metis append_eq_append_conv_if append_eq_conv_conj)
    with multi show ?thesis by (simp add: utf8_clean_multi)
  next
    case False
    with multi(8) have "u ! length a = c" by (metis nth_append nth_append_length not_le)
    with multi(2,9) False show ?thesis by (metis not_le nth_mem)
  qed
qed simp

text \<open>
  If the lexer arrives at a placeholder in its raw state after the text \<open>a\<close>, it also does so
  when \<open>a\<close> is followed by any \<open>x\<close> that does not fuse with it. First the last rune of \<open>a\<close>.
\<close>

lemma overrun:
  assumes "lexSQL m (acc @ a @ b) s = PStr (acc @ a) # ps" and "utf8_clean s" and "\<not> is_placeholder m"
  shows "b = []"
proof (rule ccontr)
  assume "b \<noteq> []"
  then obtain b' ps' where "lexSQL m (acc @ a @ b) s = PStr ((acc @ a @ b) @ b') # ps'"
    using lexSQL_first [OF assms(2,3), of "acc @ a @ b"] by blast
  with assms(1) \<open>b \<noteq> []\<close> show False by simp
qed

lemma opens_stay:
  assumes y: "opens Raw y" "utf8_clean y" and m: "\<not> is_placeholder m" and "lexSQL m acc y = PStr acc # ps"
  shows "m = Raw"
proof (rule ccontr)
  assume "m \<noteq> Raw"
  then have o: "\<not> opens m y" and y0: "y \<noteq> []" using y by (simp_all add: opens_def)
  obtain m' n where st: "lexStep m y = (m', n)" by force
  note pr = lexStep_progress [OF y(2) y0 m st]
  have "lexSQL m' (acc @ [] @ take n y) (drop n y) = PStr (acc @ []) # ps"
    using lexSQL_lexStep [OF y(2) y0 m o st, of acc] assms(4) by simp
  from overrun [OF this pr(3,4)] pr(1) y0 show False by simp
qed

fun quotes :: "mode \<Rightarrow> bool" where
  "quotes (Quote q) = (q = CHR 0x27 \<or> q = CHR 0x22)"
| "quotes _ = True"

lemma lexStep_ge: "\<not> is_placeholder m \<Longrightarrow> lexStep m s = (m', n) \<Longrightarrow> snd (DecodeRuneInString s) \<le> n"
  by (cases m) (auto simp: lexStep_def Let_def split: prod.splits if_splits)

lemma lexStep_quotes: "quotes m \<Longrightarrow> lexStep m s = (m', n) \<Longrightarrow> quotes m'"
  by (cases m) (auto simp: lexStep_def Let_def split: prod.splits if_splits)

lemma lexStep_last:
  assumes d: "DecodeRuneInString a = (r, length a)" "r \<noteq> RuneError" and x: "\<not> fuses a x"
    and y: "hd y = CHR ''$''" "y \<noteq> []" and "lexStep m (a @ y) = (Raw, length a)" and "quotes m"
  shows "lexStep m (a @ x) = (Raw, length a)" and "\<not> opens m (a @ x)"
proof -
  have a: "a = [c]" if "r = rune c" "rune c < 128" for c
    using that d(1) by (auto elim!: decode_is_ascii)
  obtain r2 w2 where d2: "DecodeRuneInString x = (r2, w2)" by force
  have y2: "DecodeRuneInString y = (rune CHR ''$'', 1)" using y by (cases y) auto
  have r2: "r2 \<noteq> rune f" if "r = rune c" "fusing c f" "rune c < 128" "rune f < 128" for c f
    using x that a [of c] decode_hd [of x f w2] d2 by (auto simp: fuses_def)
  note r2s = r2 [of "CHR ''e''" "CHR 0x27"] r2 [of "CHR ''E''" "CHR 0x27"] r2 [of "CHR 0x27" "CHR 0x27"]
    r2 [of "CHR 0x22" "CHR 0x22"] r2 [of "CHR ''-''" "CHR ''-''"] r2 [of "CHR ''/''" "CHR ''*''"]
    r2 [of "CHR ''*''" "CHR ''/''"]
  have q: "r2 \<noteq> rune q" if "r = rune q" "m = Quote q" for q
    using assms(7) r2 [of q q] that by (auto simp: fusing_def rune_def)
  show "lexStep m (a @ x) = (Raw, length a)"
    using assms(6) r2s q unfolding lexStep_def decode_prefix [OF d] Let_def prod.case append_eq_conv_conj
    by (cases m) (auto simp: y2 d2 fusing_def rune_def split: if_splits)
  show "\<not> opens m (a @ x)"
  proof
    assume o: "opens m (a @ x)"
    have a0: "a \<noteq> []" using d by auto
    with o have "rune (hd a) < 128" "hd a = CHR ''$''" by (auto simp: opens_def)
    then have "a = ''$''" using d(1) a0 by (cases a) auto
    with o x show False by (auto simp: opens_def fuses_def fusing_def next_digit_iff)
  qed
qed

lemma lexSQL_splice:
  assumes "utf8_clean (a @ y)" and y: "opens Raw y" and x: "utf8_clean x" "\<not> fuses a x"
    and "\<not> is_placeholder m" and "quotes m" and "lexSQL m acc (a @ y) = PStr (acc @ a) # ps"
  shows "lexSQL m acc (a @ x) = lexSQL Raw (acc @ a) x"
proof -
  obtain y' where y': "y = CHR ''$'' # y'" using y by (cases y) (auto simp: opens_def)
  have ca: "utf8_clean a" using utf8_clean_before_ascii assms(1) y' by (simp add: rune_def)
  then have cy: "utf8_clean y" using assms(1) utf8_clean_append by blast
  show ?thesis
    using ca assms(4-)
  proof (induction a arbitrary: m acc rule: length_induct)
    case (1 a)
    note IH = 1(1) and ca = 1(2) and nf = 1(3) and m = 1(4) and q = 1(5) and eq = 1(6)
    show ?case
    proof (cases "a = []")
      case True
      with opens_stay [OF y cy m, of acc ps] eq show ?thesis by simp
    next
      case False
      obtain r w where d: "DecodeRuneInString a = (r, w)" "r \<noteq> RuneError" "w \<le> length a" "0 < w"
        using utf8_clean_step [OF ca False] .
      have cay: "utf8_clean (a @ y)" "utf8_clean (a @ x)" using ca cy x(1) by (simp_all add: utf8_clean_append)
      have op: "\<not> opens m (a @ y)" using eq lexSQL_opens [of "a @ y" acc] False by (auto simp: opens_def)
      obtain m' n where st: "lexStep m (a @ y) = (m', n)" by force
      note pr = lexStep_progress [OF cay(1) _ m st] and st' = lexSQL_lexStep [OF cay(1) _ m op st, of acc]
      show ?thesis
      proof (cases "w < length a")
        case True
        have st1: "lexStep m a = (m', n)" "lexStep m (a @ x) = (m', n)"
          using lexStep_append [OF ca, of m] True d(1) st by simp_all
        have op1: "\<not> opens m (a @ x)" using op True False d(4)
          by (cases a; cases "tl a") (auto simp: opens_def next_digit_iff)
        have n: "n \<le> length a" using lexStep_progress [OF ca False m st1(1)] by simp
        have "\<not> fuses (drop n a) x" using nf n by (auto simp: fuses_def last_drop)
        moreover have "length (drop n a) < length a" "utf8_clean (drop n a)"
          using lexStep_progress [OF ca False m st1(1)] False by simp_all
        moreover have "lexSQL m' (acc @ take n a) (drop n a @ y) = PStr ((acc @ take n a) @ drop n a) # ps"
          using st' eq n False by simp
        ultimately have "lexSQL m' (acc @ take n a) (drop n a @ x) = lexSQL Raw (acc @ a) x"
          using IH pr(4) lexStep_quotes [OF q st] False by (metis append_assoc append_take_drop_id append_is_Nil_conv)
        then show ?thesis using lexSQL_lexStep [OF cay(2) _ m op1 st1(2), of acc] n False by simp
      next
        case w: False
        then have w: "w = length a" using d(3) by simp
        have "w \<le> n" using lexStep_ge [OF m st] clean_decode [OF ca False] d(1) by simp
        then have "lexSQL m' (acc @ a @ take (n - w) y) (drop n (a @ y)) = PStr (acc @ a) # ps"
          using st' eq w False by simp
        from overrun [OF this] pr(3,4) False have "take (n - w) y = []" by simp
        then have n: "n = length a" using \<open>w \<le> n\<close> w y' by simp
        with st' eq False have "lexSQL m' (acc @ a) y = PStr (acc @ a) # ps" by simp
        with opens_stay [OF y cy] pr(4) False have "m' = Raw" by simp
        with st n have st0: "lexStep m (a @ y) = (Raw, length a)" by simp
        from lexStep_last [OF d(1) [unfolded w] d(2) nf _ _ st0 q] y'
        have "lexStep m (a @ x) = (Raw, length a)" "\<not> opens m (a @ x)" by simp_all
        from lexSQL_lexStep [OF cay(2) _ m this(2,1), of acc] False show ?thesis by simp
      qed
    qed
  qed
qed

lemma lexSQL_cases:
  assumes "utf8_clean s" and "\<not> is_placeholder m"
  obtains (last) "lexSQL m acc s = emit (acc @ s)"
    | (hole) a ds s' where "s = a @ CHR ''$'' # ds @ s'" and "ds \<noteq> []" and "list_all is_digit ds"
      and "\<not> next_digit s'" and "utf8_clean s'"
      and "lexSQL m acc s = PStr (acc @ a) # PInt (of_nat (decimal_val 0 ds)) # lexSQL Raw [] s'"
proof -
  have "lexSQL m acc s = emit (acc @ s) \<or> (\<exists>a ds s'. s = a @ CHR ''$'' # ds @ s' \<and> ds \<noteq> []
      \<and> list_all is_digit ds \<and> \<not> next_digit s' \<and> utf8_clean s'
      \<and> lexSQL m acc s = PStr (acc @ a) # PInt (of_nat (decimal_val 0 ds)) # lexSQL Raw [] s')"
    using assms
  proof (induction m s arbitrary: acc rule: lex_induct)
    case (opens ds s)
    then show ?case by (intro disjI2 exI [of _ "[]"] exI [of _ ds] exI [of _ s]) (simp add: lexSQL_dollar)
  next
    case (step m s m' n)
    note eq = lexSQL_lexStep [OF step(1-5), of acc]
    from step(6) [of "acc @ take n s"] show ?case
    proof (elim disjE exE conjE)
      fix a ds s'
      assume a: "drop n s = a @ CHR ''$'' # ds @ s'" "ds \<noteq> []" "list_all is_digit ds" "\<not> next_digit s'"
        "utf8_clean s'" "lexSQL m' (acc @ take n s) (drop n s)
          = PStr ((acc @ take n s) @ a) # PInt (of_nat (decimal_val 0 ds)) # lexSQL Raw [] s'"
      have "s = (take n s @ a) @ CHR ''$'' # ds @ s'" using append_take_drop_id [of n s] a(1) by simp
      then show ?thesis using a(2-6) eq by (metis append.assoc)
    qed (simp add: eq)
  qed simp
  then show thesis using last hole by blast
qed

lemma template_closed:
  assumes "utf8_clean (a @ CHR ''$'' # ds @ s)" and "ds \<noteq> []" and "list_all is_digit ds"
    and "lexSQL Raw [] (a @ CHR ''$'' # ds @ s) = PStr a # ps"
  shows "closed_sql a"
  unfolding closed_sql_def
proof (intro conjI allI impI)
  let ?y = "CHR ''$'' # ds @ s"
  show "utf8_clean a" using utf8_clean_before_ascii [OF assms(1)] by (simp add: rune_def)
  fix acc x assume "utf8_clean x" "\<not> fuses a x"
  moreover have "opens Raw ?y" using assms(2,3) by (cases ds) (auto simp: opens_def next_digit_iff)
  moreover have "lexSQL Raw acc (a @ ?y) = PStr (acc @ a) # ps"
    using lexSQL_prepend [OF assms(1), of Raw acc "[]"] assms(4) by simp
  ultimately show "lexSQL Raw acc (a @ x) = lexSQL Raw (acc @ a) x"
    using lexSQL_splice [OF assms(1)] by simp
qed

end
