(* ===== verification/Interpolate.thy ===== *)
theory Interpolate
  imports Splice
begin

text \<open>
  The interpolation half of \<open>src/sanitize/sanitize.go\<close>: \<open>Query.Sanitize\<close>, \<open>QuoteString\<close>,
  \<open>QuoteBytes\<close> and \<open>SanitizeSQL\<close>. \<open>strconv.FormatFloat\<close> is a parameter, of which the lemmas
  assume only the shape of its output.
\<close>

subsection \<open>Quoting and rendering of arguments\<close>

definition QuoteString :: "string \<Rightarrow> string" where
  "QuoteString str = [CHR 0x27] @ ReplaceAll str CHR 0x27 [CHR 0x27, CHR 0x27] @ [CHR 0x27]"

definition QuoteBytes :: "bytes \<Rightarrow> string" where
  "QuoteBytes buf = [CHR 0x27, CHR 0x5C, CHR ''x''] @ EncodeToString buf @ [CHR 0x27]"

text \<open>
  \<open>time.Time.Truncate(time.Microsecond)\<close>, and \<open>Format\<close> with the layout of the source: the
  fraction loses its trailing zeros, the zone is \<open>Z\<close> or a signed offset, whose sign is that
  of the offset in whole minutes.
\<close>

definition pad :: "nat \<Rightarrow> nat \<Rightarrow> string" where
  "pad width n = (let s = format_nat n in replicate (width - length s) CHR ''0'' @ s)"

definition pad_int :: "nat \<Rightarrow> int \<Rightarrow> string" where
  "pad_int width i = (if i < 0 then CHR ''-'' # pad width (nat (- i)) else pad width (nat i))"

definition strip_zeros :: "string \<Rightarrow> string" where
  "strip_zeros s = rev (dropWhile (\<lambda>c. c = CHR ''0'') (rev s))"

definition format_fraction :: "nat \<Rightarrow> string" where
  "format_fraction ns =
     (let ds = strip_zeros (pad 9 ns) in if ds = [] then [] else CHR ''.'' # ds)"

definition trunc_div :: "int \<Rightarrow> int \<Rightarrow> int" where
  "trunc_div a b = sgn a * sgn b * (\<bar>a\<bar> div \<bar>b\<bar>)"

definition trunc_mod :: "int \<Rightarrow> int \<Rightarrow> int" where
  "trunc_mod a b = a - b * trunc_div a b"

definition format_zone :: "int \<Rightarrow> string" where
  "format_zone off =
     (if off = 0 then ''Z'' else
      let zone = trunc_div off 60;
          sign = (if zone < 0 then CHR ''-'' else CHR ''+'');
          absoffset = (if zone < 0 then - off else off);
          zone = \<bar>zone\<bar>
      in [sign] @ pad_int 2 (trunc_div zone 60) @ '':'' @ pad_int 2 (trunc_mod zone 60)
         @ '':'' @ pad_int 2 (trunc_mod absoffset 60))"

definition truncate_microsecond :: "gotime \<Rightarrow> gotime" where
  "truncate_microsecond t = t\<lparr>t_nanosecond := t_nanosecond t - t_nanosecond t mod 1000\<rparr>"

definition format_time :: "gotime \<Rightarrow> string" where
  "format_time t =
     [CHR 0x27] @ pad_int 4 (t_year t) @ ''-'' @ pad 2 (t_month t) @ ''-'' @ pad 2 (t_day t)
     @ '' '' @ pad 2 (t_hour t) @ '':'' @ pad 2 (t_minute t) @ '':'' @ pad 2 (t_second t)
     @ format_fraction (t_nanosecond t) @ format_zone (t_offset t) @ [CHR 0x27]"

text \<open>The type switch of \<open>Sanitize\<close>: \<open>None\<close> is its default case.\<close>

fun sanitizeArg :: "(gofloat \<Rightarrow> string) \<Rightarrow> goval \<Rightarrow> string option" where
  "sanitizeArg ff GNil = Some ''null''"
| "sanitizeArg ff (GInt64 w) = Some (FormatInt (sint w))"
| "sanitizeArg ff (GFloat64 f) = Some (ff f)"
| "sanitizeArg ff (GBool b) = Some (FormatBool b)"
| "sanitizeArg ff (GBytes b) = Some (QuoteBytes (bytes_of b))"
| "sanitizeArg ff (GString s) = Some (QuoteString s)"
| "sanitizeArg ff (GTime t) = Some (format_time (truncate_microsecond t))"
| "sanitizeArg ff _ = None"

subsection \<open>Sanitize\<close>

text \<open>
  The loop over the parts, with the output buffer and the table of used arguments. An index
  beyond the arguments is an error; a negative one is the panic of a Go slice access.
\<close>

fun sanitizeParts ::
  "(gofloat \<Rightarrow> string) \<Rightarrow> goval list \<Rightarrow> Part list \<Rightarrow> bool list \<Rightarrow> string
     \<Rightarrow> (string \<times> bool list) outcome" where
  "sanitizeParts ff args [] argUse buf = Ret (buf, argUse)"
| "sanitizeParts ff args (PStr str # ps) argUse buf = sanitizeParts ff args ps argUse (buf @ str)"
| "sanitizeParts ff args (PInt part # ps) argUse buf =
     (let argIdx = sint (part - 1) in
      if int (length args) \<le> argIdx then Err (Errorf ''insufficient arguments'')
      else if argIdx < 0 then Panic
      else case sanitizeArg ff (args ! nat argIdx) of
             None \<Rightarrow> Err (Errorf (''invalid arg type: '' @ type_name (args ! nat argIdx)))
           | Some str \<Rightarrow>
               sanitizeParts ff args ps (argUse[nat argIdx := True]) (buf @ str))"

fun firstUnused :: "nat \<Rightarrow> bool list \<Rightarrow> nat option" where
  "firstUnused i [] = None"
| "firstUnused i (used # us) = (if used then firstUnused (Suc i) us else Some i)"

definition Query_Sanitize :: "(gofloat \<Rightarrow> string) \<Rightarrow> Query \<Rightarrow> goval list \<Rightarrow> string outcome" where
  "Query_Sanitize ff q args =
     (case sanitizeParts ff args (Parts q) (replicate (length args) False) [] of
        Err e \<Rightarrow> Err e
      | Panic \<Rightarrow> Panic
      | Ret (buf, argUse) \<Rightarrow>
          (case firstUnused 0 argUse of
             Some i \<Rightarrow> Err (Errorf (''unused argument: '' @ FormatInt (int i)))
           | None \<Rightarrow> Ret buf))"

definition SanitizeSQL :: "(gofloat \<Rightarrow> string) \<Rightarrow> string \<Rightarrow> goval list \<Rightarrow> string outcome" where
  "SanitizeSQL ff sql args = Query_Sanitize ff (NewQuery sql) args"

subsection \<open>What Sanitize returns\<close>

text \<open>The index a placeholder stands for, when it is within the arguments.\<close>

definition arg_index :: "nat \<Rightarrow> 64 word \<Rightarrow> nat option" where
  "arg_index n part =
     (let i = sint (part - 1) in if 0 \<le> i \<and> i < int n then Some (nat i) else None)"

fun renderPart :: "(gofloat \<Rightarrow> string) \<Rightarrow> goval list \<Rightarrow> Part \<Rightarrow> string option" where
  "renderPart ff args (PStr s) = Some s"
| "renderPart ff args (PInt p) =
     Option.bind (arg_index (length args) p) (\<lambda>i. sanitizeArg ff (args ! i))"

definition used_indices :: "nat \<Rightarrow> Part list \<Rightarrow> nat set" where
  "used_indices n ps = {i. \<exists>p. PInt p \<in> set ps \<and> arg_index n p = Some i}"

lemma sanitizeParts_Ret:
  "length argUse = length args \<Longrightarrow>
     sanitizeParts ff args ps argUse buf = Ret (out, argUse') \<longleftrightarrow>
     (\<exists>ss. list_all2 (\<lambda>p s. renderPart ff args p = Some s) ps ss \<and> out = buf @ concat ss)
     \<and> argUse' = map (\<lambda>i. argUse ! i \<or> i \<in> used_indices (length args) ps) [0..<length args]"
proof (induction ff args ps argUse buf rule: sanitizeParts.induct)
  case (1 ff args argUse buf)
  have "map ((!) argUse) [0..<length args] = argUse" using 1 by (metis map_nth)
  then show ?case by (auto simp: used_indices_def)
next
  case (2 ff args str ps argUse buf)
  have "used_indices n (PStr str # ps) = used_indices n ps" for n by (simp add: used_indices_def)
  then show ?case using 2 by (auto simp: list_all2_Cons1)
next
  case (3 ff args part ps argUse buf)
  define i where "i = sint (part - 1)"
  show ?case
  proof (cases "0 \<le> i \<and> i < int (length args)")
    case False
    then have "arg_index (length args) part = None" by (simp add: arg_index_def i_def Let_def)
    then show ?thesis using False by (auto simp: i_def Let_def list_all2_Cons1)
  next
    case True
    then have ix: "arg_index (length args) part = Some (nat i)" by (simp add: arg_index_def i_def Let_def)
    have un: "k \<in> used_indices (length args) (PInt part # ps) \<longleftrightarrow> k = nat i \<or> k \<in> used_indices (length args) ps"
      for k using ix by (auto simp: used_indices_def)
    show ?thesis
    proof (cases "sanitizeArg ff (args ! nat i)")
      case None
      then show ?thesis using True ix by (auto simp: i_def [symmetric] Let_def list_all2_Cons1)
    next
      case (Some str)
      have ni: "nat i < length argUse" using True 3(2) by auto
      have IH: "sanitizeParts ff args ps (argUse[nat i := True]) (buf @ str) = Ret (out, argUse') \<longleftrightarrow>
          (\<exists>ss. list_all2 (\<lambda>p s. renderPart ff args p = Some s) ps ss \<and> out = (buf @ str) @ concat ss)
          \<and> argUse' = map (\<lambda>k. argUse[nat i := True] ! k \<or> k \<in> used_indices (length args) ps)
            [0..<length args]"
        using 3(1) [OF i_def] True Some 3(2) by simp
      have "map (\<lambda>k. argUse[nat i := True] ! k \<or> k \<in> used_indices (length args) ps) [0..<length args]
          = map (\<lambda>k. argUse ! k \<or> k \<in> used_indices (length args) (PInt part # ps)) [0..<length args]"
        using ni by (intro map_cong refl) (auto simp: un nth_list_update)
      moreover have "sanitizeParts ff args (PInt part # ps) argUse buf
          = sanitizeParts ff args ps (argUse[nat i := True]) (buf @ str)"
        using True Some by (simp add: i_def [symmetric])
      ultimately show ?thesis using IH ix Some by (auto simp: list_all2_Cons1)
    qed
  qed
qed

lemma firstUnused_None: "firstUnused i us = None \<longleftrightarrow> (\<forall>u \<in> set us. u)"
  by (induction us arbitrary: i) auto

lemma used_indices_less: "used_indices n ps \<subseteq> {..<n}"
  by (auto simp: used_indices_def arg_index_def Let_def split: if_splits)

lemma Query_Sanitize_Ret_iff:
  "Query_Sanitize ff q args = Ret out \<longleftrightarrow>
     (\<exists>ss. list_all2 (\<lambda>p s. renderPart ff args p = Some s) (Parts q) ss \<and> out = concat ss)
     \<and> used_indices (length args) (Parts q) = {..<length args}"
proof -
  have all: "(\<forall>u \<in> set (map (\<lambda>i. replicate n False ! i \<or> i \<in> used_indices n ps) [0..<n]). u)
      \<longleftrightarrow> used_indices n ps = {..<n}" for n ps
    using used_indices_less [of n ps] by auto
  have "Query_Sanitize ff q args = Ret out \<longleftrightarrow> (\<exists>argUse'. firstUnused 0 argUse' = None \<and>
      sanitizeParts ff args (Parts q) (replicate (length args) False) [] = Ret (out, argUse'))"
    by (auto simp: Query_Sanitize_def split: outcome.splits option.splits)
  also have "\<dots> \<longleftrightarrow>
      (\<exists>ss. list_all2 (\<lambda>p s. renderPart ff args p = Some s) (Parts q) ss \<and> out = [] @ concat ss)
      \<and> used_indices (length args) (Parts q) = {..<length args}"
    unfolding sanitizeParts_Ret [OF length_replicate] all [symmetric] firstUnused_None by blast
  finally show ?thesis by simp
qed

lemma sint_pred:
  fixes p :: "64 word"
  assumes "1 \<le> sint p"
  shows "sint (p - 1) = sint p - 1"
  using assms sint_lt [of p] by (simp add: sint_word_diff signed_take_bit_int_eq_self)

lemma sanitizeParts_no_panic:
  "\<forall>p. PInt p \<in> set ps \<longrightarrow> 1 \<le> sint p \<Longrightarrow> sanitizeParts ff args ps argUse buf \<noteq> Panic"
  by (induction ff args ps argUse buf rule: sanitizeParts.induct)
    (auto simp: Let_def sint_pred split: option.splits)

lemma Query_Sanitize_no_panic:
  assumes "\<forall>p. PInt p \<in> set (Parts q) \<longrightarrow> 1 \<le> sint p"
  shows "Query_Sanitize ff q args \<noteq> Panic"
  using sanitizeParts_no_panic [OF assms]
  by (auto simp: Query_Sanitize_def split: outcome.splits option.splits prod.splits)

subsection \<open>Arguments stay within their place\<close>

text \<open>
  The shape of a number in SQL text: what \<open>strconv.FormatFloat\<close> with format \<open>'f'\<close> writes, the
  names of the infinities and of NaN included.
\<close>

definition number_char :: "char \<Rightarrow> bool" where
  "number_char c \<longleftrightarrow> is_digit c \<or> c \<in> set ''.+INafn''"

definition number_text :: "string \<Rightarrow> bool" where
  "number_text z \<longleftrightarrow>
     (let b = (if z \<noteq> [] \<and> hd z = CHR ''-'' then tl z else z) in b \<noteq> [] \<and> list_all number_char b)"

definition arg_text :: "string \<Rightarrow> bool" where
  "arg_text z \<longleftrightarrow> z \<noteq> [] \<and> closed_sql z \<and> hd z \<notin> set [CHR 0x22, CHR ''*'', CHR ''/'']
     \<and> last z \<notin> set [CHR 0x22, CHR ''-'', CHR ''/'', CHR ''*'', CHR ''$'']"

lemma number_char_cases:
  "number_char c \<Longrightarrow> rune c < 128 \<and> c \<notin> set [CHR 0x27, CHR 0x22, CHR ''*'', CHR ''/'', CHR ''-'',
     CHR ''$'', CHR ''e'', CHR ''E'']"
  by (auto simp: number_char_def is_digit_def rune_def)

lemma plain_number_chars: "list_all number_char b \<Longrightarrow> plain b"
  by (induction b) (auto simp: fuses_def fusing_def dest!: number_char_cases)

lemma arg_text_number: "number_text z \<Longrightarrow> arg_text z"
proof -
  assume z: "number_text z"
  define b where "b = (if z \<noteq> [] \<and> hd z = CHR ''-'' then tl z else z)"
  have b: "b \<noteq> []" "list_all number_char b" using z by (simp_all add: number_text_def b_def Let_def)
  have h: "number_char (hd b)" "number_char (last b)" using b by (auto simp: list_all_iff)
  have "z = b \<or> z = CHR ''-'' # b" by (cases z) (auto simp: b_def)
  moreover have "plain (CHR ''-'' # b)"
    using plain_number_chars [OF b(2)] number_char_cases [OF h(1)] b(1)
    by (auto simp: fuses_def fusing_def rune_def)
  ultimately have "closed_sql z" "z \<noteq> []" using closed_sql_plain plain_number_chars [OF b(2)] b(1) by auto
  with number_char_cases [OF h(1)] number_char_cases [OF h(2)] b \<open>z = b \<or> z = CHR ''-'' # b\<close>
  show ?thesis by (auto simp: arg_text_def)
qed

lemma number_text_FormatInt: "number_text (FormatInt i)"
  using format_nat_digits hd_format_nat [of "nat i"]
  by (auto simp: number_text_def FormatInt_def number_char_def list_all_iff)

lemma arg_text_word: "s \<in> {''null'', ''true'', ''false''} \<Longrightarrow> arg_text s"
  by (auto simp: arg_text_def rune_def fuses_def fusing_def intro!: closed_sql_plain)

lemma arg_text_QuoteString: "utf8_clean s \<Longrightarrow> arg_text (QuoteString s)"
  using closed_sql_quoted [of s "CHR 0x27"] by (simp add: arg_text_def QuoteString_def)

lemma utf8_clean_all_ascii: "\<forall>c \<in> set s. rune c < 128 \<Longrightarrow> utf8_clean s"
  by (induction s) (auto simp: utf8_clean_ascii)

lemma arg_text_unquoted:
  assumes "\<forall>c \<in> set s. rune c < 128 \<and> c \<noteq> CHR 0x27"
  shows "arg_text ([CHR 0x27] @ s @ [CHR 0x27])"
proof -
  have "ReplaceAll s CHR 0x27 [CHR 0x27, CHR 0x27] = s" using assms by (intro ReplaceAll_id) auto
  then show ?thesis
    using arg_text_QuoteString [OF utf8_clean_all_ascii, of s] assms by (simp add: QuoteString_def)
qed

lemma EncodeToString_ascii: "c \<in> set (EncodeToString b) \<Longrightarrow> rune c < 128"
proof (induction b)
  case (Cons a b)
  have "rune a div 16 < 16" using rune_less_256 [of a] by simp
  with Cons show ?case by (auto simp: rune_hex_digit)
qed simp

lemma arg_text_QuoteBytes: "arg_text (QuoteBytes b)"
proof -
  have "\<forall>c \<in> set (EncodeToString b). rune c < 128 \<and> c \<noteq> CHR 0x27"
    using EncodeToString_ascii EncodeToString_no_quote [of b] by auto
  then show ?thesis
    using arg_text_unquoted [of "CHR 0x5C # CHR ''x'' # EncodeToString b"]
    by (simp add: QuoteBytes_def rune_def)
qed

definition time_char :: "char \<Rightarrow> bool" where
  "time_char c \<longleftrightarrow> is_digit c \<or> c \<in> set ''-+:. Z''"

lemma pad_chars: "c \<in> set (pad w n) \<Longrightarrow> is_digit c"
  using format_nat_digits [of n]
  by (auto simp: pad_def Let_def list_all_iff is_digit_def rune_def split: if_splits)

lemma pad_int_chars: "c \<in> set (pad_int w i) \<Longrightarrow> time_char c"
  by (auto simp: pad_int_def time_char_def dest: pad_chars split: if_splits)

lemma format_fraction_chars: "c \<in> set (format_fraction ns) \<Longrightarrow> time_char c"
  by (auto simp: format_fraction_def strip_zeros_def Let_def time_char_def
      dest!: pad_chars set_dropWhileD split: if_splits)

lemma format_zone_chars: "c \<in> set (format_zone z) \<Longrightarrow> time_char c"
  by (auto simp: format_zone_def Let_def dest!: pad_int_chars split: if_splits)
    (auto simp: time_char_def)

lemma arg_text_format_time: "arg_text (format_time t)"
proof -
  have tc: "rune c < 128 \<and> c \<noteq> CHR 0x27" if "time_char c" for c
    using that by (auto simp: time_char_def is_digit_def rune_def)
  define body where "body = pad_int 4 (t_year t) @ ''-'' @ pad 2 (t_month t) @ ''-'' @ pad 2 (t_day t)
     @ '' '' @ pad 2 (t_hour t) @ '':'' @ pad 2 (t_minute t) @ '':'' @ pad 2 (t_second t)
     @ format_fraction (t_nanosecond t) @ format_zone (t_offset t)"
  have digit: "time_char c" if "c \<in> set (pad w n)" for c w n
    using pad_chars [OF that] by (simp add: time_char_def)
  have "time_char c" if "c \<in> set body" for c
    using that unfolding body_def set_append Un_iff
    by (elim disjE) (auto intro: digit pad_int_chars format_fraction_chars format_zone_chars,
        auto simp: time_char_def)
  then have "arg_text ([CHR 0x27] @ body @ [CHR 0x27])" using tc by (intro arg_text_unquoted) blast
  then show ?thesis by (simp add: format_time_def body_def)
qed

lemma arg_text_sanitizeArg:
  assumes "sanitizeArg ff a = Some z" and "\<And>f. number_text (ff f)" and "\<And>s. a = GString s \<Longrightarrow> utf8_clean s"
  shows "arg_text z"
  using assms(1)
  by (cases "(ff, a)" rule: sanitizeArg.cases)
    (auto simp: arg_text_word FormatBool_def arg_text_QuoteBytes arg_text_format_time
      intro: arg_text_number number_text_FormatInt assms(2) arg_text_QuoteString assms(3))

text \<open>
  Placeholders apart from the surrounding text: none follows a byte that an argument can fuse
  with, and none is followed by a quote or by another placeholder at once.
\<close>

fun separated :: "Part list \<Rightarrow> bool" where
  "separated (PStr a # PInt p # ps) =
     ((a = [] \<or> last a \<notin> set [CHR ''e'', CHR ''E'', CHR 0x27, CHR ''-'', CHR ''$''])
      \<and> (case ps of [] \<Rightarrow> True | PStr b # _ \<Rightarrow> b \<noteq> [] \<and> hd b \<noteq> CHR 0x27 | PInt _ # _ \<Rightarrow> False)
      \<and> separated ps)"
| "separated [PStr a] = True"
| "separated [] = True"
| "separated _ = False"

lemma not_fuses_before: "arg_text z \<Longrightarrow> a = [] \<or> last a \<notin> set [CHR ''e'', CHR ''E'', CHR 0x27, CHR ''-'', CHR ''$'']
    \<Longrightarrow> \<not> fuses a z"
  by (auto simp: fuses_def fusing_def arg_text_def)

lemma not_fuses_after: "arg_text z \<Longrightarrow> b = [] \<or> hd b \<noteq> CHR 0x27 \<Longrightarrow> \<not> fuses z b"
  by (auto simp: fuses_def fusing_def arg_text_def)

fun goes_on :: "Part list \<Rightarrow> bool" where
  "goes_on [] = True"
| "goes_on (PStr b # _) = (b \<noteq> [] \<and> hd b \<noteq> CHR 0x27)"
| "goes_on (PInt _ # _) = False"

lemma separated_Cons:
  "separated (PStr a # PInt p # ps) \<longleftrightarrow>
     (a = [] \<or> last a \<notin> set [CHR ''e'', CHR ''E'', CHR 0x27, CHR ''-'', CHR ''$''])
     \<and> goes_on ps \<and> separated ps"
  by (cases ps rule: goes_on.cases) auto

fun filled :: "Part \<Rightarrow> string \<Rightarrow> bool" where
  "filled (PStr a) z = (z = a)"
| "filled (PInt _) z = arg_text z"

definition at_end :: "string \<Rightarrow> Part list \<Rightarrow> bool" where
  "at_end pre ps \<longleftrightarrow> pre = [] \<or> goes_on ps \<and> (\<forall>b. b \<noteq> [] \<longrightarrow> hd b \<noteq> CHR 0x27 \<longrightarrow> \<not> fuses pre b)"

lemma interpolate_closed:
  assumes "utf8_clean s" and "separated (lexSQL Raw [] s)" and "list_all2 filled (lexSQL Raw [] s) ss"
    and "closed_sql pre" and "at_end pre (lexSQL Raw [] s)"
  shows "(\<forall>i < length ss. closed_sql (pre @ concat (take i ss)))
    \<and> lexSQL Raw [] (pre @ concat ss) = emit (pre @ concat ss)"
  using assms
proof (induction s arbitrary: ss pre rule: length_induct)
  case (1 s)
  note IH = 1(1) and cs = 1(2) and sep = 1(3) and fill = 1(4) and cp = 1(5) and ae = 1(6)
  have "\<not> is_placeholder Raw" by simp
  with cs show ?case
  proof (cases rule: lexSQL_cases [where acc = "[]", case_names last hole])
    case last
    have lx: "lexSQL Raw [] (pre @ s) = emit (pre @ s)"
    proof -
      have "\<not> fuses pre s" using ae last by (cases "s = []") (auto simp: at_end_def fuses_def emit_def)
      from closed_sqlD [OF cp cs this, of "[]"] lexSQL_prepend [OF cs, of Raw pre "[]"] last
      show ?thesis by (cases "s = []") (auto simp: emit_def)
    qed
    have ss: "ss = (if s = [] then [] else [s])"
      using fill last by (auto simp: emit_def list_all2_Cons1)
    with lx cp show ?thesis by auto
  next
    case (hole a ds s')
    from fill hole(6) obtain z ss' where ss: "ss = a # z # ss'" "arg_text z"
      "list_all2 filled (lexSQL Raw [] s') ss'"
      by (auto simp: list_all2_Cons1)
    from sep hole(6) have sp: "a = [] \<or> last a \<notin> set [CHR ''e'', CHR ''E'', CHR 0x27, CHR ''-'', CHR ''$'']"
      "goes_on (lexSQL Raw [] s')" "separated (lexSQL Raw [] s')"
      by (simp_all add: separated_Cons del: separated.simps)
    have ca: "closed_sql a" using template_closed [of a ds s'] cs hole by simp
    have cz: "closed_sql z" "z \<noteq> []" using ss(2) by (simp_all add: arg_text_def)
    have fpa: "\<not> fuses pre a" "a \<noteq> [] \<or> pre = []"
      using ae hole(6) by (auto simp: at_end_def fuses_def)
    have cpa: "closed_sql (pre @ a)" using closed_sql_append [OF cp ca fpa] .
    have "\<not> fuses (pre @ a) z" using not_fuses_before [OF ss(2) sp(1)] fpa
      by (cases "a = []") (auto simp: fuses_append fuses_def)
    then have cpaz: "closed_sql (pre @ a @ z)" using closed_sql_append [OF cpa cz(1)] cz(2) by simp
    have "at_end (pre @ a @ z) (lexSQL Raw [] s')"
      using sp(2) not_fuses_after [OF ss(2)] cz(2) by (auto simp: at_end_def fuses_def)
    moreover have "length s' < length s" using hole(1) by simp
    ultimately have ih: "\<forall>i < length ss'. closed_sql ((pre @ a @ z) @ concat (take i ss'))"
      "lexSQL Raw [] ((pre @ a @ z) @ concat ss') = emit ((pre @ a @ z) @ concat ss')"
      using IH hole(5) sp(3) ss(3) cpaz by blast+
    have "closed_sql (pre @ concat (take i ss))" if "i < length ss" for i
    proof -
      consider "i = 0" | "i = 1" | j where "i = Suc (Suc j)" by (metis One_nat_def not0_implies_Suc)
      then show ?thesis using that cp cpa ih(1) ss(1) by cases auto
    qed
    with ih(2) ss(1) show ?thesis by simp
  qed
qed

lemma renderPart_filled:
  assumes "renderPart ff args p = Some z" and "\<And>f. number_text (ff f)"
    and "\<And>s. GString s \<in> set args \<Longrightarrow> utf8_clean s"
  shows "filled p z"
proof (cases p)
  case (PInt n)
  with assms(1) obtain i where i: "arg_index (length args) n = Some i" "sanitizeArg ff (args ! i) = Some z"
    by (auto split: Option.bind_splits)
  then have "args ! i \<in> set args" by (auto simp: arg_index_def Let_def split: if_splits)
  with i(2) assms PInt show ?thesis by (auto intro: arg_text_sanitizeArg)
qed (use assms in simp)

lemma NewQuery_template:
  assumes "plain a" and "ds \<noteq> []" and "list_all is_digit ds"
  shows "Parts (NewQuery (a @ CHR ''$'' # ds)) = [PStr a, PInt (of_nat (decimal_val 0 ds))]"
proof -
  have "utf8_clean (CHR ''$'' # ds @ [])"
    using utf8_clean_digits [OF assms(3), of "[]"] by (simp add: utf8_clean_ascii rune_def)
  moreover have "\<not> fuses a (CHR ''$'' # ds @ [])" by (simp add: fuses_def fusing_def is_digit_def rune_def)
  ultimately show ?thesis
    using closed_sqlD [OF closed_sql_plain [OF assms(1)], of "CHR ''$'' # ds @ []" "[]"]
      lexSQL_dollar [OF assms(2,3), of "[]" a]
    by (simp add: NewQuery_lexSQL next_digit_iff emit_def)
qed

lemma template_example: "Parts (NewQuery ''select $1'') = [PStr ''select '', PInt 1]"
  using NewQuery_template [of "''select ''" "''1''"]
  by (simp add: fuses_def fusing_def is_digit_def rune_def decimal_val_def digit_val_def)

subsection \<open>Properties\<close>



text \<open>
  C6. What \<open>Query.Sanitize\<close> returns: it succeeds with \<open>out\<close> exactly when every placeholder
  refers to an argument of a supported type and every argument is referred to, and then
  \<open>out\<close> is the parts in order, each placeholder replaced by the text of its argument.
\<close>

theorem Sanitize_succeeds_iff:
  "Query_Sanitize ff q args = Ret out \<longleftrightarrow>
     (\<exists>ss. list_all2 (\<lambda>p s. renderPart ff args p = Some s) (Parts q) ss \<and> out = concat ss)
     \<and> used_indices (length args) (Parts q) = {..<length args}"
  by (rule Query_Sanitize_Ret_iff)

text \<open>
  What it means that \<open>out\<close> is the template \<open>sql\<close> with the arguments put in: each placeholder is
  replaced by the text of its argument, the lexer is in its raw state at every boundary, and
  the whole has no placeholder left.
\<close>

definition interpolated :: "(gofloat \<Rightarrow> string) \<Rightarrow> string \<Rightarrow> goval list \<Rightarrow> string \<Rightarrow> bool" where
  "interpolated ff sql args out \<longleftrightarrow>
     (\<exists>ss. out = concat ss \<and> list_all2 (\<lambda>p s. renderPart ff args p = Some s) (Parts (NewQuery sql)) ss
       \<and> (\<forall>i < length ss. closed_sql (concat (take i ss))) \<and> Parts (NewQuery out) = emit out)"

lemma SanitizeSQL_interpolated:
  assumes "utf8_clean sql" and "separated (Parts (NewQuery sql))" and "\<And>f. number_text (ff f)"
    and "\<And>s. GString s \<in> set args \<Longrightarrow> utf8_clean s" and "SanitizeSQL ff sql args = Ret out"
  shows "interpolated ff sql args out"
proof -
  obtain ss where ss: "out = concat ss"
    "list_all2 (\<lambda>p s. renderPart ff args p = Some s) (Parts (NewQuery sql)) ss"
    using assms(5) unfolding SanitizeSQL_def Query_Sanitize_Ret_iff by blast
  have "list_all2 filled (lexSQL Raw [] sql) ss"
    using list_all2_mono [OF ss(2)] renderPart_filled [OF _ assms(3,4)] by (simp add: NewQuery_lexSQL)
  from interpolate_closed [OF assms(1) _ this, of "[]"] assms(2) ss show ?thesis
    by (auto simp: interpolated_def NewQuery_lexSQL at_end_def)
qed



text \<open>
  \<open>Sanitize\<close> does not panic on placeholders numbered from 1 on.
\<close>

lemma Sanitize_no_panic:
  assumes "\<forall>p. PInt p \<in> set (Parts q) \<longrightarrow> 1 \<le> sint p"
  shows "Query_Sanitize ff q args \<noteq> Panic"
  by (rule Query_Sanitize_no_panic [OF assms])

text \<open>
  C11. The placeholder \<open>$0\<close> makes \<open>SanitizeSQL\<close> panic, whatever the arguments: the index is
  compared with the number of arguments, but not with zero.
\<close>

theorem SanitizeSQL_dollar_zero: "SanitizeSQL ff ''$0'' args = Panic"
proof -
  have "lexSQL Raw [] (CHR ''$'' # ''0'' @ []) = [PStr [], PInt 0]"
    by (subst lexSQL_dollar) (simp_all add: is_digit_def rune_def next_digit_iff decimal_val_def
        digit_val_def emit_def)
  then show ?thesis by (simp add: SanitizeSQL_def Query_Sanitize_def NewQuery_lexSQL)
qed

text \<open>
  C12. Byte strings survive quoting: the text of a \<open>[]byte\<close> argument is a literal in the hex
  format of bytea, and decoding its digits gives the bytes back.
\<close>

theorem QuoteBytes_roundtrip:
  "\<exists>h. QuoteBytes b = [CHR 0x27, CHR 0x5C, CHR ''x''] @ h @ [CHR 0x27]
     \<and> CHR 0x27 \<notin> set h \<and> DecodeHex h = Some b"
  using EncodeToString_no_quote [of b] DecodeHex_EncodeToString [of b]
  by (auto simp: QuoteBytes_def)

end
