(* ===== verification/Pgtype.thy ===== *)
theory Pgtype
  imports Go_Prelude
begin

text \<open>
  What the driver uses of the packages \<open>pgtype\<close> and \<open>pgio\<close>, which are not part of the
  repository: a record of operations that every definition which calls them takes as its
  argument. A type implements an interface when the entry for its values is not \<open>None\<close>.
  The contracts at the end state the documented behaviour that the theorems rely on.
\<close>

type_synonym oid = "32 word"
type_synonym format = "16 word"
type_synonym encoder = "bytes \<Rightarrow> go_error + bytes option"
type_synonym scan_plan = "oid \<Rightarrow> format \<Rightarrow> bytes option \<Rightarrow> goval \<Rightarrow> go_error + goval"

definition TextFormatCode :: format where "TextFormatCode = 0"
definition BinaryFormatCode :: format where "BinaryFormatCode = 1"

record pgtype_env =
  EncodeText :: "goval \<Rightarrow> encoder option"
  EncodeBinary :: "goval \<Rightarrow> encoder option"
  DecodeText :: "goval \<Rightarrow> (bytes \<Rightarrow> go_error + goval) option"
  DecodeBinary :: "goval \<Rightarrow> (bytes \<Rightarrow> go_error + goval) option"
  GenericText :: goval
  GenericBinary :: goval
  Value_Get :: "goval \<Rightarrow> goval"
  Value_Set :: "goval \<Rightarrow> goval \<Rightarrow> go_error + goval"
  Valuer_Value :: "goval \<Rightarrow> (go_error + goval) option"
  Elem_implements_Valuer :: "string \<Rightarrow> bool"
  PreferredParamFormat :: "goval \<Rightarrow> format option"
  DataTypeForOID :: "oid \<Rightarrow> goval option"
  DataTypeForValue :: "goval \<Rightarrow> goval option"
  ParamFormatCodeForOID :: "oid \<Rightarrow> format"
  ResultFormatCodeForOID :: "oid \<Rightarrow> format"
  PlanScan :: "oid \<Rightarrow> format \<Rightarrow> goval \<Rightarrow> scan_plan"
  ConnInfo_Scan :: scan_plan
  AppendInt16 :: "bytes \<Rightarrow> 16 word \<Rightarrow> bytes"
  AppendInt32 :: "bytes \<Rightarrow> 32 word \<Rightarrow> bytes"
  SetInt32 :: "bytes \<Rightarrow> 32 word \<Rightarrow> bytes"

subsection \<open>Contracts\<close>

text \<open>Big-endian integers, as \<open>pgio\<close> documents them.\<close>

definition be :: "nat \<Rightarrow> nat \<Rightarrow> bytes" where
  "be k n = map (\<lambda>i. char_of (n div 256 ^ (k - 1 - i))) [0..<k]"

definition un_be :: "bytes \<Rightarrow> nat" where
  "un_be b = foldl (\<lambda>n c. n * 256 + of_char c) 0 b"

definition be32 :: "32 word \<Rightarrow> bytes" where "be32 w = be 4 (unat w)"
definition be16 :: "16 word \<Rightarrow> bytes" where "be16 w = be 2 (unat w)"

lemma length_be32 [simp]: "length (be32 w) = 4"
  by (simp add: be32_def be_def)

lemma length_be16 [simp]: "length (be16 w) = 2"
  by (simp add: be16_def be_def)

lemma digits_256:
  fixes n :: nat
  shows "n < 65536 \<Longrightarrow> (n div 256) mod 256 * 256 + n mod 256 = n"
    and "n < 4294967296 \<Longrightarrow> ((n div 16777216 mod 256 * 256 + n div 65536 mod 256) * 256
      + n div 256 mod 256) * 256 + n mod 256 = n"
proof -
  have dm: "k div 256 * 256 + k mod 256 = k" for k :: nat by (rule div_mult_mod_eq)
  have dd: "n div 65536 = n div 256 div 256" "n div 16777216 = n div 65536 div 256"
    by (simp_all add: div_mult2_eq [symmetric])
  show "n < 65536 \<Longrightarrow> (n div 256) mod 256 * 256 + n mod 256 = n"
    using dm [of n] by (simp add: less_mult_imp_div_less)
  assume "n < 4294967296"
  then have "n div 16777216 < 256" by (simp add: less_mult_imp_div_less)
  then have "n div 16777216 mod 256 = n div 16777216" by simp
  then show "((n div 16777216 mod 256 * 256 + n div 65536 mod 256) * 256
      + n div 256 mod 256) * 256 + n mod 256 = n"
    using dm [of "n div 65536"] dm [of "n div 256"] dm [of n] by (simp only: dd)
qed

lemma un_be16: "un_be (be16 w) = unat w"
  using digits_256(1) [of "unat w"] unsigned_less [of w, where ?'a = nat]
  by (simp add: un_be_def be16_def be_def upt_conv_Cons)

lemma un_be32: "un_be (be32 w) = unat w"
  using digits_256(2) [of "unat w"] unsigned_less [of w, where ?'a = nat]
  by (simp add: un_be_def be32_def be_def upt_conv_Cons)

definition pgio_ok :: "pgtype_env \<Rightarrow> bool" where
  "pgio_ok env \<longleftrightarrow>
     (\<forall>buf n. AppendInt16 env buf n = buf @ be16 n) \<and>
     (\<forall>buf n. AppendInt32 env buf n = buf @ be32 n) \<and>
     (\<forall>buf n. 4 \<le> length buf \<longrightarrow> SetInt32 env buf n = be32 n @ drop 4 buf)"

text \<open>Encoders append to the buffer they are given, or return nil for the NULL value.\<close>

definition appends :: "encoder \<Rightarrow> bool" where
  "appends enc \<longleftrightarrow> (\<forall>buf out. enc buf = Inr (Some out) \<longrightarrow> (\<exists>x. out = buf @ x))"

definition encoders_ok :: "pgtype_env \<Rightarrow> bool" where
  "encoders_ok env \<longleftrightarrow>
     (\<forall>v enc. EncodeText env v = Some enc \<longrightarrow> appends enc) \<and>
     (\<forall>v enc. EncodeBinary env v = Some enc \<longrightarrow> appends enc)"

text \<open>
  The values a \<open>driver.Valuer\<close> may return: \<open>nil\<close>, \<open>int64\<close>, \<open>float64\<close>, \<open>bool\<close>, \<open>[]byte\<close>,
  \<open>string\<close> and \<open>time.Time\<close>.
\<close>

fun is_driver_value :: "goval \<Rightarrow> bool" where
  "is_driver_value GNil = True"
| "is_driver_value (GInt64 _) = True"
| "is_driver_value (GFloat64 _) = True"
| "is_driver_value (GBool _) = True"
| "is_driver_value (GBytes _) = True"
| "is_driver_value (GString _) = True"
| "is_driver_value (GTime _) = True"
| "is_driver_value _ = False"

definition valuers_ok :: "pgtype_env \<Rightarrow> bool" where
  "valuers_ok env \<longleftrightarrow> (\<forall>a v. Valuer_Value env a = Some (Inr v) \<longrightarrow> is_driver_value v)"

text \<open>
  Predeclared types and \<open>[]byte\<close> have no methods, and \<open>time.Time\<close> has none of the methods
  above.
\<close>

fun is_predeclared :: "goval \<Rightarrow> bool" where
  "is_predeclared (GDuration _) = False"
| "is_predeclared (GNamed _ _) = False"
| "is_predeclared (GPtr _ _) = False"
| "is_predeclared (GObj _ _) = False"
| "is_predeclared (GQuerySimpleProtocol _) = False"
| "is_predeclared (GQueryResultFormats _) = False"
| "is_predeclared (GQueryResultFormatsByOID _) = False"
| "is_predeclared _ = True"

definition methods_ok :: "pgtype_env \<Rightarrow> bool" where
  "methods_ok env \<longleftrightarrow> (\<forall>a. is_predeclared a \<longrightarrow>
     EncodeText env a = None \<and> EncodeBinary env a = None \<and> Valuer_Value env a = None
     \<and> PreferredParamFormat env a = None)"

text \<open>An environment without registered types, in which the contracts hold.\<close>

definition bare_env :: pgtype_env where
  "bare_env = \<lparr>EncodeText = \<lambda>_. None, EncodeBinary = \<lambda>_. None, DecodeText = \<lambda>_. None,
     DecodeBinary = \<lambda>_. None, GenericText = GObj ''pgtype.GenericText'' 0,
     GenericBinary = GObj ''pgtype.GenericBinary'' 0, Value_Get = \<lambda>v. v,
     Value_Set = \<lambda>_ a. Inr a, Valuer_Value = \<lambda>_. None, Elem_implements_Valuer = \<lambda>_. False,
     PreferredParamFormat = \<lambda>_. None, DataTypeForOID = \<lambda>_. None, DataTypeForValue = \<lambda>_. None,
     ParamFormatCodeForOID = \<lambda>_. 0, ResultFormatCodeForOID = \<lambda>_. 0,
     PlanScan = \<lambda>_ _ _ _ _ _ d. Inr d, ConnInfo_Scan = \<lambda>_ _ _ d. Inr d,
     AppendInt16 = \<lambda>buf n. buf @ be16 n, AppendInt32 = \<lambda>buf n. buf @ be32 n,
     SetInt32 = \<lambda>buf n. be32 n @ drop 4 buf\<rparr>"

lemma bare_env_ok:
  "pgio_ok bare_env" "encoders_ok bare_env" "valuers_ok bare_env" "methods_ok bare_env"
  by (simp_all add: bare_env_def pgio_ok_def encoders_ok_def valuers_ok_def methods_ok_def)

end
