(* ===== verification/Values.thy ===== *)
theory Values
  imports Interpolate Pgtype
begin

text \<open>
  \<open>src/values.go\<close>, \<open>src/go_stdlib.go\<close> and \<open>src/messages.go\<close>: the conversion of arguments for the
  simple protocol, their encoding for the COPY protocol, the choice of a format code, and
  the calls of \<open>driver.Valuer\<close>. A result \<open>None\<close> is a call that does not return: a failed
  type assertion, or a recursion that never ends.
\<close>

subsection \<open>Valuers and named types\<close>

definition is_nil_ptr :: "goval \<Rightarrow> bool" where
  "is_nil_ptr v = (case v of GPtr _ None \<Rightarrow> True | _ \<Rightarrow> False)"

text \<open>\<open>None\<close> when \<open>vr\<close> is not a \<open>driver.Valuer\<close>.\<close>

definition callValuerValue :: "pgtype_env \<Rightarrow> goval \<Rightarrow> (go_error + goval) option" where
  "callValuerValue env vr =
     (case Valuer_Value env vr of
        None \<Rightarrow> None
      | Some r \<Rightarrow> Some (case vr of
            GPtr n None \<Rightarrow> if Elem_implements_Valuer env n then Inr GNil else r
          | _ \<Rightarrow> r))"

text \<open>
  The conversion works in place, so the second component, the slice it leaves, also matters
  when it fails: the arguments before the failing one have been replaced.
\<close>

fun convertDriverValuers :: "pgtype_env \<Rightarrow> goval list \<Rightarrow> go_error option \<times> goval list" where
  "convertDriverValuers env [] = (None, [])"
| "convertDriverValuers env (arg # args) =
     (let rest = (\<lambda>v. map_prod id ((#) v) (convertDriverValuers env args)) in
      if EncodeBinary env arg \<noteq> None then rest arg
      else if EncodeText env arg \<noteq> None then rest arg
      else case callValuerValue env arg of
             None \<Rightarrow> rest arg
           | Some (Inl err) \<Rightarrow> (Some err, arg # args)
           | Some (Inr v) \<Rightarrow> rest v)"

lemma length_convertDriverValuers [simp]: "length (snd (convertDriverValuers env args)) = length args"
  by (induction args) (auto simp: Let_def split: option.split sum.split)

fun basic_kind :: "goval \<Rightarrow> bool" where
  "basic_kind (GInt _) = True"
| "basic_kind (GInt8 _) = True"
| "basic_kind (GInt16 _) = True"
| "basic_kind (GInt32 _) = True"
| "basic_kind (GInt64 _) = True"
| "basic_kind (GUint _) = True"
| "basic_kind (GUint8 _) = True"
| "basic_kind (GUint16 _) = True"
| "basic_kind (GUint32 _) = True"
| "basic_kind (GUint64 _) = True"
| "basic_kind (GString _) = True"
| "basic_kind _ = False"

text \<open>The value converted to its underlying type, and whether its own type differs from it.\<close>

fun stripNamedType :: "goval \<Rightarrow> goval \<times> bool" where
  "stripNamedType (GNamed n v) = (if basic_kind v then (v, True) else (GNil, False))"
| "stripNamedType (GDuration w) = (GInt64 w, True)"
| "stripNamedType v = (if basic_kind v then (v, False) else (GNil, False))"

subsection \<open>The simple protocol\<close>

definition encodedText :: "encoder \<Rightarrow> go_error + goval" where
  "encodedText enc = (case enc [] of
       Inl err \<Rightarrow> Inl err
     | Inr None \<Rightarrow> Inr GNil
     | Inr (Some buf) \<Rightarrow> Inr (GString buf))"

definition is_json :: "goval \<Rightarrow> bool" where
  "is_json v = (case v of GPtr n _ \<Rightarrow> n = ''pgtype.JSON'' \<or> n = ''pgtype.JSONB'' | _ \<Rightarrow> False)"

text \<open>The cases of the type switch for the types of the language and of \<open>time\<close>.\<close>

fun nativeSimple :: "goval \<Rightarrow> (go_error + goval) option" where
  "nativeSimple (GFloat32 f) = Some (Inr (GFloat64 f))"
| "nativeSimple (GFloat64 f) = Some (Inr (GFloat64 f))"
| "nativeSimple (GBool b) = Some (Inr (GBool b))"
| "nativeSimple (GDuration w) =
     Some (Inr (GString (FormatInt (trunc_div (sint w) 1000) @ '' microsecond'')))"
| "nativeSimple (GTime t) = Some (Inr (GTime t))"
| "nativeSimple (GString s) = Some (Inr (GString s))"
| "nativeSimple (GBytes b) = Some (Inr (GBytes b))"
| "nativeSimple (GInt8 w) = Some (Inr (GInt64 (scast w)))"
| "nativeSimple (GInt16 w) = Some (Inr (GInt64 (scast w)))"
| "nativeSimple (GInt32 w) = Some (Inr (GInt64 (scast w)))"
| "nativeSimple (GInt64 w) = Some (Inr (GInt64 w))"
| "nativeSimple (GInt w) = Some (Inr (GInt64 w))"
| "nativeSimple (GUint8 w) = Some (Inr (GInt64 (ucast w)))"
| "nativeSimple (GUint16 w) = Some (Inr (GInt64 (ucast w)))"
| "nativeSimple (GUint32 w) = Some (Inr (GInt64 (ucast w)))"
| "nativeSimple (GUint64 w) =
     (if 2 ^ 63 - 1 < uint w then Some (Inl (Errorf (''arg too big for int64: '' @ FormatInt (uint w))))
      else Some (Inr (GInt64 w)))"
| "nativeSimple (GUint w) =
     (if 2 ^ 63 - 1 < uint w then Some (Inl (Errorf (''arg too big for int64: '' @ FormatInt (uint w))))
      else Some (Inr (GInt64 w)))"
| "nativeSimple _ = None"

definition simpleError :: "goval \<Rightarrow> go_error" where
  "simpleError arg = SerializationError (''Cannot encode '' @ type_name arg
     @ '' in simple protocol - '' @ type_name arg
     @ '' must implement driver.Valuer, pgtype.TextEncoder, or be a native type'')"

text \<open>
  One call of a function that recurs on the value of an interface: it returns (or panics, for \<open>None\<close>), or it calls itself on another
  value, with the same other arguments.
\<close>

datatype 'a progress = Done "'a option" | Again goval

definition convertSimpleStep :: "pgtype_env \<Rightarrow> goval \<Rightarrow> (go_error + goval) progress" where
  "convertSimpleStep env arg =
     (if arg = GNil then Done (Some (Inr GNil))
      else if is_nil_ptr arg then Done (Some (Inr GNil))
      else if is_json arg then Done (map_option encodedText (EncodeText env arg))
      else case callValuerValue env arg of
        Some r \<Rightarrow> Done (Some r)
      | None \<Rightarrow> (case EncodeText env arg of
        Some enc \<Rightarrow> Done (Some (encodedText enc))
      | None \<Rightarrow> (case nativeSimple arg of
        Some r \<Rightarrow> Done (Some r)
      | None \<Rightarrow> (case DataTypeForValue env arg of
        Some dt \<Rightarrow> (case Value_Set env dt arg of
            Inl err \<Rightarrow> Done (Some (Inl err))
          | Inr v \<Rightarrow> Done (map_option encodedText (EncodeText env v)))
      | None \<Rightarrow> (case arg of
        GPtr _ (Some v) \<Rightarrow> Again v
      | _ \<Rightarrow> (case stripNamedType arg of
          (strippedArg, ok) \<Rightarrow> if ok then Again strippedArg
            else Done (Some (Inl (simpleError arg)))))))))"

lemma convertSimpleStep_smaller: "convertSimpleStep env arg = Again v \<Longrightarrow> size v < size arg"
  by (cases arg) (auto simp: convertSimpleStep_def split: option.splits sum.splits if_splits)

function convertSimpleArgument :: "pgtype_env \<Rightarrow> goval \<Rightarrow> (go_error + goval) option" where
  "convertSimpleArgument env arg =
     (case convertSimpleStep env arg of Done r \<Rightarrow> r | Again v \<Rightarrow> convertSimpleArgument env v)"
  by pat_completeness auto
termination
  by (relation "measure (\<lambda>(env, arg). size arg)") (auto dest: convertSimpleStep_smaller)

declare convertSimpleArgument.simps [simp del]

fun convertSimpleArguments :: "pgtype_env \<Rightarrow> goval list \<Rightarrow> (go_error + goval list) option" where
  "convertSimpleArguments env [] = Some (Inr [])"
| "convertSimpleArguments env (a # args) =
     (case convertSimpleArgument env a of
        None \<Rightarrow> None
      | Some (Inl err) \<Rightarrow> Some (Inl err)
      | Some (Inr v) \<Rightarrow> (case convertSimpleArguments env args of
          Some (Inr vs) \<Rightarrow> Some (Inr (v # vs))
        | r \<Rightarrow> r))"

subsection \<open>The binary copy format\<close>

definition appendEncoded :: "pgtype_env \<Rightarrow> encoder \<Rightarrow> bytes \<Rightarrow> go_error + bytes" where
  "appendEncoded env enc buf0 =
     (let sp = length buf0; buf = AppendInt32 env buf0 (- 1) in
      case enc buf of
        Inl err \<Rightarrow> Inl err
      | Inr None \<Rightarrow> Inr buf
      | Inr (Some argBuf) \<Rightarrow>
          Inr (take sp argBuf @ SetInt32 env (drop sp argBuf) (of_nat (length (drop sp argBuf)) - 4)))"

definition oidError :: "goval \<Rightarrow> oid \<Rightarrow> go_error" where
  "oidError arg oid = SerializationError (''Cannot encode '' @ type_name arg @ '' into oid ''
     @ FormatInt (uint oid) @ '' - '' @ type_name arg
     @ '' must implement Encoder or be converted to a string'')"

definition encodePreparedStep ::
  "pgtype_env \<Rightarrow> bytes \<Rightarrow> oid \<Rightarrow> goval \<Rightarrow> (go_error + bytes) progress" where
  "encodePreparedStep env buf oid arg =
     (if arg = GNil then Done (Some (Inr (AppendInt32 env buf (- 1))))
      else case EncodeBinary env arg of
        Some enc \<Rightarrow> Done (Some (appendEncoded env enc buf))
      | None \<Rightarrow> (case EncodeText env arg of
        Some enc \<Rightarrow> Done (Some (appendEncoded env enc buf))
      | None \<Rightarrow> (case arg of
        GString s \<Rightarrow> Done (Some (Inr (AppendInt32 env buf (of_nat (length s)) @ s)))
      | GPtr _ None \<Rightarrow> Done (Some (Inr (AppendInt32 env buf (- 1))))
      | GPtr _ (Some v) \<Rightarrow> Again v
      | _ \<Rightarrow> (case DataTypeForOID env oid of
        Some dt \<Rightarrow> (case Value_Set env dt arg of
            Inl err \<Rightarrow> (case callValuerValue env arg of
                None \<Rightarrow> Done (Some (Inl err))
              | Some (Inl err') \<Rightarrow> Done (Some (Inl err'))
              | Some (Inr v) \<Rightarrow> Again v)
          | Inr value \<Rightarrow> (case EncodeBinary env value of
                None \<Rightarrow> Done None
              | Some enc \<Rightarrow> Done (Some (appendEncoded env enc buf))))
      | None \<Rightarrow> (case stripNamedType arg of
          (strippedArg, ok) \<Rightarrow> if ok then Again strippedArg
            else Done (Some (Inl (oidError arg oid))))))))"

partial_function (option) encodePreparedStatementArgument ::
  "pgtype_env \<Rightarrow> bytes \<Rightarrow> oid \<Rightarrow> goval \<Rightarrow> (go_error + bytes) option" where
  "encodePreparedStatementArgument env buf oid arg =
     (case encodePreparedStep env buf oid arg of
        Done r \<Rightarrow> r
      | Again v \<Rightarrow> encodePreparedStatementArgument env buf oid v)"

subsection \<open>Format codes\<close>

definition chooseParameterFormatCode :: "pgtype_env \<Rightarrow> oid \<Rightarrow> goval \<Rightarrow> format" where
  "chooseParameterFormatCode env oid arg =
     (case PreferredParamFormat env arg of
        Some f \<Rightarrow> f
      | None \<Rightarrow>
          if EncodeBinary env arg \<noteq> None then BinaryFormatCode
          else if (\<exists>s. arg = GString s) \<or> (\<exists>p. arg = GPtr ''string'' p) \<or> EncodeText env arg \<noteq> None
          then TextFormatCode
          else ParamFormatCodeForOID env oid)"

subsection \<open>Types of converted arguments\<close>

lemma is_driver_value_encodedText: "encodedText enc = Inr v \<Longrightarrow> is_driver_value v"
  by (auto simp: encodedText_def split: sum.splits option.splits)

lemma is_driver_value_native: "nativeSimple arg = Some (Inr v) \<Longrightarrow> is_driver_value v"
  by (cases arg rule: nativeSimple.cases) (auto split: if_splits)

lemma callValuerValue_driver_value:
  "valuers_ok env \<Longrightarrow> callValuerValue env vr = Some (Inr v) \<Longrightarrow> is_driver_value v"
  by (auto simp: valuers_ok_def callValuerValue_def split: option.splits goval.splits if_splits)

lemma convertSimpleStep_driver_value:
  "valuers_ok env \<Longrightarrow> convertSimpleStep env arg = Done (Some (Inr v)) \<Longrightarrow> is_driver_value v"
  by (auto simp: convertSimpleStep_def dest: callValuerValue_driver_value is_driver_value_native
      is_driver_value_encodedText split: option.splits sum.splits goval.splits if_splits prod.splits)

lemma convertSimpleArgument_driver_value:
  "valuers_ok env \<Longrightarrow> convertSimpleArgument env arg = Some (Inr v) \<Longrightarrow> is_driver_value v"
proof (induction env arg rule: convertSimpleArgument.induct)
  case (1 env arg)
  then show ?case
    using convertSimpleArgument.simps [of env arg] convertSimpleStep_driver_value
    by (auto split: progress.splits)
qed

lemma sanitizeArg_driver_value: "is_driver_value v \<longleftrightarrow> sanitizeArg ff v \<noteq> None"
  by (cases v) auto

lemma convertSimpleArguments_all:
  "convertSimpleArguments env args = Some (Inr vs) \<Longrightarrow>
     list_all2 (\<lambda>a v. convertSimpleArgument env a = Some (Inr v)) args vs"
  by (induction args arbitrary: vs) (auto simp: list_all2_Cons1 split: option.splits sum.splits)

subsection \<open>Integers\<close>

text \<open>The mathematical value of an argument of an integer type.\<close>

fun go_int :: "goval \<Rightarrow> int option" where
  "go_int (GInt w) = Some (sint w)"
| "go_int (GInt8 w) = Some (sint w)"
| "go_int (GInt16 w) = Some (sint w)"
| "go_int (GInt32 w) = Some (sint w)"
| "go_int (GInt64 w) = Some (sint w)"
| "go_int (GUint w) = Some (uint w)"
| "go_int (GUint8 w) = Some (uint w)"
| "go_int (GUint16 w) = Some (uint w)"
| "go_int (GUint32 w) = Some (uint w)"
| "go_int (GUint64 w) = Some (uint w)"
| "go_int _ = None"

lemma sint_small:
  fixes w :: "'a::len word"
  assumes "LENGTH('a) \<le> 64"
  shows "sint w < 2 ^ 63" and "- (2 ^ 63) \<le> sint w"
proof -
  have p: "(2 :: int) ^ (LENGTH('a) - 1) \<le> 2 ^ 63" using assms by (intro power_increasing) auto
  show "sint w < 2 ^ 63" using sint_lt [of w] p by (rule less_le_trans)
  have "- (2 ^ 63) \<le> - (2 ^ (LENGTH('a) - 1) :: int)" using p by simp
  then show "- (2 ^ 63) \<le> sint w" using sint_ge [of w] by (rule order_trans)
qed

lemma uint_small:
  fixes w :: "'a::len word"
  assumes "LENGTH('a) < 64"
  shows "uint w < 2 ^ 63"
proof -
  have "(2 :: int) ^ LENGTH('a) \<le> 2 ^ 63" using assms by (intro power_increasing) auto
  with uint_lt2p [of w] show ?thesis by (rule less_le_trans)
qed

lemma uint_bound: "- (2 ^ 63) \<le> uint w"
  by (rule order_trans [OF _ uint_ge_0]) simp

lemma nativeSimple_int:
  assumes "go_int arg = Some i"
  shows "nativeSimple arg = Some (if i < 2 ^ 63 then Inr (GInt64 (word_of_int i))
    else Inl (Errorf (''arg too big for int64: '' @ FormatInt i)))"
    and "- (2 ^ 63) \<le> i"
proof -
  show "nativeSimple arg = Some (if i < 2 ^ 63 then Inr (GInt64 (word_of_int i))
    else Inl (Errorf (''arg too big for int64: '' @ FormatInt i)))"
    using assms by (cases arg) (auto simp: sint_small [simplified] uint_small [simplified])
  show "- (2 ^ 63) \<le> i"
    using assms by (cases arg) (auto simp: sint_small [simplified] uint_bound [simplified])
qed

lemma convertSimpleArgument_int:
  assumes "methods_ok env" and "go_int arg = Some i"
  shows "convertSimpleArgument env arg = Some (if i < 2 ^ 63 then Inr (GInt64 (word_of_int i))
    else Inl (Errorf (''arg too big for int64: '' @ FormatInt i)))"
proof -
  have "is_predeclared arg" "arg \<noteq> GNil" "\<not> is_nil_ptr arg" "\<not> is_json arg"
    using assms(2) by (cases arg; simp add: is_nil_ptr_def is_json_def)+
  with assms(1) have "convertSimpleStep env arg = Done (nativeSimple arg)"
    using nativeSimple_int [OF assms(2)]
    by (simp add: convertSimpleStep_def methods_ok_def callValuerValue_def)
  then show ?thesis using nativeSimple_int [OF assms(2)] by (simp add: convertSimpleArgument.simps)
qed

lemma sint_word_of_int_64:
  "- (2 ^ 63) \<le> i \<Longrightarrow> i < 2 ^ 63 \<Longrightarrow> sint (word_of_int i :: 64 word) = i"
  by (simp add: sint_sbintrunc' signed_take_bit_int_eq_self)

subsection \<open>Framing\<close>

text \<open>A value in the copy format: its length and its bytes, or the length -1 for NULL.\<close>

definition framed :: "bytes option \<Rightarrow> bytes" where
  "framed x = (case x of None \<Rightarrow> be32 (- 1) | Some b \<Rightarrow> be32 (of_nat (length b)) @ b)"

lemma framed_simps: "framed None = be32 (- 1)" "framed (Some b) = be32 (of_nat (length b)) @ b"
  by (simp_all add: framed_def)

lemma appendEncoded_framed:
  assumes "pgio_ok env" and "appends enc" and "appendEncoded env enc buf = Inr out"
  shows "\<exists>x. out = buf @ framed x"
proof (cases "enc (buf @ be32 (- 1))")
  case (Inr r)
  show ?thesis
  proof (cases r)
    case None
    with Inr assms have "out = buf @ framed None"
      by (simp add: appendEncoded_def pgio_ok_def Let_def framed_simps)
    then show ?thesis ..
  next
    case (Some argBuf)
    with Inr assms(2) obtain x where x: "argBuf = (buf @ be32 (- 1)) @ x" unfolding appends_def by blast
    with Some Inr assms have "out = buf @ framed (Some x)"
      by (auto simp: appendEncoded_def pgio_ok_def Let_def framed_simps)
    then show ?thesis ..
  qed
qed (use assms in \<open>simp add: appendEncoded_def pgio_ok_def Let_def\<close>)

lemma encodePreparedStep_framed:
  assumes "pgio_ok env" and "encoders_ok env" and "encodePreparedStep env buf oid arg = Done (Some (Inr out))"
  shows "\<exists>x. out = buf @ framed x"
proof -
  have app: "AppendInt32 env buf n = buf @ be32 n" for n using assms(1) by (simp add: pgio_ok_def)
  have enc: "\<exists>x. out = buf @ framed x"
    if "appendEncoded env enc buf = Inr out" "EncodeBinary env v = Some enc \<or> EncodeText env v = Some enc"
    for enc v
    using that assms(1,2) appendEncoded_framed unfolding encoders_ok_def by blast
  have "\<exists>x. buf @ be32 (- 1) = buf @ framed x" "\<exists>x. (buf @ be32 (of_nat (length s))) @ s = buf @ framed x" for s
    using framed_simps(1) framed_simps(2) [of s] by (metis append.assoc)+
  then show ?thesis
    using assms(3) enc unfolding encodePreparedStep_def app
    by (auto split: if_splits option.splits sum.splits goval.splits prod.splits)
qed

lemma encodePreparedStatementArgument_framed:
  assumes "encodePreparedStatementArgument env buf oid arg = Some r"
  shows "pgio_ok env \<longrightarrow> encoders_ok env \<longrightarrow> r = Inr out \<longrightarrow> (\<exists>x. out = buf @ framed x)"
  using assms
  by (rule encodePreparedStatementArgument.raw_induct [rotated])
    (auto split: progress.splits dest: encodePreparedStep_framed)

subsection \<open>Termination\<close>

text \<open>
  The registered types implement \<open>BinaryEncoder\<close>, which the copy format requires.
\<close>

definition binary_registered :: "pgtype_env \<Rightarrow> bool" where
  "binary_registered env \<longleftrightarrow>
     (\<forall>oid dt a v. DataTypeForOID env oid = Some dt \<longrightarrow> Value_Set env dt a = Inr v \<longrightarrow> EncodeBinary env v \<noteq> None)"

lemma encodePreparedStep_Done:
  assumes "binary_registered env"
  shows "encodePreparedStep env buf oid arg \<noteq> Done None"
proof -
  have reg: False
    if "DataTypeForOID env oid = Some dt" "Value_Set env dt a = Inr v" "EncodeBinary env v = None" for dt a v
    using assms that unfolding binary_registered_def by blast
  show ?thesis
    by (auto simp: encodePreparedStep_def dest: reg
        split: if_splits option.splits sum.splits goval.splits prod.splits)
qed

lemma encodePrepared_plain:
  assumes "methods_ok env" and "binary_registered env" and "is_predeclared arg"
  shows "\<exists>r. encodePreparedStatementArgument env buf oid arg = Some r"
proof -
  have strip: "snd (stripNamedType arg) = False" and ptr: "arg \<noteq> GPtr n p" for n p
    using assms(3) by (cases arg; auto)+
  have "encodePreparedStep env buf oid arg \<noteq> Again v" for v
    using assms(1,3) strip ptr
    by (auto simp: encodePreparedStep_def methods_ok_def callValuerValue_def
        split: if_splits option.splits sum.splits goval.splits prod.splits)
  then obtain r where "encodePreparedStep env buf oid arg = Done r"
    by (cases "encodePreparedStep env buf oid arg") auto
  with encodePreparedStep_Done [OF assms(2)] show ?thesis
    by (cases r) (auto simp: encodePreparedStatementArgument.simps)
qed

lemma is_driver_value_predeclared: "is_driver_value v \<Longrightarrow> is_predeclared v"
  by (cases v) auto

lemma basic_kind_predeclared: "basic_kind v \<Longrightarrow> is_predeclared v"
  by (cases v) auto

lemma encodePreparedStep_Again:
  assumes "encodePreparedStep env buf oid arg = Again v" and "valuers_ok env"
  shows "is_predeclared v \<or> (\<exists>n. arg = GPtr n (Some v))"
proof -
  have strip: "basic_kind v" if "stripNamedType arg = (v, True)"
    using that by (cases arg) (auto split: if_splits)
  have "(\<exists>n. arg = GPtr n (Some v)) \<or> callValuerValue env arg = Some (Inr v) \<or> stripNamedType arg = (v, True)"
    using assms(1) unfolding encodePreparedStep_def
    by (simp split: if_splits option.splits sum.splits goval.splits prod.splits)
  with strip show ?thesis
    using callValuerValue_driver_value [OF assms(2), of arg v] is_driver_value_predeclared basic_kind_predeclared
    by blast
qed

lemma encodePrepared_total:
  assumes "methods_ok env" and "valuers_ok env" and "binary_registered env"
  shows "\<exists>r. encodePreparedStatementArgument env buf oid arg = Some r"
proof (induction arg rule: measure_induct_rule [of size])
  case (less arg)
  show ?case
  proof (cases "encodePreparedStep env buf oid arg")
    case (Done r)
    with encodePreparedStep_Done [OF assms(3)] show ?thesis
      by (cases r) (auto simp: encodePreparedStatementArgument.simps)
  next
    case (Again v)
    from encodePreparedStep_Again [OF this assms(2)] less encodePrepared_plain [OF assms(1,3)]
    have "\<exists>r. encodePreparedStatementArgument env buf oid v = Some r" by auto
    with Again show ?thesis by (simp add: encodePreparedStatementArgument.simps)
  qed
qed

subsection \<open>Properties\<close>

text \<open>
  C9. Type safety of the simple protocol: whatever the arguments, if their conversion succeeds
  then \<open>Sanitize\<close> supports the type of every converted value, so its error "invalid arg type"
  cannot occur. Assumed of \<open>driver.Valuer\<close>: it returns a \<open>driver.Value\<close>.
\<close>

theorem convertSimpleArguments_sanitizable:
  assumes "valuers_ok env" and "convertSimpleArguments env args = Some (Inr vs)"
  shows "length vs = length args \<and> (\<forall>v \<in> set vs. sanitizeArg ff v \<noteq> None)"
proof -
  have "list_all2 (\<lambda>a v. convertSimpleArgument env a = Some (Inr v)) args vs"
    by (rule convertSimpleArguments_all [OF assms(2)])
  then have "length args = length vs" "\<forall>i < length vs. convertSimpleArgument env (args ! i) = Some (Inr (vs ! i))"
    by (simp_all add: list_all2_conv_all_nth)
  then show ?thesis
    using convertSimpleArgument_driver_value [OF assms(1)] sanitizeArg_driver_value
    by (metis in_set_conv_nth)
qed

theorem convertSimpleArguments_sanitizable_witness:
  "sanitizeArg (\<lambda>_. ''0'') (GInt64 5) \<noteq> None \<and> sanitizeArg (\<lambda>_. ''0'') (GString ''a'') \<noteq> None"
proof -
  have "convertSimpleArguments bare_env [GNamed ''main.ID'' (GInt8 5), GPtr ''string'' (Some (GString ''a''))]
      = Some (Inr [GInt64 5, GString ''a''])"
    by (simp add: convertSimpleArgument.simps convertSimpleStep_def bare_env_def
        is_nil_ptr_def is_json_def callValuerValue_def)
  from convertSimpleArguments_sanitizable [OF bare_env_ok(3) this, of "\<lambda>_. ''0''"] show ?thesis by simp
qed

text \<open>
  C10. Integers of every Go type reach the server unchanged: an argument of an integer type with
  the value \<open>i\<close> is rejected exactly when \<open>i\<close> does not fit \<open>int64\<close>, and otherwise the text that
  \<open>Sanitize\<close> writes for it parses back to \<open>i\<close>.
\<close>

theorem integer_argument_text:
  assumes "methods_ok env" and "go_int arg = Some i"
  shows "if i < 2 ^ 63
    then \<exists>v t. convertSimpleArgument env arg = Some (Inr v) \<and> sanitizeArg ff v = Some t \<and> ParseInt t 64 = Inr i
    else convertSimpleArgument env arg = Some (Inl (Errorf (''arg too big for int64: '' @ FormatInt i)))"
  using convertSimpleArgument_int [OF assms] nativeSimple_int(2) [OF assms(2)]
    ParseInt_FormatInt [of 64 i] sint_word_of_int_64 [of i]
  by auto

theorem integer_argument_text_witness:
  "(\<exists>v t. convertSimpleArgument bare_env (GInt8 (- 7)) = Some (Inr v)
      \<and> sanitizeArg (\<lambda>_. ''0'') v = Some t \<and> ParseInt t 64 = Inr (- 7))
   \<and> convertSimpleArgument bare_env (GUint64 18446744073709551615)
     = Some (Inl (Errorf (''arg too big for int64: '' @ FormatInt (2 ^ 64 - 1))))"
  using integer_argument_text [OF bare_env_ok(4), of "GInt8 (- 7)" "- 7" "\<lambda>_. ''0''"]
    integer_argument_text [OF bare_env_ok(4), of "GUint64 18446744073709551615" "2 ^ 64 - 1" "\<lambda>_. ''0''"]
  by simp

end
