(* ===== verification/Ext_Query_Builder.thy ===== *)
theory Ext_Query_Builder
  imports Values
begin

text \<open>
  \<open>src/extended_query_builder.go\<close>: the buffers in which the parameters of a query for the
  extended protocol are built. The capacities that \<open>Reset\<close> bounds are not visible in the values.
\<close>

record extendedQueryBuilder =
  paramValues :: "bytes option list"
  paramValueBytes :: "bytes option"
  paramFormats :: "format list"
  resultFormats :: "format list"

definition new_eqb :: extendedQueryBuilder where
  "new_eqb = \<lparr>paramValues = [], paramValueBytes = None, paramFormats = [], resultFormats = []\<rparr>"

definition eqb_AppendResultFormat :: "format \<Rightarrow> extendedQueryBuilder \<Rightarrow> extendedQueryBuilder" where
  "eqb_AppendResultFormat f eqb = eqb\<lparr>resultFormats := resultFormats eqb @ [f]\<rparr>"

definition eqb_Reset :: "extendedQueryBuilder \<Rightarrow> extendedQueryBuilder" where
  "eqb_Reset eqb = eqb\<lparr>paramValues := [], paramValueBytes := map_option (\<lambda>_. []) (paramValueBytes eqb),
     paramFormats := [], resultFormats := []\<rparr>"

subsection \<open>Encoding of one parameter\<close>

definition ensureBytes :: "extendedQueryBuilder \<Rightarrow> extendedQueryBuilder" where
  "ensureBytes eqb =
     (if paramValueBytes eqb = None then eqb\<lparr>paramValueBytes := Some []\<rparr> else eqb)"

type_synonym param_result = "(go_error + bytes option) \<times> extendedQueryBuilder"

definition encodeInto :: "encoder \<Rightarrow> extendedQueryBuilder \<Rightarrow> param_result" where
  "encodeInto enc eqb =
     (let pos = length (bytes_of (paramValueBytes eqb)) in
      case enc (bytes_of (paramValueBytes eqb)) of
        Inl err \<Rightarrow> (Inl err, eqb)
      | Inr None \<Rightarrow> (Inr None, eqb)
      | Inr (Some buf) \<Rightarrow> (Inr (Some (drop pos buf)), eqb\<lparr>paramValueBytes := Some buf\<rparr>))"

definition encoderFor :: "pgtype_env \<Rightarrow> format \<Rightarrow> goval \<Rightarrow> encoder option" where
  "encoderFor env formatCode arg =
     (if formatCode = TextFormatCode then EncodeText env arg
      else if formatCode = BinaryFormatCode then EncodeBinary env arg
      else None)"

text \<open>The data type registered for the type of \<open>arg\<close>, if it is a text encoder.\<close>

definition textTypeForValue :: "pgtype_env \<Rightarrow> goval \<Rightarrow> goval option" where
  "textTypeForValue env arg =
     (case DataTypeForValue env arg of
        None \<Rightarrow> None
      | Some value \<Rightarrow> if EncodeText env value \<noteq> None then Some value else None)"

text \<open>
  One call of \<open>encodeExtendedParamValue\<close>: it returns, or it calls itself on another value, with
  the buffer allocated.
\<close>

definition encodeExtendedStep ::
  "pgtype_env \<Rightarrow> oid \<Rightarrow> format \<Rightarrow> extendedQueryBuilder \<Rightarrow> goval \<Rightarrow> param_result progress" where
  "encodeExtendedStep env oid formatCode eqb0 arg =
     (if arg = GNil then Done (Some (Inr None, eqb0))
      else if is_nil_ptr arg then Done (Some (Inr None, eqb0))
      else let eqb = ensureBytes eqb0 in
        case arg of
          GString s \<Rightarrow> Done (Some (Inr (Some s), eqb))
        | _ \<Rightarrow> (case encoderFor env formatCode arg of
          Some enc \<Rightarrow> Done (Some (encodeInto enc eqb))
        | None \<Rightarrow> (case arg of
          GPtr _ (Some v) \<Rightarrow> Again v
        | _ \<Rightarrow> (case DataTypeForOID env oid of
          Some dt \<Rightarrow> (case Value_Set env dt arg of
              Inl err \<Rightarrow> (case callValuerValue env arg of
                  None \<Rightarrow> Done (Some (Inl err, eqb))
                | Some (Inl err') \<Rightarrow> Done (Some (Inl err', eqb))
                | Some (Inr v) \<Rightarrow> Again v)
            | Inr value \<Rightarrow> Again value)
        | None \<Rightarrow> (case textTypeForValue env arg of
          Some dt \<Rightarrow> (case Value_Set env dt arg of
              Inl err \<Rightarrow> Done (Some (Inl err, eqb))
            | Inr value \<Rightarrow> Done (map_option (\<lambda>enc. encodeInto enc eqb) (EncodeText env value)))
        | None \<Rightarrow> (case stripNamedType arg of
            (strippedArg, ok) \<Rightarrow> if ok then Again strippedArg
              else Done (Some (Inl (oidError arg oid), eqb))))))))"

partial_function (option) encodeExtendedParamValue ::
  "pgtype_env \<Rightarrow> oid \<Rightarrow> format \<Rightarrow> extendedQueryBuilder \<Rightarrow> goval \<Rightarrow> param_result option" where
  "encodeExtendedParamValue env oid formatCode eqb arg =
     (case encodeExtendedStep env oid formatCode eqb arg of
        Done r \<Rightarrow> r
      | Again v \<Rightarrow> encodeExtendedParamValue env oid formatCode (ensureBytes eqb) v)"

definition eqb_AppendParam ::
  "pgtype_env \<Rightarrow> oid \<Rightarrow> goval \<Rightarrow> extendedQueryBuilder \<Rightarrow> (go_error option \<times> extendedQueryBuilder) option" where
  "eqb_AppendParam env oid arg eqb =
     (let f = chooseParameterFormatCode env oid arg;
          eqb1 = eqb\<lparr>paramFormats := paramFormats eqb @ [f]\<rparr> in
      case encodeExtendedParamValue env oid f eqb1 arg of
        None \<Rightarrow> None
      | Some (Inl err, eqb2) \<Rightarrow> Some (Some err, eqb2)
      | Some (Inr v, eqb2) \<Rightarrow> Some (None, eqb2\<lparr>paramValues := paramValues eqb2 @ [v]\<rparr>))"

text \<open>The loops over the arguments of a query and over the fields of its description.\<close>

fun eqb_AppendParams ::
  "pgtype_env \<Rightarrow> oid list \<Rightarrow> goval list \<Rightarrow> extendedQueryBuilder
     \<Rightarrow> (go_error option \<times> extendedQueryBuilder) option" where
  "eqb_AppendParams env (oid # oids) (arg # args) eqb =
     (case eqb_AppendParam env oid arg eqb of
        None \<Rightarrow> None
      | Some (Some err, eqb') \<Rightarrow> Some (Some err, eqb')
      | Some (None, eqb') \<Rightarrow> eqb_AppendParams env oids args eqb')"
| "eqb_AppendParams env _ _ eqb = Some (None, eqb)"

definition eqb_AppendResultFormats :: "pgtype_env \<Rightarrow> oid list \<Rightarrow> extendedQueryBuilder \<Rightarrow> extendedQueryBuilder" where
  "eqb_AppendResultFormats env oids eqb =
     fold (\<lambda>oid. eqb_AppendResultFormat (ResultFormatCodeForOID env oid)) oids eqb"

subsection \<open>What a call leaves in the builder\<close>

definition keeps :: "extendedQueryBuilder \<Rightarrow> extendedQueryBuilder \<Rightarrow> bool" where
  "keeps eqb eqb' \<longleftrightarrow> paramValues eqb' = paramValues eqb \<and> paramFormats eqb' = paramFormats eqb
     \<and> resultFormats eqb' = resultFormats eqb"

definition grows :: "extendedQueryBuilder \<Rightarrow> extendedQueryBuilder \<Rightarrow> bool" where
  "grows eqb eqb' \<longleftrightarrow> (\<exists>x. bytes_of (paramValueBytes eqb') = bytes_of (paramValueBytes eqb) @ x)"

lemma keeps_refl [simp]: "keeps eqb eqb" and grows_refl [simp]: "grows eqb eqb"
  by (simp_all add: keeps_def grows_def)

lemma keeps_trans: "keeps a b \<Longrightarrow> keeps b c \<Longrightarrow> keeps a c"
  and grows_trans: "grows a b \<Longrightarrow> grows b c \<Longrightarrow> grows a c"
  by (auto simp: keeps_def grows_def)

lemma keeps_ensureBytes [simp]: "keeps eqb (ensureBytes eqb)"
  and grows_ensureBytes [simp]: "grows eqb (ensureBytes eqb)"
  by (simp_all add: keeps_def grows_def ensureBytes_def)

lemma encodeInto_keeps: "encodeInto enc eqb = (r, eqb') \<Longrightarrow> keeps eqb eqb'"
  by (auto simp: encodeInto_def keeps_def Let_def split: sum.splits option.splits)

lemma encodeInto_grows: "appends enc \<Longrightarrow> encodeInto enc eqb = (r, eqb') \<Longrightarrow> grows eqb eqb'"
  by (auto simp: encodeInto_def grows_def appends_def Let_def split: sum.splits option.splits)

lemma encodeExtendedStep_cases:
  assumes "encodeExtendedStep env oid f eqb arg = Done (Some (r, eqb'))"
  obtains "eqb' = eqb" | "eqb' = ensureBytes eqb"
    | v enc where "EncodeText env v = Some enc \<or> EncodeBinary env v = Some enc"
      "encodeInto enc (ensureBytes eqb) = (r, eqb')"
proof -
  have enc: "EncodeText env v = Some e \<or> EncodeBinary env v = Some e" if "encoderFor env f v = Some e" for v e
    using that by (auto simp: encoderFor_def split: if_splits)
  have "eqb' = eqb \<or> eqb' = ensureBytes eqb \<or> (\<exists>v enc. encoderFor env f v = Some enc \<and>
      encodeInto enc (ensureBytes eqb) = (r, eqb')) \<or> (\<exists>v enc. EncodeText env v = Some enc \<and>
      encodeInto enc (ensureBytes eqb) = (r, eqb'))"
    using assms unfolding encodeExtendedStep_def Let_def
    by (simp split: if_splits option.splits sum.splits goval.splits prod.splits; blast?)
  with that enc show thesis by blast
qed

lemma encodeExtendedStep_keeps:
  "encodeExtendedStep env oid f eqb arg = Done (Some (r, eqb')) \<Longrightarrow> keeps eqb eqb'"
  by (erule encodeExtendedStep_cases) (auto dest!: encodeInto_keeps intro: keeps_trans [OF keeps_ensureBytes])

lemma encodeExtendedStep_grows:
  assumes "encodeExtendedStep env oid f eqb arg = Done (Some (r, eqb'))" and "encoders_ok env"
  shows "grows eqb eqb'"
  using assms(1)
proof (cases rule: encodeExtendedStep_cases)
  case (3 v enc)
  then have "appends enc" using assms(2) unfolding encoders_ok_def by blast
  from encodeInto_grows [OF this 3(2)] show ?thesis by (rule grows_trans [OF grows_ensureBytes])
qed simp_all

lemma encodeExtendedParamValue_keeps:
  assumes "encodeExtendedParamValue env oid f eqb arg = Some r"
  shows "keeps eqb (snd r) \<and> (encoders_ok env \<longrightarrow> grows eqb (snd r))"
  using assms
proof (rule encodeExtendedParamValue.raw_induct [rotated])
  fix encode :: "pgtype_env \<Rightarrow> oid \<Rightarrow> format \<Rightarrow> extendedQueryBuilder \<Rightarrow> goval \<Rightarrow> param_result option"
    and env oid f eqb arg r
  assume IH: "\<And>env oid f eqb arg r. encode env oid f eqb arg = Some r
      \<Longrightarrow> keeps eqb (snd r) \<and> (encoders_ok env \<longrightarrow> grows eqb (snd r))"
    and eq: "(case encodeExtendedStep env oid f eqb arg of
        Done r \<Rightarrow> r | Again v \<Rightarrow> encode env oid f (ensureBytes eqb) v) = Some r"
  show "keeps eqb (snd r) \<and> (encoders_ok env \<longrightarrow> grows eqb (snd r))"
  proof (cases "encodeExtendedStep env oid f eqb arg")
    case (Done d)
    with eq show ?thesis
      using encodeExtendedStep_keeps encodeExtendedStep_grows by (cases r) auto
  next
    case (Again v)
    with eq IH [of env oid f "ensureBytes eqb" v r] show ?thesis
      using keeps_trans [OF keeps_ensureBytes] grows_trans [OF grows_ensureBytes] by auto
  qed
qed

text \<open>What the encoded value of an argument is when no encoder is involved.\<close>

definition carries :: "goval \<Rightarrow> bytes option \<Rightarrow> bool" where
  "carries arg v \<longleftrightarrow> (arg = GNil \<or> is_nil_ptr arg \<longrightarrow> v = None) \<and> (\<forall>s. arg = GString s \<longrightarrow> v = Some s)"

lemma encodeExtendedParamValue_carries:
  assumes "encodeExtendedParamValue env oid f eqb arg = Some (Inr v, eqb')"
  shows "carries arg v"
proof -
  have "encodeExtendedStep env oid f eqb arg = Done (Some (Inr None, eqb))" if "arg = GNil \<or> is_nil_ptr arg"
    using that by (auto simp: encodeExtendedStep_def)
  moreover have "encodeExtendedStep env oid f eqb arg = Done (Some (Inr (Some s), ensureBytes eqb))"
    if "arg = GString s" for s
    using that by (simp add: encodeExtendedStep_def is_nil_ptr_def Let_def)
  ultimately show ?thesis using assms by (auto simp: carries_def encodeExtendedParamValue.simps)
qed

lemma eqb_AppendParam_cases:
  assumes "eqb_AppendParam env oid arg eqb = Some (err, eqb')"
  obtains (ok) v where "err = None" and "carries arg v" and "paramValues eqb' = paramValues eqb @ [v]"
      and "paramFormats eqb' = paramFormats eqb @ [chooseParameterFormatCode env oid arg]"
      and "resultFormats eqb' = resultFormats eqb"
    | (error) e where "err = Some e" and "paramValues eqb' = paramValues eqb"
proof -
  let ?eqb1 = "eqb\<lparr>paramFormats := paramFormats eqb @ [chooseParameterFormatCode env oid arg]\<rparr>"
  obtain r eqb2 where e: "encodeExtendedParamValue env oid (chooseParameterFormatCode env oid arg) ?eqb1 arg
      = Some (r, eqb2)"
    using assms by (auto simp: eqb_AppendParam_def Let_def split: option.splits)
  have k: "keeps ?eqb1 eqb2" using encodeExtendedParamValue_keeps [OF e] by simp
  show thesis
  proof (cases r)
    case (Inl er)
    with assms e k show ?thesis by (auto simp: eqb_AppendParam_def Let_def keeps_def intro: error)
  next
    case (Inr v)
    then have "carries arg v" using encodeExtendedParamValue_carries e by simp
    with Inr assms e k show ?thesis by (auto simp: eqb_AppendParam_def Let_def keeps_def intro: ok)
  qed
qed

lemma eqb_AppendParam_grows:
  assumes "eqb_AppendParam env oid arg eqb = Some (err, eqb')" and "encoders_ok env"
  shows "grows eqb eqb'"
proof -
  let ?eqb1 = "eqb\<lparr>paramFormats := paramFormats eqb @ [chooseParameterFormatCode env oid arg]\<rparr>"
  obtain r eqb2 where e: "encodeExtendedParamValue env oid (chooseParameterFormatCode env oid arg) ?eqb1 arg
      = Some (r, eqb2)"
    using assms by (auto simp: eqb_AppendParam_def Let_def split: option.splits)
  have "grows ?eqb1 eqb2" using encodeExtendedParamValue_keeps [OF e] assms(2) by simp
  with assms e show ?thesis
    by (cases r) (auto simp: eqb_AppendParam_def Let_def grows_def)
qed

lemma eqb_AppendParams_ok:
  "eqb_AppendParams env oids args eqb = Some (None, eqb') \<Longrightarrow> length oids = length args \<Longrightarrow>
     \<exists>vs. list_all2 carries args vs \<and> paramValues eqb' = paramValues eqb @ vs \<and>
       paramFormats eqb' = paramFormats eqb @ map2 (chooseParameterFormatCode env) oids args \<and>
       resultFormats eqb' = resultFormats eqb"
proof (induction env oids args eqb rule: eqb_AppendParams.induct)
  case (1 env oid oids arg args eqb)
  from "1.prems" obtain eqb1 where e1: "eqb_AppendParam env oid arg eqb = Some (None, eqb1)"
    and e2: "eqb_AppendParams env oids args eqb1 = Some (None, eqb')"
    by (auto split: option.splits)
  obtain v where v: "carries arg v" "paramValues eqb1 = paramValues eqb @ [v]"
    "paramFormats eqb1 = paramFormats eqb @ [chooseParameterFormatCode env oid arg]"
    "resultFormats eqb1 = resultFormats eqb"
    using e1 by (auto elim: eqb_AppendParam_cases)
  obtain vs where "list_all2 carries args vs" "paramValues eqb' = paramValues eqb1 @ vs"
    "paramFormats eqb' = paramFormats eqb1 @ map2 (chooseParameterFormatCode env) oids args"
    "resultFormats eqb' = resultFormats eqb1"
    using "1.IH" [OF e1 refl refl e2] "1.prems"(2) by auto
  with v show ?case by (intro exI [of _ "v # vs"]) simp
qed auto

lemma eqb_AppendResultFormats_simps:
  "resultFormats (eqb_AppendResultFormats env oids eqb) = resultFormats eqb @ map (ResultFormatCodeForOID env) oids"
  "paramValues (eqb_AppendResultFormats env oids eqb) = paramValues eqb"
  "paramFormats (eqb_AppendResultFormats env oids eqb) = paramFormats eqb"
  by (induction oids arbitrary: eqb) (simp_all add: eqb_AppendResultFormats_def eqb_AppendResultFormat_def)

lemma eqb_Reset_simps [simp]:
  "paramValues (eqb_Reset eqb) = []" "paramFormats (eqb_Reset eqb) = []" "resultFormats (eqb_Reset eqb) = []"
  "bytes_of (paramValueBytes (eqb_Reset eqb)) = []"
  by (simp_all add: eqb_Reset_def) (cases "paramValueBytes eqb"; simp)

subsection \<open>Termination\<close>

text \<open>
  The registered types can encode in the format \<open>f\<close>, and setting a value does not change
  its type.
\<close>

definition encodable :: "pgtype_env \<Rightarrow> format \<Rightarrow> bool" where
  "encodable env f \<longleftrightarrow>
     (\<forall>oid dt a v. DataTypeForOID env oid = Some dt \<longrightarrow> Value_Set env dt a = Inr v \<longrightarrow> encoderFor env f v \<noteq> None)
     \<and> (\<forall>a dt b v. DataTypeForValue env a = Some dt \<longrightarrow> Value_Set env dt b = Inr v
         \<longrightarrow> EncodeText env dt \<noteq> None \<longrightarrow> EncodeText env v \<noteq> None)"

lemma encodeExtendedStep_Again:
  assumes "encodeExtendedStep env oid f eqb arg = Again v"
  shows "(\<exists>n. arg = GPtr n (Some v)) \<or> callValuerValue env arg = Some (Inr v) \<or> stripNamedType arg = (v, True)
    \<or> (\<exists>dt. DataTypeForOID env oid = Some dt \<and> Value_Set env dt arg = Inr v)"
  using assms unfolding encodeExtendedStep_def Let_def
  by (simp split: if_splits option.splits sum.splits goval.splits prod.splits)

lemma encodeExtendedStep_returns:
  assumes "encodable env f"
  shows "encodeExtendedStep env oid f eqb arg \<noteq> Done None"
proof -
  have reg: "\<exists>enc. EncodeText env v = Some enc"
    if "textTypeForValue env a = Some dt" "Value_Set env dt b = Inr v" for a b dt v
  proof -
    have "DataTypeForValue env a = Some dt" "EncodeText env dt \<noteq> None"
      using that(1) by (auto simp: textTypeForValue_def split: option.splits if_splits)
    with assms that(2) have "EncodeText env v \<noteq> None" unfolding encodable_def by blast
    then show ?thesis by simp
  qed
  show ?thesis
    by (auto simp: encodeExtendedStep_def Let_def dest: reg
        split: if_splits option.splits sum.splits goval.splits prod.splits)
qed

lemma encodeExtended_encoder:
  assumes "encoderFor env f v \<noteq> None"
  shows "\<exists>r. encodeExtendedParamValue env oid f eqb v = Some r"
proof -
  have "\<exists>r. encodeExtendedStep env oid f eqb v = Done (Some r)"
    using assms unfolding encodeExtendedStep_def Let_def
    by (cases v) (auto simp: is_nil_ptr_def split: option.splits)
  then show ?thesis by (auto simp: encodeExtendedParamValue.simps)
qed

lemma encodeExtended_step:
  assumes "encodable env f"
    and "\<And>v. encodeExtendedStep env oid f eqb arg = Again v \<Longrightarrow> encoderFor env f v = None \<Longrightarrow>
      \<exists>r. encodeExtendedParamValue env oid f (ensureBytes eqb) v = Some r"
  shows "\<exists>r. encodeExtendedParamValue env oid f eqb arg = Some r"
proof (cases "encodeExtendedStep env oid f eqb arg")
  case (Done r)
  with encodeExtendedStep_returns [OF assms(1)] show ?thesis
    by (cases r) (auto simp: encodeExtendedParamValue.simps)
next
  case (Again v)
  with assms(2) [OF Again] encodeExtended_encoder [of env f v]
  have "\<exists>r. encodeExtendedParamValue env oid f (ensureBytes eqb) v = Some r" by blast
  with Again show ?thesis by (simp add: encodeExtendedParamValue.simps)
qed

lemma encodeExtended_plain:
  assumes "methods_ok env" and "encodable env f" and "is_predeclared arg"
  shows "\<exists>r. encodeExtendedParamValue env oid f eqb arg = Some r"
proof (rule encodeExtended_step [OF assms(2)])
  fix v assume "encodeExtendedStep env oid f eqb arg = Again v" and none: "encoderFor env f v = None"
  from encodeExtendedStep_Again [OF this(1)] have False
  proof (elim disjE exE conjE)
    fix dt assume "DataTypeForOID env oid = Some dt" "Value_Set env dt arg = Inr v"
    with assms(2) none show False unfolding encodable_def by blast
  next
    assume "callValuerValue env arg = Some (Inr v)"
    with assms(1,3) show False by (simp add: methods_ok_def callValuerValue_def)
  qed (use assms(3) in \<open>cases arg; auto split: if_splits\<close>)+
  then show "\<exists>r. encodeExtendedParamValue env oid f (ensureBytes eqb) v = Some r" ..
qed

lemma encodeExtended_total:
  assumes "methods_ok env" and "valuers_ok env" and "encodable env f"
  shows "\<exists>r. encodeExtendedParamValue env oid f eqb arg = Some r"
proof (induction arg arbitrary: eqb rule: measure_induct_rule [of size])
  case (less arg)
  show ?case
  proof (rule encodeExtended_step [OF assms(3)])
    fix v assume st: "encodeExtendedStep env oid f eqb arg = Again v" and none: "encoderFor env f v = None"
    have strip: "basic_kind v" if "stripNamedType arg = (v, True)"
      using that by (cases arg) (auto split: if_splits)
    have "is_predeclared v \<or> size v < size arg"
      using encodeExtendedStep_Again [OF st]
    proof (elim disjE exE conjE)
      fix dt assume "DataTypeForOID env oid = Some dt" "Value_Set env dt arg = Inr v"
      with assms(3) none show ?thesis unfolding encodable_def by blast
    qed (auto dest: strip basic_kind_predeclared callValuerValue_driver_value [OF assms(2)]
        is_driver_value_predeclared)
    with less encodeExtended_plain [OF assms(1,3)]
    show "\<exists>r. encodeExtendedParamValue env oid f (ensureBytes eqb) v = Some r" by blast
  qed
qed

lemma eqb_AppendParam_returns:
  assumes "methods_ok env" and "valuers_ok env" and "encodable env (chooseParameterFormatCode env oid arg)"
  shows "\<exists>r. eqb_AppendParam env oid arg eqb = Some r"
  using encodeExtended_total [OF assms]
  by (force simp: eqb_AppendParam_def Let_def split: option.splits sum.splits)

subsection \<open>Properties\<close>



text \<open>
  A parameter never overwrites an earlier one: whether it succeeds or fails, \<open>AppendParam\<close>
  only appends to the shared byte buffer that the earlier values are slices of, and it leaves
  the earlier values as they are.
\<close>

lemma AppendParam_preserves:
  assumes "encoders_ok env" and "eqb_AppendParam env oid arg eqb = Some (err, eqb')"
  shows "(\<exists>x. bytes_of (paramValueBytes eqb') = bytes_of (paramValueBytes eqb) @ x)
    \<and> take (length (paramValues eqb)) (paramValues eqb') = paramValues eqb"
  using eqb_AppendParam_grows [OF assms(2,1)] assms(2)
  by (auto simp: grows_def elim: eqb_AppendParam_cases)

end
