(* ===== verification/Logger.thy ===== *)
theory Logger
  imports Go_Prelude
begin

text \<open>
  \<open>src/logger.go\<close>: log levels, their names, and the shortening of query arguments for the log.
\<close>

subsection \<open>Levels\<close>

type_synonym LogLevel = "64 word"

definition LogLevelTrace :: LogLevel where "LogLevelTrace = 6"
definition LogLevelDebug :: LogLevel where "LogLevelDebug = 5"
definition LogLevelInfo :: LogLevel where "LogLevelInfo = 4"
definition LogLevelWarn :: LogLevel where "LogLevelWarn = 3"
definition LogLevelError :: LogLevel where "LogLevelError = 2"
definition LogLevelNone :: LogLevel where "LogLevelNone = 1"

lemmas log_levels = LogLevelTrace_def LogLevelDebug_def LogLevelInfo_def LogLevelWarn_def
  LogLevelError_def LogLevelNone_def

declare log_levels [go_defs]

definition LogLevel_String :: "LogLevel \<Rightarrow> string" where
  "LogLevel_String ll =
     (if ll = LogLevelTrace then ''trace''
      else if ll = LogLevelDebug then ''debug''
      else if ll = LogLevelInfo then ''info''
      else if ll = LogLevelWarn then ''warn''
      else if ll = LogLevelError then ''error''
      else if ll = LogLevelNone then ''none''
      else ''invalid level '' @ FormatInt (sint ll))"

definition LogLevelFromString :: "string \<Rightarrow> go_error + LogLevel" where
  "LogLevelFromString s =
     (if s = ''trace'' then Inr LogLevelTrace
      else if s = ''debug'' then Inr LogLevelDebug
      else if s = ''info'' then Inr LogLevelInfo
      else if s = ''warn'' then Inr LogLevelWarn
      else if s = ''error'' then Inr LogLevelError
      else if s = ''none'' then Inr LogLevelNone
      else Inl (Errorf ''invalid log level''))"

subsection \<open>Arguments in the log\<close>

definition truncated :: "string \<Rightarrow> nat \<Rightarrow> string" where
  "truncated s n = s @ '' (truncated '' @ FormatInt (int n) @ '' bytes)''"

fun logQueryArg :: "goval \<Rightarrow> goval" where
  "logQueryArg (GBytes b) =
     (let v = bytes_of b in
      if length v < 64 then GString (EncodeToString v)
      else GString (truncated (EncodeToString (take 64 v)) (length v - 64)))"
| "logQueryArg (GString v) =
     (if 64 < length v then GString (truncated (take 64 v) (length v - 64)) else GString v)"
| "logQueryArg a = a"

primrec logQueryArgs_loop :: "goval list \<Rightarrow> goval list \<Rightarrow> goval list" where
  "logQueryArgs_loop [] logArgs = logArgs"
| "logQueryArgs_loop (a # args) logArgs = logQueryArgs_loop args (logArgs @ [logQueryArg a])"

definition logQueryArgs :: "goval list \<Rightarrow> goval list" where
  "logQueryArgs args = logQueryArgs_loop args []"

lemma logQueryArgs_loop_map: "logQueryArgs_loop args acc = acc @ map logQueryArg args"
  by (induction args arbitrary: acc) simp_all

lemma logQueryArgs_map: "logQueryArgs args = map logQueryArg args"
  by (simp add: logQueryArgs_def logQueryArgs_loop_map)

lemma length_EncodeToString: "length (EncodeToString b) = 2 * length b"
  by (induction b) simp_all

lemma length_truncated:
  "length (truncated s n) = length s + 19 + length (FormatInt (int n))"
  by (simp add: truncated_def)

subsection \<open>Properties\<close>

text \<open>
  The names of the log levels and their parser agree: a level has a name that
  \<open>LogLevelFromString\<close> accepts exactly when it is one of the six levels, and then the parser
  returns that level.
\<close>

lemma LogLevel_roundtrip:
  "LogLevelFromString s = Inr ll \<longleftrightarrow> ll \<in> {1..6} \<and> LogLevel_String ll = s"
proof
  assume "LogLevelFromString s = Inr ll"
  then show "ll \<in> {1..6} \<and> LogLevel_String ll = s"
    by (auto simp: LogLevelFromString_def LogLevel_String_def log_levels split: if_splits)
next
  assume l: "ll \<in> {1..6} \<and> LogLevel_String ll = s"
  have "unat ll \<in> {1..6}" using l by (auto simp: word_le_nat_alt)
  then have "unat ll = 1 \<or> unat ll = 2 \<or> unat ll = 3 \<or> unat ll = 4 \<or> unat ll = 5 \<or> unat ll = 6"
    by auto
  then have "ll = 1 \<or> ll = 2 \<or> ll = 3 \<or> ll = 4 \<or> ll = 5 \<or> ll = 6"
    by (simp add: word_unat_eq_iff)
  with l show "LogLevelFromString s = Inr ll"
    by (auto simp: LogLevelFromString_def LogLevel_String_def log_levels)
qed

text \<open>
  Log entries do not carry long arguments: every string that \<open>logQueryArgs\<close> makes of an
  argument has at most 147 bytes and the digits of the number of bytes left out, arguments
  keep their number and order, and short strings and arguments of other types are logged as
  they are.
\<close>

lemma logQueryArgs_bounded:
  "length (logQueryArgs args) = length args \<and>
   (\<forall>i < length args. case args ! i of
      GString s \<Rightarrow> logQueryArgs args ! i =
        GString (if length s \<le> 64 then s else truncated (take 64 s) (length s - 64))
    | GBytes b \<Rightarrow> (\<exists>t. logQueryArgs args ! i = GString t
        \<and> length t \<le> 147 + length (FormatInt (int (length (bytes_of b) - 64))))
    | a \<Rightarrow> logQueryArgs args ! i = a)"
  by (auto simp: logQueryArgs_map length_EncodeToString length_truncated Let_def split: goval.splits)

end
