(* ===== verification/Pgconn.thy ===== *)
theory Pgconn
  imports Ext_Query_Builder Logger
begin

text \<open>
  What the driver uses of the packages \<open>pgconn\<close>, \<open>pgproto3\<close> and \<open>stmtcache\<close>, which are not
  part of the repository. The state of a connection, of the server behind it and of the
  readers and statement caches opened on it is one value of an arbitrary type \<open>'pg\<close>; result
  readers, multi-result readers and caches are handles into it. A call returns the next
  state, the notifications that arrived during the call, and its result.
\<close>

record field_description =
  fd_Name :: string
  fd_DataTypeOID :: oid
  fd_Format :: format
  fd_TypeModifier :: "32 word"

record statement_description =
  sd_Name :: string
  sd_SQL :: string
  sd_ParamOIDs :: "oid list"
  sd_Fields :: "field_description list"

record notification =
  n_PID :: "32 word"
  n_Channel :: string
  n_Payload :: string

datatype cache_mode = ModePrepare | ModeDescribe

datatype batch_command =
    BExecParams string "bytes option list" "oid list" "format list" "format list"
  | BExecPrepared string "bytes option list" "format list" "format list"

type_synonym command_tag = string
type_synonym ('pg, 'r) pgcall = "'pg \<Rightarrow> 'pg \<times> notification list \<times> 'r"

text \<open>The stream a \<open>CopyFrom\<close> reads: the chunks written to the pipe, and the error it is closed with.\<close>

type_synonym copy_stream = "bytes list \<times> go_error option"

record 'pg pgconn_ops =
  op_IsClosed :: "'pg \<Rightarrow> bool"
  op_IsBusy :: "'pg \<Rightarrow> bool"
  op_TxStatus :: "'pg \<Rightarrow> char"
  op_PID :: "'pg \<Rightarrow> 32 word"
  op_ParameterStatus :: "'pg \<Rightarrow> string \<Rightarrow> string"
  op_Close :: "bool \<Rightarrow> ('pg, go_error option) pgcall"
  op_Prepare :: "string \<Rightarrow> string \<Rightarrow> ('pg, go_error + statement_description) pgcall"
  op_Exec :: "string \<Rightarrow> ('pg, nat) pgcall"
  op_ExecParams :: "string \<Rightarrow> bytes option list \<Rightarrow> oid list \<Rightarrow> format list \<Rightarrow> format list \<Rightarrow> ('pg, nat) pgcall"
  op_ExecPrepared :: "string \<Rightarrow> bytes option list \<Rightarrow> format list \<Rightarrow> format list \<Rightarrow> ('pg, nat) pgcall"
  op_ExecBatch :: "batch_command list \<Rightarrow> ('pg, nat) pgcall"
  op_CopyFrom :: "copy_stream \<Rightarrow> string \<Rightarrow> ('pg, command_tag \<times> go_error option) pgcall"
  op_WaitForNotification :: "('pg, go_error option) pgcall"
  mrr_NextResult :: "nat \<Rightarrow> ('pg, bool) pgcall"
  mrr_ResultReader :: "nat \<Rightarrow> 'pg \<Rightarrow> nat"
  mrr_Close :: "nat \<Rightarrow> ('pg, go_error option) pgcall"
  mrr_ReadAll :: "nat \<Rightarrow> ('pg, go_error option) pgcall"
  rr_NextRow :: "nat \<Rightarrow> ('pg, bool) pgcall"
  rr_Values :: "nat \<Rightarrow> 'pg \<Rightarrow> bytes option list"
  rr_FieldDescriptions :: "nat \<Rightarrow> 'pg \<Rightarrow> field_description list"
  rr_Close :: "nat \<Rightarrow> ('pg, command_tag \<times> go_error option) pgcall"
  rr_Read :: "nat \<Rightarrow> ('pg, command_tag \<times> go_error option) pgcall"
  cache_New :: "cache_mode \<Rightarrow> int \<Rightarrow> ('pg, nat) pgcall"
  cache_Get :: "nat \<Rightarrow> string \<Rightarrow> ('pg, go_error + statement_description) pgcall"
  cache_Mode :: "nat \<Rightarrow> 'pg \<Rightarrow> cache_mode"
  cache_Cap :: "nat \<Rightarrow> 'pg \<Rightarrow> int"
  cache_StatementErrored :: "nat \<Rightarrow> string \<Rightarrow> go_error \<Rightarrow> ('pg, unit) pgcall"
  tag_RowsAffected :: "command_tag \<Rightarrow> int"

text \<open>
  The calls that reach the server, in the order in which the driver makes them, are also
  recorded in the state of a connection; no definition reads the record.
\<close>

datatype pg_command =
    PgExec string
  | PgPrepare string string
  | PgExecParams string "bytes option list" "oid list" "format list" "format list"
  | PgExecPrepared string "bytes option list" "format list" "format list"
  | PgExecBatch "batch_command list"
  | PgCopyFrom string copy_stream
  | PgCacheGet string
  | PgWait
  | PgClose bool

text \<open>
  A connection on which the contracts of the later theories can be seen to hold: its state is
  whether it is closed, it prepares every statement with no parameters and no columns, and
  every query succeeds with an empty result.
\<close>

definition demo_sd :: "string \<Rightarrow> string \<Rightarrow> statement_description" where
  "demo_sd name sql = \<lparr>sd_Name = name, sd_SQL = sql, sd_ParamOIDs = [], sd_Fields = []\<rparr>"

definition demo_ops :: "bool pgconn_ops" where
  "demo_ops = \<lparr>op_IsClosed = \<lambda>pg. pg, op_IsBusy = \<lambda>_. False, op_TxStatus = \<lambda>_. CHR ''I'', op_PID = \<lambda>_. 0,
     op_ParameterStatus = \<lambda>_ k. if k = ''client_encoding'' then ''UTF8'' else ''on'',
     op_Close = \<lambda>_ _. (True, [], None), op_Prepare = \<lambda>name sql pg. (pg, [], Inr (demo_sd name sql)),
     op_Exec = \<lambda>_ pg. (pg, [], 0), op_ExecParams = \<lambda>_ _ _ _ _ pg. (pg, [], 0),
     op_ExecPrepared = \<lambda>_ _ _ _ pg. (pg, [], 0), op_ExecBatch = \<lambda>_ pg. (pg, [], 0),
     op_CopyFrom = \<lambda>_ _ pg. (pg, [], ''COPY 0'', None), op_WaitForNotification = \<lambda>pg. (pg, [], None),
     mrr_NextResult = \<lambda>_ pg. (pg, [], False), mrr_ResultReader = \<lambda>_ _. 0,
     mrr_Close = \<lambda>_ pg. (pg, [], None), mrr_ReadAll = \<lambda>_ pg. (pg, [], None),
     rr_NextRow = \<lambda>_ pg. (pg, [], False), rr_Values = \<lambda>_ _. [], rr_FieldDescriptions = \<lambda>_ _. [],
     rr_Close = \<lambda>_ pg. (pg, [], ''SELECT 0'', None), rr_Read = \<lambda>_ pg. (pg, [], ''SELECT 0'', None),
     cache_New = \<lambda>_ _ pg. (pg, [], 0), cache_Get = \<lambda>_ sql pg. (pg, [], Inr (demo_sd sql sql)),
     cache_Mode = \<lambda>_ _. ModePrepare, cache_Cap = \<lambda>_ _. 512,
     cache_StatementErrored = \<lambda>_ _ _ pg. (pg, [], ()), tag_RowsAffected = \<lambda>_. 0\<rparr>"

end
