(* ===== verification/Conn.thy ===== *)
theory Conn
  imports Pgconn
begin

text \<open>
  The connection of \<open>src/conn.go\<close>: its state, logging, identifiers, configuration, preparation
  of statements, notifications and closing. Queries are in the later theories.
\<close>

subsection \<open>Identifiers\<close>

definition quoteIdentifier :: "string \<Rightarrow> string" where
  "quoteIdentifier s = [CHR 0x22] @ ReplaceAll s CHR 0x22 [CHR 0x22, CHR 0x22] @ [CHR 0x22]"

type_synonym Identifier = "string list"

definition Identifier_Sanitize :: "Identifier \<Rightarrow> string" where
  "Identifier_Sanitize ident =
     Join (map (\<lambda>part. let s = ReplaceAll part CHR 0x00 [] in
       [CHR 0x22] @ ReplaceAll s CHR 0x22 [CHR 0x22, CHR 0x22] @ [CHR 0x22]) ident) ''.''"

subsection \<open>State\<close>

text \<open>
  What a log entry carries besides its level and message. Durations, which depend on the
  clock, are left out.
\<close>

datatype log_data =
    LString string
  | LArgs "goval list"
  | LError "go_error option"
  | LInt int
  | LIdent Identifier
  | LStrings "string list"

type_synonym log_fields = "(string \<times> log_data) list"
type_synonym log_entry = "LogLevel \<times> string \<times> log_fields"

text \<open>
  \<open>cfg_PreferSimpleProtocol\<close> is the only field of \<open>c.config\<close> that is read after connecting.
  \<open>bufferOwn\<close>: the driver's own notification handler is installed. Of \<open>preallocatedRows\<close> only
  the number of unused elements matters, each of which is the zero value; \<open>wbuf\<close> stays empty.
\<close>

record 'pg Conn =
  pgConn :: 'pg
  cfg_PreferSimpleProtocol :: bool
  preparedStatements :: "string \<rightharpoonup> statement_description"
  stmtcache :: "nat option"
  hasLogger :: bool
  logLevel :: LogLevel
  logged :: "log_entry list"
  bufferOwn :: bool
  notifications :: "notification list"
  preallocatedRows :: nat
  c_eqb :: extendedQueryBuilder
  sent :: "pg_command list"

definition bufferNotifications :: "notification \<Rightarrow> 'pg Conn \<Rightarrow> 'pg Conn" where
  "bufferNotifications n c = c\<lparr>notifications := notifications c @ [n]\<rparr>"

text \<open>
  A call of \<open>pgconn\<close>: notifications that arrive during it are handed to the handler that was
  installed when connecting.
\<close>

definition onPg :: "('pg, 'r) pgcall \<Rightarrow> 'pg Conn \<Rightarrow> 'r \<times> 'pg Conn" where
  "onPg f c =
     (case f (pgConn c) of (pg', ns, r) \<Rightarrow>
        (r, (if bufferOwn c then fold bufferNotifications ns else id) (c\<lparr>pgConn := pg'\<rparr>)))"

definition sendPg :: "pg_command \<Rightarrow> ('pg, 'r) pgcall \<Rightarrow> 'pg Conn \<Rightarrow> 'r \<times> 'pg Conn" where
  "sendPg cmd f c = onPg f (c\<lparr>sent := sent c @ [cmd]\<rparr>)"

definition shouldLog :: "'pg Conn \<Rightarrow> LogLevel \<Rightarrow> bool" where
  "shouldLog c lvl \<longleftrightarrow> hasLogger c \<and> lvl \<le>s logLevel c"

definition log_msg :: "'pg pgconn_ops \<Rightarrow> LogLevel \<Rightarrow> string \<Rightarrow> log_fields \<Rightarrow> 'pg Conn \<Rightarrow> 'pg Conn" where
  "log_msg ops lvl msg data c =
     (let pid = op_PID ops (pgConn c);
          data = (if pid \<noteq> 0 then data @ [(''pid'', LInt (uint pid))] else data)
      in c\<lparr>logged := logged c @ [(lvl, msg, data)]\<rparr>)"

definition log_if :: "'pg pgconn_ops \<Rightarrow> LogLevel \<Rightarrow> string \<Rightarrow> log_fields \<Rightarrow> 'pg Conn \<Rightarrow> 'pg Conn" where
  "log_if ops lvl msg data c = (if shouldLog c lvl then log_msg ops lvl msg data c else c)"

subsection \<open>Lemmas on calls\<close>

text \<open>Two states that agree on everything a log entry or a call of \<open>pgconn\<close> leaves alone.\<close>

definition same_session :: "'pg Conn \<Rightarrow> 'pg Conn \<Rightarrow> bool" where
  "same_session c c' \<longleftrightarrow> cfg_PreferSimpleProtocol c' = cfg_PreferSimpleProtocol c
     \<and> stmtcache c' = stmtcache c \<and> hasLogger c' = hasLogger c \<and> logLevel c' = logLevel c
     \<and> bufferOwn c' = bufferOwn c"

lemma fold_bufferNotifications:
  "fold bufferNotifications ns c = c\<lparr>notifications := notifications c @ ns\<rparr>"
  by (induction ns arbitrary: c) (simp_all add: bufferNotifications_def)

lemma onPg_unfold:
  "onPg f c = (snd (snd (f (pgConn c))), c\<lparr>pgConn := fst (f (pgConn c)),
     notifications := notifications c @ (if bufferOwn c then fst (snd (f (pgConn c))) else [])\<rparr>)"
  by (cases c) (auto simp: onPg_def fold_bufferNotifications split: prod.splits)

lemma onPg_keeps [simp]:
  "preparedStatements (snd (onPg f c)) = preparedStatements c"
  "sent (snd (onPg f c)) = sent c" "c_eqb (snd (onPg f c)) = c_eqb c"
  "logged (snd (onPg f c)) = logged c" "preallocatedRows (snd (onPg f c)) = preallocatedRows c"
  "stmtcache (snd (onPg f c)) = stmtcache c" "hasLogger (snd (onPg f c)) = hasLogger c"
  "logLevel (snd (onPg f c)) = logLevel c" "bufferOwn (snd (onPg f c)) = bufferOwn c"
  "cfg_PreferSimpleProtocol (snd (onPg f c)) = cfg_PreferSimpleProtocol c"
  by (simp_all add: onPg_unfold)

lemma sendPg_keeps [simp]:
  "preparedStatements (snd (sendPg cmd f c)) = preparedStatements c"
  "sent (snd (sendPg cmd f c)) = sent c @ [cmd]" "c_eqb (snd (sendPg cmd f c)) = c_eqb c"
  "logged (snd (sendPg cmd f c)) = logged c" "preallocatedRows (snd (sendPg cmd f c)) = preallocatedRows c"
  "stmtcache (snd (sendPg cmd f c)) = stmtcache c" "hasLogger (snd (sendPg cmd f c)) = hasLogger c"
  "logLevel (snd (sendPg cmd f c)) = logLevel c" "bufferOwn (snd (sendPg cmd f c)) = bufferOwn c"
  "cfg_PreferSimpleProtocol (snd (sendPg cmd f c)) = cfg_PreferSimpleProtocol c"
  by (simp_all add: sendPg_def)

lemma log_if_keeps [simp]:
  "pgConn (log_if ops lvl msg d c) = pgConn c"
  "preparedStatements (log_if ops lvl msg d c) = preparedStatements c"
  "sent (log_if ops lvl msg d c) = sent c" "c_eqb (log_if ops lvl msg d c) = c_eqb c"
  "notifications (log_if ops lvl msg d c) = notifications c"
  "preallocatedRows (log_if ops lvl msg d c) = preallocatedRows c"
  "stmtcache (log_if ops lvl msg d c) = stmtcache c" "hasLogger (log_if ops lvl msg d c) = hasLogger c"
  "logLevel (log_if ops lvl msg d c) = logLevel c" "bufferOwn (log_if ops lvl msg d c) = bufferOwn c"
  "cfg_PreferSimpleProtocol (log_if ops lvl msg d c) = cfg_PreferSimpleProtocol c"
  by (simp_all add: log_if_def log_msg_def Let_def)

subsection \<open>Configuration\<close>

text \<open>
  The parts of \<open>pgconn.Config\<close> that are read: the host, the runtime parameters, and whether the
  application has supplied a notification handler. The parser of connection strings and the
  dialler of \<open>pgconn\<close> are parameters.
\<close>

record pg_config =
  pc_Host :: string
  pc_RuntimeParams :: "string \<rightharpoonup> string"
  pc_OnNotification :: bool

text \<open>\<open>BuildStatementCache\<close> as the mode and capacity it passes to \<open>stmtcache.New\<close>.\<close>

record ConnConfig =
  cc_Config :: pg_config
  cc_Logger :: bool
  cc_LogLevel :: LogLevel
  cc_connString :: string
  cc_BuildStatementCache :: "(cache_mode \<times> int) option"
  cc_PreferSimpleProtocol :: bool
  cc_createdByParseConfig :: bool

definition takeParam :: "string \<Rightarrow> pg_config \<Rightarrow> string option \<times> pg_config" where
  "takeParam key config =
     (pc_RuntimeParams config key, config\<lparr>pc_RuntimeParams := (pc_RuntimeParams config)(key := None)\<rparr>)"

definition parseCapacity :: "string option \<Rightarrow> go_error + int" where
  "parseCapacity s = (case s of
       None \<Rightarrow> Inr 512
     | Some s \<Rightarrow> (case ParseInt s 32 of
         Inl err \<Rightarrow> Inl (ErrorfW ''cannot parse statement_cache_capacity: %w'' err)
       | Inr n \<Rightarrow> Inr n))"

definition parseCacheMode :: "string option \<Rightarrow> go_error + cache_mode" where
  "parseCacheMode s = (case s of
       None \<Rightarrow> Inr ModePrepare
     | Some s \<Rightarrow>
         if s = ''prepare'' then Inr ModePrepare
         else if s = ''describe'' then Inr ModeDescribe
         else Inl (Errorf (''invalid statement_cache_mod: '' @ s)))"

definition parsePreferSimple :: "string option \<Rightarrow> go_error + bool" where
  "parsePreferSimple s = (case s of
       None \<Rightarrow> Inr False
     | Some s \<Rightarrow> (case ParseBool s of
         Inr b \<Rightarrow> Inr b
       | Inl err \<Rightarrow> Inl (ErrorfV ''invalid prefer_simple_protocol: %v'' err)))"

definition ParseConfig :: "(string \<Rightarrow> go_error + pg_config) \<Rightarrow> string \<Rightarrow> go_error + ConnConfig" where
  "ParseConfig parse connString =
     (case parse connString of
        Inl err \<Rightarrow> Inl err
      | Inr config \<Rightarrow>
     (case takeParam ''statement_cache_capacity'' config of (capacity, config) \<Rightarrow>
     (case parseCapacity capacity of
        Inl err \<Rightarrow> Inl err
      | Inr statementCacheCapacity \<Rightarrow>
     (case takeParam ''statement_cache_mode'' config of (mode, config) \<Rightarrow>
     (case parseCacheMode mode of
        Inl err \<Rightarrow> Inl err
      | Inr statementCacheMode \<Rightarrow>
     (case takeParam ''prefer_simple_protocol'' config of (prefer, config) \<Rightarrow>
     (case parsePreferSimple prefer of
        Inl err \<Rightarrow> Inl err
      | Inr preferSimpleProtocol \<Rightarrow>
          Inr \<lparr>cc_Config = config, cc_Logger = False, cc_LogLevel = LogLevelInfo,
            cc_connString = connString,
            cc_BuildStatementCache =
              (if 0 < statementCacheCapacity then Some (statementCacheMode, statementCacheCapacity) else None),
            cc_PreferSimpleProtocol = preferSimpleProtocol, cc_createdByParseConfig = True\<rparr>)))))))"

text \<open>
  \<open>connect\<close>. The log entries that precede the connection are returned apart: on failure the
  connection is dropped, but its logger has them.
\<close>

definition early_log :: "ConnConfig \<Rightarrow> LogLevel \<Rightarrow> string \<Rightarrow> log_fields \<Rightarrow> log_entry list" where
  "early_log config lvl msg data =
     (if cc_Logger config \<and> lvl \<le>s cc_LogLevel config then [(lvl, msg, data)] else [])"

definition connect ::
  "'pg pgconn_ops \<Rightarrow> (pg_config \<Rightarrow> go_error + ('pg \<times> notification list)) \<Rightarrow> ConnConfig
     \<Rightarrow> ((go_error + 'pg Conn) \<times> log_entry list) outcome" where
  "connect ops dial config =
     (if \<not> cc_createdByParseConfig config then Panic
      else
        let host = [(''host'', LString (pc_Host (cc_Config config)))];
            own = (\<not> pc_OnNotification (cc_Config config));
            log1 = (if own then [] else early_log config LogLevelDebug
              ''pgx notification handler disabled by application supplied OnNotification'' host);
            log2 = log1 @ early_log config LogLevelInfo ''Dialing PostgreSQL server'' host
        in case dial (cc_Config config) of
             Inl err \<Rightarrow>
               Ret (Inl err, log2 @ early_log config LogLevelError ''connect failed'' [(''err'', LError (Some err))])
           | Inr (pg, ns) \<Rightarrow>
               let c = \<lparr>pgConn = pg, cfg_PreferSimpleProtocol = cc_PreferSimpleProtocol config,
                     preparedStatements = Map.empty, stmtcache = None, hasLogger = cc_Logger config,
                     logLevel = cc_LogLevel config, logged = log2, bufferOwn = own,
                     notifications = (if own then ns else []), preallocatedRows = 0, c_eqb = new_eqb, sent = []\<rparr>;
                   c = (case cc_BuildStatementCache config of
                          None \<Rightarrow> c
                        | Some (mode, cap) \<Rightarrow>
                            (case onPg (cache_New ops mode cap) c of (h, c) \<Rightarrow> c\<lparr>stmtcache := Some h\<rparr>))
               in Ret (Inr c, log2))"

text \<open>\<open>Connect\<close> and \<open>ConnectConfig\<close>; \<open>pgconn.Config.Copy\<close> is a parameter of the copy of a configuration.\<close>

definition Connect ::
  "'pg pgconn_ops \<Rightarrow> (string \<Rightarrow> go_error + pg_config) \<Rightarrow> (pg_config \<Rightarrow> go_error + ('pg \<times> notification list))
     \<Rightarrow> string \<Rightarrow> ((go_error + 'pg Conn) \<times> log_entry list) outcome" where
  "Connect ops parse dial connString =
     (case ParseConfig parse connString of
        Inl err \<Rightarrow> Ret (Inl err, [])
      | Inr connConfig \<Rightarrow> connect ops dial connConfig)"

definition ConnectConfig ::
  "'pg pgconn_ops \<Rightarrow> (pg_config \<Rightarrow> go_error + ('pg \<times> notification list)) \<Rightarrow> ConnConfig
     \<Rightarrow> ((go_error + 'pg Conn) \<times> log_entry list) outcome" where
  "ConnectConfig ops dial connConfig = connect ops dial connConfig"

definition ConnConfig_Copy :: "(pg_config \<Rightarrow> pg_config) \<Rightarrow> ConnConfig \<Rightarrow> ConnConfig" where
  "ConnConfig_Copy copy cc = (let newConfig = cc in newConfig\<lparr>cc_Config := copy (cc_Config newConfig)\<rparr>)"

subsection \<open>Operations\<close>

definition IsClosed :: "'pg pgconn_ops \<Rightarrow> 'pg Conn \<Rightarrow> bool" where
  "IsClosed ops c = op_IsClosed ops (pgConn c)"

definition Conn_Close :: "'pg pgconn_ops \<Rightarrow> 'pg Conn \<Rightarrow> go_error option \<times> 'pg Conn" where
  "Conn_Close ops c =
     (if IsClosed ops c then (None, c)
      else case sendPg (PgClose False) (op_Close ops False) c of
        (err, c) \<Rightarrow> (err, log_if ops LogLevelInfo ''closed connection'' [] c))"

text \<open>\<open>die\<close> closes with a context that is already cancelled.\<close>

definition die :: "'pg pgconn_ops \<Rightarrow> 'pg Conn \<Rightarrow> 'pg Conn" where
  "die ops c = (if IsClosed ops c then c else snd (sendPg (PgClose True) (op_Close ops True) c))"

text \<open>\<open>Prepare\<close> after the lookup of an identical statement.\<close>

definition prepareOn ::
  "'pg pgconn_ops \<Rightarrow> string \<Rightarrow> string \<Rightarrow> 'pg Conn \<Rightarrow> (go_error + statement_description) \<times> 'pg Conn" where
  "prepareOn ops name sql c =
     (let should = shouldLog c LogLevelError in
      case sendPg (PgPrepare name sql) (op_Prepare ops name sql) c of
        (Inl err, c) \<Rightarrow>
          (Inl err, if should then log_msg ops LogLevelError ''Prepare failed''
              [(''err'', LError (Some err)), (''name'', LString name), (''sql'', LString sql)] c else c)
      | (Inr sd, c) \<Rightarrow>
          (Inr sd, if name \<noteq> [] then c\<lparr>preparedStatements := (preparedStatements c)(name \<mapsto> sd)\<rparr> else c))"

definition Conn_Prepare ::
  "'pg pgconn_ops \<Rightarrow> string \<Rightarrow> string \<Rightarrow> 'pg Conn \<Rightarrow> (go_error + statement_description) \<times> 'pg Conn" where
  "Conn_Prepare ops name sql c =
     (case (if name \<noteq> [] then preparedStatements c name else None) of
        Some sd \<Rightarrow> if sd_SQL sd = sql then (Inr sd, c) else prepareOn ops name sql c
      | None \<Rightarrow> prepareOn ops name sql c)"

definition Deallocate :: "'pg pgconn_ops \<Rightarrow> string \<Rightarrow> 'pg Conn \<Rightarrow> go_error option \<times> 'pg Conn" where
  "Deallocate ops name c =
     (let c = c\<lparr>preparedStatements := (preparedStatements c)(name := None)\<rparr>;
          sql = ''deallocate '' @ quoteIdentifier name in
      case sendPg (PgExec sql) (op_Exec ops sql) c of (mrr, c) \<Rightarrow> onPg (mrr_ReadAll ops mrr) c)"

definition WaitForNotification ::
  "'pg pgconn_ops \<Rightarrow> 'pg Conn \<Rightarrow> (notification option \<times> go_error option) \<times> 'pg Conn" where
  "WaitForNotification ops c =
     (case notifications c of
        n # ns \<Rightarrow> ((Some n, None), c\<lparr>notifications := ns\<rparr>)
      | [] \<Rightarrow>
          (case sendPg PgWait (op_WaitForNotification ops) c of (err, c) \<Rightarrow>
            (case notifications c of
               n # ns \<Rightarrow> ((Some n, err), c\<lparr>notifications := ns\<rparr>)
             | [] \<Rightarrow> ((None, err), c))))"

subsection \<open>Identifiers as PostgreSQL reads them\<close>

text \<open>
  A reader of quoted identifiers: \<open>unquote\<close> reads up to the closing quote, a doubled quote
  standing for one; \<open>splitIdent\<close> reads the parts between dots.
\<close>

fun unquote :: "string \<Rightarrow> string \<Rightarrow> (string \<times> string) option" where
  "unquote acc [] = None"
| "unquote acc (c # s) =
     (if c \<noteq> CHR 0x22 then unquote (acc @ [c]) s
      else case s of
        [] \<Rightarrow> Some (acc, [])
      | d # s' \<Rightarrow> if d = CHR 0x22 then unquote (acc @ [CHR 0x22]) s' else Some (acc, s))"

lemma unquote_shorter: "unquote acc s = Some (p, rest) \<Longrightarrow> length rest < length s"
  by (induction acc s rule: unquote.induct) (auto split: if_splits list.splits)

function splitIdent :: "string \<Rightarrow> Identifier option" where
  "splitIdent s =
     (case s of
        [] \<Rightarrow> None
      | c # s' \<Rightarrow>
          if c \<noteq> CHR 0x22 then None
          else case unquote [] s' of
            None \<Rightarrow> None
          | Some (p, rest) \<Rightarrow>
              if rest = [] then Some [p]
              else if hd rest = CHR ''.'' then map_option ((#) p) (splitIdent (tl rest))
              else None)"
  by pat_completeness auto
termination
  by (relation "measure length") (auto dest!: unquote_shorter)

declare splitIdent.simps [simp del]

lemma unquote_quoted:
  assumes "rest = [] \<or> hd rest \<noteq> CHR 0x22"
  shows "unquote acc (ReplaceAll s CHR 0x22 [CHR 0x22, CHR 0x22] @ CHR 0x22 # rest) = Some (acc @ s, rest)"
proof (induction s arbitrary: acc)
  case Nil
  then show ?case using assms by (cases rest) auto
qed auto

definition quotedPart :: "string \<Rightarrow> string" where
  "quotedPart part = quoteIdentifier (filter (\<lambda>c. c \<noteq> CHR 0x00) part)"

lemma Identifier_Sanitize_parts: "Identifier_Sanitize ident = Join (map quotedPart ident) ''.''"
  by (simp add: Identifier_Sanitize_def quotedPart_def [abs_def] quoteIdentifier_def ReplaceAll_delete Let_def)

lemma splitIdent_quotedPart:
  assumes "rest = [] \<or> hd rest \<noteq> CHR 0x22"
  shows "splitIdent (quotedPart p @ rest) =
    (if rest = [] then Some [filter (\<lambda>c. c \<noteq> CHR 0x00) p]
     else if hd rest = CHR ''.'' then map_option ((#) (filter (\<lambda>c. c \<noteq> CHR 0x00) p)) (splitIdent (tl rest))
     else None)"
  using unquote_quoted [OF assms, of "[]" "filter (\<lambda>c. c \<noteq> CHR 0x00) p"]
  by (subst splitIdent.simps) (simp add: quotedPart_def quoteIdentifier_def)

lemma splitIdent_Sanitize:
  "ident \<noteq> [] \<Longrightarrow> splitIdent (Identifier_Sanitize ident) = Some (map (filter (\<lambda>c. c \<noteq> CHR 0x00)) ident)"
  unfolding Identifier_Sanitize_parts
proof (induction ident rule: induct_list012)
  case (2 p)
  then show ?case using splitIdent_quotedPart [of "[]" p] by simp
next
  case (3 p q ps)
  then show ?case using splitIdent_quotedPart [of "CHR ''.'' # Join (map quotedPart (q # ps)) ''.''" p] by simp
qed simp

lemma closed_sql_quotedPart: "utf8_clean p \<Longrightarrow> closed_sql (quotedPart p)"
  using closed_sql_quoted [of "ReplaceAll p CHR 0x00 []" "CHR 0x22"] utf8_clean_ReplaceAll [of p "CHR 0x00" "[]"]
  by (simp add: quotedPart_def quoteIdentifier_def ReplaceAll_delete rune_def)

lemma quotedPart_ends: "quotedPart p \<noteq> []" "hd (quotedPart p) = CHR 0x22" "last (quotedPart p) = CHR 0x22"
  by (simp_all add: quotedPart_def quoteIdentifier_def)

lemma Join_quoted_hd: "ps \<noteq> [] \<Longrightarrow> Join (map quotedPart ps) sep \<noteq> [] \<and> hd (Join (map quotedPart ps) sep) = CHR 0x22"
  by (cases "(ps, sep)" rule: Join.cases) (auto simp: quotedPart_ends)

lemma closed_sql_Identifier:
  "\<forall>p \<in> set ident. utf8_clean p \<Longrightarrow> closed_sql (Identifier_Sanitize ident)"
  unfolding Identifier_Sanitize_parts
proof (induction ident rule: induct_list012)
  case (2 p)
  then show ?case by (simp add: closed_sql_quotedPart)
next
  case (3 p q ps)
  let ?rest = "Join (map quotedPart (q # ps)) ''.''"
  have rest: "closed_sql ?rest" "?rest \<noteq> []" "hd ?rest = CHR 0x22"
    using 3 Join_quoted_hd [of "q # ps" "''.''"] by auto
  have "closed_sql (''.'' @ ?rest)"
    using rest by (intro closed_sql_append closed_sql_char) (auto simp: fuses_def fusing_def rune_def)
  with 3(3) closed_sql_quotedPart [of p] have "closed_sql (quotedPart p @ ''.'' @ ?rest)"
    by (intro closed_sql_append [of _ "''.'' @ ?rest"])
      (auto simp: fuses_def fusing_def quotedPart_ends is_digit_def rune_def)
  then show ?case by simp
qed simp

subsection \<open>Sequences of waits\<close>

fun waits :: "'pg pgconn_ops \<Rightarrow> nat \<Rightarrow> 'pg Conn \<Rightarrow> (notification option \<times> go_error option) list \<times> 'pg Conn" where
  "waits ops 0 c = ([], c)"
| "waits ops (Suc k) c =
     (case WaitForNotification ops c of (r, c) \<Rightarrow> (case waits ops k c of (rs, c) \<Rightarrow> (r # rs, c)))"

lemma waits_buffered:
  "k \<le> length (notifications c) \<Longrightarrow>
     waits ops k c = (map (\<lambda>n. (Some n, None)) (take k (notifications c)), c\<lparr>notifications := drop k (notifications c)\<rparr>)"
proof (induction k arbitrary: c)
  case (Suc k)
  then obtain n ns where "notifications c = n # ns" by (cases "notifications c") auto
  with Suc show ?case by (simp add: WaitForNotification_def)
qed simp

lemma onPg_notifications:
  "notifications (snd (onPg f c)) = notifications c @ (if bufferOwn c then fst (snd (f (pgConn c))) else [])"
  by (simp add: onPg_unfold)

definition demo_conn :: "bool Conn" where
  "demo_conn = \<lparr>pgConn = False, cfg_PreferSimpleProtocol = False, preparedStatements = Map.empty,
     stmtcache = None, hasLogger = False, logLevel = LogLevelNone, logged = [], bufferOwn = True,
     notifications = [], preallocatedRows = 0, c_eqb = new_eqb, sent = []\<rparr>"

subsection \<open>Properties\<close>

text \<open>
  C18. Identifiers survive quoting: reading the result of \<open>Identifier.Sanitize\<close> as PostgreSQL
  reads quoted names gives the parts back, the NUL bytes removed, whatever quotes and dots
  they contain. When the parts are valid UTF-8 the lexer is in its raw state behind it.
\<close>

theorem Identifier_Sanitize_roundtrip:
  assumes "ident \<noteq> []" and "\<forall>p \<in> set ident. utf8_clean p"
  shows "splitIdent (Identifier_Sanitize ident) = Some (map (filter (\<lambda>c. c \<noteq> CHR 0x00)) ident)
    \<and> closed_sql (Identifier_Sanitize ident)"
  using splitIdent_Sanitize [OF assms(1)] closed_sql_Identifier [OF assms(2)] by simp

theorem Identifier_Sanitize_roundtrip_witness:
  "splitIdent (Identifier_Sanitize [''my.schema'', [CHR ''t'', CHR 0x22]]) = Some [''my.schema'', [CHR ''t'', CHR 0x22]]"
  using Identifier_Sanitize_roundtrip [of "[''my.schema'', [CHR ''t'', CHR 0x22]]"]
  by (simp add: utf8_clean_ascii rune_def)

text \<open>
  \<open>Prepare\<close> is idempotent: after a successful call with a name, a second call with the same
  name and text returns the same description, sends nothing and changes nothing. Assumed of
  \<open>pgconn\<close>: the description it returns carries the text that was prepared.
\<close>

lemma Prepare_idempotent:
  assumes "\<And>name sql pg pg' ns sd. op_Prepare ops name sql pg = (pg', ns, Inr sd) \<Longrightarrow> sd_SQL sd = sql"
    and "name \<noteq> []" and "Conn_Prepare ops name sql c = (Inr sd, c')"
  shows "Conn_Prepare ops name sql c' = (Inr sd, c')"
proof -
  have law: "sd_SQL sd = sql" if "snd (snd (op_Prepare ops name sql (pgConn c))) = Inr sd" for sd
    using assms(1) [of name sql "pgConn c"] that by (metis prod.collapse)
  have on: "preparedStatements c' name = Some sd \<and> sd_SQL sd = sql"
    if "prepareOn ops name sql c = (Inr sd, c')"
    using that law assms(2)
    by (auto simp: prepareOn_def sendPg_def onPg_unfold Let_def split: sum.splits if_splits prod.splits)
  have "preparedStatements c' name = Some sd \<and> sd_SQL sd = sql"
    using assms(2,3) on by (auto simp: Conn_Prepare_def split: option.splits if_splits)
  then show ?thesis using assms(2) by (simp add: Conn_Prepare_def)
qed




end
