(* ===== verification/Rows.thy ===== *)
theory Rows
  imports Conn
begin

text \<open>
  \<open>src/rows.go\<close>: the rows of a query. The methods of \<open>connRows\<close> change the rows and, through
  its readers and its logger, the connection, so they take and return both. \<open>None\<close> is a nil
  pointer dereference.
\<close>

subsection \<open>State\<close>

text \<open>
  \<open>r_attached\<close>: the fields \<open>logger\<close>, \<open>connInfo\<close> and \<open>conn\<close> are set, which \<open>getRows\<close> does for all
  three; rows built only to carry an error have none of them.
\<close>

record connRows =
  r_attached :: bool
  r_values :: "bytes option list"
  r_rowCount :: int
  r_err :: "go_error option"
  r_commandTag :: command_tag
  r_sql :: string
  r_args :: "goval list"
  r_closed :: bool
  r_resultReader :: "nat option"
  r_multiResultReader :: "nat option"
  r_scanPlans :: "scan_plan list option"

definition zero_rows :: connRows where
  "zero_rows = \<lparr>r_attached = False, r_values = [], r_rowCount = 0, r_err = None, r_commandTag = [], r_sql = [],
     r_args = [], r_closed = False, r_resultReader = None, r_multiResultReader = None, r_scanPlans = None\<rparr>"

text \<open>\<open>&connRows{closed: true, err: err}\<close>.\<close>

definition error_rows :: "go_error \<Rightarrow> connRows" where
  "error_rows err = zero_rows\<lparr>r_closed := True, r_err := Some err\<rparr>"

definition getRows :: "string \<Rightarrow> goval list \<Rightarrow> 'pg Conn \<Rightarrow> connRows \<times> 'pg Conn" where
  "getRows sql args c =
     (let n = (if preallocatedRows c = 0 then 64 else preallocatedRows c) in
      (zero_rows\<lparr>r_attached := True, r_sql := sql, r_args := args\<rparr>, c\<lparr>preallocatedRows := n - 1\<rparr>))"

subsection \<open>Closing\<close>

definition firstErr :: "go_error option \<Rightarrow> go_error option \<Rightarrow> go_error option" where
  "firstErr err closeErr = (case err of None \<Rightarrow> closeErr | Some e \<Rightarrow> Some e)"

definition rows_closeReader :: "'pg pgconn_ops \<Rightarrow> connRows \<Rightarrow> 'pg Conn \<Rightarrow> connRows \<times> 'pg Conn" where
  "rows_closeReader ops rows c =
     (case r_resultReader rows of
        None \<Rightarrow> (rows, c)
      | Some rr \<Rightarrow> (case onPg (rr_Close ops rr) c of ((tag, closeErr), c) \<Rightarrow>
          (rows\<lparr>r_commandTag := tag, r_err := firstErr (r_err rows) closeErr\<rparr>, c)))"

definition rows_closeMulti :: "'pg pgconn_ops \<Rightarrow> connRows \<Rightarrow> 'pg Conn \<Rightarrow> connRows \<times> 'pg Conn" where
  "rows_closeMulti ops rows c =
     (case r_multiResultReader rows of
        None \<Rightarrow> (rows, c)
      | Some mrr \<Rightarrow> (case onPg (mrr_Close ops mrr) c of (closeErr, c) \<Rightarrow>
          (rows\<lparr>r_err := firstErr (r_err rows) closeErr\<rparr>, c)))"

definition rows_logClose :: "'pg pgconn_ops \<Rightarrow> connRows \<Rightarrow> 'pg Conn \<Rightarrow> 'pg Conn" where
  "rows_logClose ops rows c =
     (if \<not> r_attached rows then c
      else case r_err rows of
        None \<Rightarrow> log_if ops LogLevelInfo ''Query''
          [(''sql'', LString (r_sql rows)), (''args'', LArgs (logQueryArgs (r_args rows))),
           (''rowCount'', LInt (r_rowCount rows))] c
      | Some err \<Rightarrow>
          (let c = log_if ops LogLevelError ''Query''
             [(''err'', LError (Some err)), (''sql'', LString (r_sql rows)),
              (''args'', LArgs (logQueryArgs (r_args rows)))] c
           in case stmtcache c of
                None \<Rightarrow> c
              | Some h \<Rightarrow> snd (onPg (cache_StatementErrored ops h (r_sql rows) err) c)))"

definition rows_Close :: "'pg pgconn_ops \<Rightarrow> connRows \<Rightarrow> 'pg Conn \<Rightarrow> connRows \<times> 'pg Conn" where
  "rows_Close ops rows c =
     (if r_closed rows then (rows, c)
      else case rows_closeReader ops (rows\<lparr>r_closed := True\<rparr>) c of (rows, c) \<Rightarrow>
           (case rows_closeMulti ops rows c of (rows, c) \<Rightarrow> (rows, rows_logClose ops rows c)))"

definition rows_fatal :: "'pg pgconn_ops \<Rightarrow> go_error option \<Rightarrow> connRows \<Rightarrow> 'pg Conn \<Rightarrow> connRows \<times> 'pg Conn" where
  "rows_fatal ops err rows c =
     (if r_err rows \<noteq> None then (rows, c) else rows_Close ops (rows\<lparr>r_err := err\<rparr>) c)"

subsection \<open>Reading\<close>

definition rows_FieldDescriptions :: "'pg pgconn_ops \<Rightarrow> connRows \<Rightarrow> 'pg Conn \<Rightarrow> field_description list option" where
  "rows_FieldDescriptions ops rows c =
     map_option (\<lambda>rr. rr_FieldDescriptions ops rr (pgConn c)) (r_resultReader rows)"

definition rows_Next :: "'pg pgconn_ops \<Rightarrow> connRows \<Rightarrow> 'pg Conn \<Rightarrow> (bool \<times> connRows \<times> 'pg Conn) option" where
  "rows_Next ops rows c =
     (if r_closed rows then Some (False, rows, c)
      else case r_resultReader rows of
        None \<Rightarrow> None
      | Some rr \<Rightarrow> (case onPg (rr_NextRow ops rr) c of (ok, c) \<Rightarrow>
          if ok then Some (True, rows\<lparr>r_rowCount := r_rowCount rows + 1, r_values := rr_Values ops rr (pgConn c)\<rparr>, c)
          else (case rows_Close ops rows c of (rows, c) \<Rightarrow> Some (False, rows, c))))"

text \<open>
  The loop of \<open>Scan\<close> over the destinations: a nil destination is skipped, the others are
  overwritten by their plan, up to the first error.
\<close>

fun scanLoop ::
  "nat \<Rightarrow> scan_plan list \<Rightarrow> field_description list \<Rightarrow> bytes option list \<Rightarrow> goval list \<Rightarrow> go_error option \<times> goval list" where
  "scanLoop i (plan # plans) (fd # fds) (v # vs) (dst # dest) =
     (if dst = GNil then map_prod id ((#) dst) (scanLoop (Suc i) plans fds vs dest)
      else case plan (fd_DataTypeOID fd) (fd_Format fd) v dst of
        Inl err \<Rightarrow> (Some (ScanArgError i err), dst # dest)
      | Inr dst' \<Rightarrow> map_prod id ((#) dst') (scanLoop (Suc i) plans fds vs dest))"
| "scanLoop i _ _ _ dest = (None, dest)"

definition mismatch :: "string \<Rightarrow> nat \<Rightarrow> nat \<Rightarrow> go_error" where
  "mismatch what a b = Errorf (''number of field descriptions must equal number of '' @ what @ '', got ''
     @ FormatInt (int a) @ '' and '' @ FormatInt (int b))"

definition rows_Scan ::
  "'pg pgconn_ops \<Rightarrow> pgtype_env \<Rightarrow> goval list \<Rightarrow> connRows \<Rightarrow> 'pg Conn
     \<Rightarrow> ((go_error option \<times> goval list) \<times> connRows \<times> 'pg Conn) option" where
  "rows_Scan ops env dest rows c =
     (case rows_FieldDescriptions ops rows c of
        None \<Rightarrow> None
      | Some fds \<Rightarrow>
          if length fds \<noteq> length (r_values rows) then
            (let err = mismatch ''values'' (length fds) (length (r_values rows)) in
             Some ((Some err, dest), rows_fatal ops (Some err) rows c))
          else if length fds \<noteq> length dest then
            (let err = mismatch ''destinations'' (length fds) (length dest) in
             Some ((Some err, dest), rows_fatal ops (Some err) rows c))
          else
            (let plans = (case r_scanPlans rows of
                   Some ps \<Rightarrow> ps
                 | None \<Rightarrow> map2 (\<lambda>fd dst. PlanScan env (fd_DataTypeOID fd) (fd_Format fd) dst) fds dest);
                 rows = rows\<lparr>r_scanPlans := Some plans\<rparr>
             in case scanLoop 0 plans fds (r_values rows) dest of
                  (None, dest') \<Rightarrow> Some ((None, dest'), rows, c)
                | (Some err, dest') \<Rightarrow> Some ((Some err, dest'), rows_fatal ops (Some err) rows c)))"

text \<open>
  \<open>connRows.Err\<close>, \<open>CommandTag\<close> and \<open>RawValues\<close>; the text and the cause of an error of \<open>Scan\<close>. The text of
  the error it wraps is an argument.
\<close>

definition rows_Err :: "connRows \<Rightarrow> go_error option" where
  "rows_Err rows = r_err rows"

definition rows_CommandTag :: "connRows \<Rightarrow> command_tag" where
  "rows_CommandTag rows = r_commandTag rows"

definition rows_RawValues :: "connRows \<Rightarrow> bytes option list" where
  "rows_RawValues rows = r_values rows"

fun Unwrap :: "go_error \<Rightarrow> go_error option" where
  "Unwrap (ErrorfW s e) = Some e"
| "Unwrap (ScanArgError i e) = Some e"
| "Unwrap e = None"

fun ScanArgError_Error :: "(go_error \<Rightarrow> string) \<Rightarrow> nat \<Rightarrow> go_error \<Rightarrow> string" where
  "ScanArgError_Error text i err = ''can'' @ [CHR 0x27] @ ''t scan into dest['' @ FormatInt (int i) @ '']: '' @ text err"

lemma errors_Is_Unwrap:
  "errors_Is e t \<longleftrightarrow> e = t \<or> (\<exists>e'. Unwrap e = Some e' \<and> errors_Is e' t)"
  by (cases e) auto

text \<open>\<open>ScanRow\<close>, which is \<open>Scan\<close> without rows.\<close>

definition ScanRow ::
  "pgtype_env \<Rightarrow> field_description list \<Rightarrow> bytes option list \<Rightarrow> goval list \<Rightarrow> go_error option \<times> goval list" where
  "ScanRow env fds values dest =
     (if length fds \<noteq> length values then (Some (mismatch ''values'' (length fds) (length values)), dest)
      else if length fds \<noteq> length dest then (Some (mismatch ''destinations'' (length fds) (length dest)), dest)
      else scanLoop 0 (replicate (length dest) (ConnInfo_Scan env)) fds values dest)"

text \<open>
  Decoding of one column in \<open>Values\<close>. The value of a type that is no binary decoder is the one
  the type was registered with, although the bytes are decoded by a generic decoder.
\<close>

definition decodeGeneric ::
  "(goval \<Rightarrow> (bytes \<Rightarrow> go_error + goval) option) \<Rightarrow> (goval \<Rightarrow> goval) \<Rightarrow> goval \<Rightarrow> bytes \<Rightarrow> (go_error + goval) option" where
  "decodeGeneric decoder get generic buf =
     map_option (\<lambda>decode. case decode buf of Inl err \<Rightarrow> Inl err | Inr v \<Rightarrow> Inr (get v)) (decoder generic)"

definition decodeField :: "pgtype_env \<Rightarrow> field_description \<Rightarrow> bytes \<Rightarrow> (go_error + goval) option" where
  "decodeField env fd buf =
     (let unknown = Some (Inl (Errorf ''Unknown format code'')) in
      case DataTypeForOID env (fd_DataTypeOID fd) of
        Some v \<Rightarrow>
          if fd_Format fd = TextFormatCode then
            (let decoder = (if DecodeText env v \<noteq> None then v else GenericText env) in
             decodeGeneric (DecodeText env) (Value_Get env) decoder buf)
          else if fd_Format fd = BinaryFormatCode then
            (if DecodeBinary env v \<noteq> None then decodeGeneric (DecodeBinary env) (Value_Get env) v buf
             else decodeGeneric (DecodeBinary env) (\<lambda>_. Value_Get env v) (GenericBinary env) buf)
          else unknown
      | None \<Rightarrow>
          if fd_Format fd = TextFormatCode then decodeGeneric (DecodeText env) (Value_Get env) (GenericText env) buf
          else if fd_Format fd = BinaryFormatCode then decodeGeneric (DecodeBinary env) (Value_Get env) (GenericBinary env) buf
          else unknown)"

fun valuesLoop ::
  "'pg pgconn_ops \<Rightarrow> pgtype_env \<Rightarrow> field_description list \<Rightarrow> bytes option list \<Rightarrow> goval list \<Rightarrow> connRows \<Rightarrow> 'pg Conn
     \<Rightarrow> ((go_error + goval list) \<times> connRows \<times> 'pg Conn) option" where
  "valuesLoop ops env [] bufs acc rows c =
     Some (case r_err rows of None \<Rightarrow> Inr acc | Some err \<Rightarrow> Inl err, rows, c)"
| "valuesLoop ops env (fd # fds) [] acc rows c = None"
| "valuesLoop ops env (fd # fds) (None # bufs) acc rows c = valuesLoop ops env fds bufs (acc @ [GNil]) rows c"
| "valuesLoop ops env (fd # fds) (Some buf # bufs) acc rows c =
     (case decodeField env fd buf of
        None \<Rightarrow> None
      | Some r \<Rightarrow>
          (case (case r of Inl err \<Rightarrow> rows_fatal ops (Some err) rows c | Inr _ \<Rightarrow> (rows, c)) of (rows, c) \<Rightarrow>
            (case r_err rows of
               Some err \<Rightarrow> Some (Inl err, rows, c)
             | None \<Rightarrow> (case r of
                 Inl err \<Rightarrow> valuesLoop ops env fds bufs acc rows c
               | Inr v \<Rightarrow> valuesLoop ops env fds bufs (acc @ [v]) rows c))))"

definition rows_Values ::
  "'pg pgconn_ops \<Rightarrow> pgtype_env \<Rightarrow> connRows \<Rightarrow> 'pg Conn \<Rightarrow> ((go_error + goval list) \<times> connRows \<times> 'pg Conn) option" where
  "rows_Values ops env rows c =
     (if r_closed rows then Some (Inl (Errorf ''rows is closed''), rows, c)
      else case rows_FieldDescriptions ops rows c of
        None \<Rightarrow> None
      | Some fds \<Rightarrow> valuesLoop ops env fds (r_values rows) [] rows c)"

subsection \<open>Row\<close>

text \<open>\<open>connRow.Scan\<close>, the result of \<open>QueryRow\<close>.\<close>

definition row_Scan ::
  "'pg pgconn_ops \<Rightarrow> pgtype_env \<Rightarrow> goval list \<Rightarrow> connRows \<Rightarrow> 'pg Conn
     \<Rightarrow> ((go_error option \<times> goval list) \<times> connRows \<times> 'pg Conn) option" where
  "row_Scan ops env dest rows c =
     (if r_err rows \<noteq> None then Some ((r_err rows, dest), rows, c)
      else case rows_Next ops rows c of
        None \<Rightarrow> None
      | Some (False, rows, c) \<Rightarrow>
          Some ((case r_err rows of None \<Rightarrow> Some ErrNoRows | Some err \<Rightarrow> Some err, dest), rows, c)
      | Some (True, rows, c) \<Rightarrow>
          (case rows_Scan ops env dest rows c of
             None \<Rightarrow> None
           | Some ((_, dest'), rows, c) \<Rightarrow>
               (case rows_Close ops rows c of (rows, c) \<Rightarrow> Some ((r_err rows, dest'), rows, c))))"

subsection \<open>Lemmas\<close>

lemma firstErr_simps [simp]: "firstErr None e = e" "firstErr (Some x) e = Some x"
  by (simp_all add: firstErr_def)

lemma rows_closeReader_keeps [simp]:
  "r_closed (fst (rows_closeReader ops rows c)) = r_closed rows"
  "r_attached (fst (rows_closeReader ops rows c)) = r_attached rows"
  "r_rowCount (fst (rows_closeReader ops rows c)) = r_rowCount rows"
  "r_multiResultReader (fst (rows_closeReader ops rows c)) = r_multiResultReader rows"
  "r_resultReader (fst (rows_closeReader ops rows c)) = r_resultReader rows"
  "r_err rows = Some e \<Longrightarrow> r_err (fst (rows_closeReader ops rows c)) = Some e"
  "sent (snd (rows_closeReader ops rows c)) = sent c"
  by (simp_all add: rows_closeReader_def case_prod_unfold split: option.split)

lemma rows_closeMulti_keeps [simp]:
  "r_closed (fst (rows_closeMulti ops rows c)) = r_closed rows"
  "r_attached (fst (rows_closeMulti ops rows c)) = r_attached rows"
  "r_rowCount (fst (rows_closeMulti ops rows c)) = r_rowCount rows"
  "r_commandTag (fst (rows_closeMulti ops rows c)) = r_commandTag rows"
  "r_err rows = Some e \<Longrightarrow> r_err (fst (rows_closeMulti ops rows c)) = Some e"
  "sent (snd (rows_closeMulti ops rows c)) = sent c"
  by (simp_all add: rows_closeMulti_def case_prod_unfold split: option.split)

lemma rows_logClose_sent [simp]: "sent (rows_logClose ops rows c) = sent c"
  by (auto simp: rows_logClose_def Let_def split: option.splits)

lemma rows_Close_closed [simp]: "r_closed (fst (rows_Close ops rows c))"
  by (simp add: rows_Close_def case_prod_unfold)

lemma rows_Close_again: "r_closed rows \<Longrightarrow> rows_Close ops rows c = (rows, c)"
  by (simp add: rows_Close_def)

lemma rows_Close_err: "r_err rows = Some e \<Longrightarrow> r_err (fst (rows_Close ops rows c)) = Some e"
  by (simp add: rows_Close_def case_prod_unfold)

lemma rows_Close_sent [simp]: "sent (snd (rows_Close ops rows c)) = sent c"
  by (simp add: rows_Close_def case_prod_unfold)

lemma rows_fatal_closed: "r_err rows = None \<Longrightarrow> r_closed (fst (rows_fatal ops err rows c))"
  by (simp add: rows_fatal_def)

lemma rows_fatal_later: "r_err rows \<noteq> None \<Longrightarrow> rows_fatal ops err rows c = (rows, c)"
  by (simp add: rows_fatal_def)

lemma rows_fatal_err: "r_err (fst (rows_fatal ops (Some e) rows c)) = Some (case r_err rows of None \<Rightarrow> e | Some e' \<Rightarrow> e')"
  by (simp add: rows_fatal_def rows_Close_err split: option.split)

lemma rows_Close_closedD: "rows_Close ops rows c = (rows', c') \<Longrightarrow> r_closed rows'"
  using rows_Close_closed [of ops rows c] by simp

lemma rows_Next_end: "rows_Next ops rows c = Some (False, rows', c') \<Longrightarrow> r_closed rows'"
  by (auto simp: rows_Next_def case_prod_unfold dest: rows_Close_closedD split: if_splits option.splits)

lemma rows_Next_closed: "r_closed rows \<Longrightarrow> rows_Next ops rows c = Some (False, rows, c)"
  by (simp add: rows_Next_def)

subsection \<open>The interface\<close>

text \<open>
  What the interface \<open>Rows\<close> promises of closing: it can be repeated, it ends the iteration, and
  it keeps an error that has occurred.
\<close>

locale closable_rows =
  fixes close :: "'s \<Rightarrow> 's" and next_row :: "'s \<Rightarrow> (bool \<times> 's) option"
    and closed :: "'s \<Rightarrow> bool" and err :: "'s \<Rightarrow> go_error option"
  assumes close_closed: "closed (close s)"
    and close_again: "closed s \<Longrightarrow> close s = s"
    and next_closed: "closed s \<Longrightarrow> next_row s = Some (False, s)"
    and next_end: "next_row s = Some (False, s') \<Longrightarrow> closed s'"
    and close_err: "err s = Some e \<Longrightarrow> err (close s) = Some e"
begin

lemma close_idem: "close (close s) = close s"
  by (simp add: close_again close_closed)

lemma inert:
  assumes "closed s"
  shows "fold (\<lambda>again s. if again then close s else snd (the (next_row s))) calls s = s"
  by (induction calls) (simp_all add: assms close_again next_closed)

lemma inert_after_close:
  "fold (\<lambda>again s. if again then close s else snd (the (next_row s))) calls (close s) = close s"
  by (rule inert [OF close_closed])

lemma close_after_end: "next_row s = Some (False, s') \<Longrightarrow> close s' = s'"
  by (rule close_again [OF next_end])

end

interpretation conn_rows: closable_rows
  "\<lambda>(rows, c). rows_Close ops rows c" "\<lambda>(rows, c). rows_Next ops rows c" "\<lambda>(rows, c). r_closed rows"
  "\<lambda>(rows, c). r_err rows"
  by unfold_locales (auto simp: rows_Close_again rows_Next_closed case_prod_unfold rows_Close_err dest: rows_Next_end)

subsection \<open>Scanning\<close>

lemma scanLoop_length [simp]: "length (snd (scanLoop i plans fds vs dest)) = length dest"
  by (induction i plans fds vs dest rule: scanLoop.induct) (auto split: sum.split)

text \<open>
  The error names the first column whose destination could not be scanned into; the later
  destinations keep their values.
\<close>

lemma scanLoop_error:
  "scanLoop i plans fds vs dest = (Some err, dest') \<Longrightarrow>
     \<exists>k e. err = ScanArgError (i + k) e \<and> k < length dest \<and> drop k dest' = drop k dest"
proof (induction i plans fds vs dest arbitrary: dest' rule: scanLoop.induct)
  case (1 i plan plans fd fds v vs dst dest)
  note IH = "1.IH"
  have rec: "\<exists>k e. err = ScanArgError (i + k) e \<and> k < length (dst # dest) \<and> drop k dest' = drop k (dst # dest)"
    if r: "scanLoop (Suc i) plans fds vs dest = (Some err, tail)" "dest' = x # tail"
      and ih: "\<exists>k e. err = ScanArgError (Suc i + k) e \<and> k < length dest \<and> drop k tail = drop k dest" for x tail
  proof -
    obtain k e where "err = ScanArgError (Suc i + k) e" "k < length dest" "drop k tail = drop k dest"
      using ih by blast
    with r show ?thesis by (intro exI [of _ "Suc k"] exI [of _ e]) simp
  qed
  show ?case
  proof (cases "dst = GNil")
    case True
    with "1.prems" obtain tail where t: "scanLoop (Suc i) plans fds vs dest = (Some err, tail)" "dest' = dst # tail"
      by (auto simp: map_prod_def split: prod.splits)
    show ?thesis by (rule rec [OF t IH(1) [OF True t(1)]])
  next
    case False
    show ?thesis
    proof (cases "plan (fd_DataTypeOID fd) (fd_Format fd) v dst")
      case (Inl e)
      with False "1.prems" show ?thesis by (intro exI [of _ 0]) auto
    next
      case (Inr dst')
      with False "1.prems" obtain tail where t: "scanLoop (Suc i) plans fds vs dest = (Some err, tail)" "dest' = dst' # tail"
        by (auto simp: map_prod_def split: prod.splits)
      show ?thesis by (rule rec [OF t IH(2) [OF False Inr t(1)]])
    qed
  qed
qed auto

lemma scanLoop_plans:
  "length plans = length dest \<Longrightarrow> length plans' = length dest \<Longrightarrow> length fds = length dest \<Longrightarrow> length vs = length dest \<Longrightarrow>
   (\<And>k v. k < length dest \<Longrightarrow> (plans ! k) (fd_DataTypeOID (fds ! k)) (fd_Format (fds ! k)) v (dest ! k)
      = (plans' ! k) (fd_DataTypeOID (fds ! k)) (fd_Format (fds ! k)) v (dest ! k)) \<Longrightarrow>
   scanLoop i plans fds vs dest = scanLoop i plans' fds vs dest"
proof (induction dest arbitrary: i plans plans' fds vs)
  case (Cons dst dest)
  then obtain p ps p' ps' fd fs v ws where l: "plans = p # ps" "plans' = p' # ps'" "fds = fd # fs" "vs = v # ws"
    by (metis length_Suc_conv)
  have "scanLoop (Suc i) ps fs ws dest = scanLoop (Suc i) ps' fs ws dest"
  proof (rule Cons.IH)
    fix k u assume "k < length dest"
    then show "(ps ! k) (fd_DataTypeOID (fs ! k)) (fd_Format (fs ! k)) u (dest ! k)
      = (ps' ! k) (fd_DataTypeOID (fs ! k)) (fd_Format (fs ! k)) u (dest ! k)"
      using Cons.prems(5) [of "Suc k" u] l by simp
  qed (use Cons.prems l in auto)
  moreover have "p (fd_DataTypeOID fd) (fd_Format fd) v dst = p' (fd_DataTypeOID fd) (fd_Format fd) v dst"
    using Cons.prems(5) [of 0 v] l by simp
  ultimately show ?case using l by (simp split: sum.split)
qed simp

lemma mismatch_not_arg [simp]: "mismatch what a b \<noteq> ScanArgError k e" "ScanArgError k e \<noteq> mismatch what a b"
  by (simp_all add: mismatch_def)

lemma rows_Scan_error:
  assumes "rows_Scan ops env dest rows c = Some ((Some err, dest'), rows', c')"
  shows "r_err rows' = Some (case r_err rows of None \<Rightarrow> err | Some e \<Rightarrow> e) \<and> (r_err rows = None \<longrightarrow> r_closed rows')"
proof -
  have "\<exists>rs. rows_fatal ops (Some err) rs c = (rows', c') \<and> r_err rs = r_err rows"
    using assms by (auto simp: rows_Scan_def Let_def split: option.splits if_splits prod.splits)
  then obtain rs where "rows_fatal ops (Some err) rs c = (rows', c')" "r_err rs = r_err rows" by blast
  then show ?thesis
    using rows_fatal_err [of ops err rs c] rows_fatal_closed [of rs ops "Some err" c] by simp
qed

definition demo_rows :: connRows where
  "demo_rows = zero_rows\<lparr>r_attached := True, r_resultReader := Some 0\<rparr>"

subsection \<open>Properties\<close>

text \<open>
  C21. Closing is final: after \<open>Close\<close>, any sequence of calls of \<open>Close\<close> and \<open>Next\<close> leaves the
  rows and the connection exactly as the first \<open>Close\<close> left them, so no reader is closed twice
  and no statement error is reported twice.
\<close>

theorem rows_Close_final:
  "fold (\<lambda>again (rows, c). if again then rows_Close ops rows c else snd (the (rows_Next ops rows c)))
     calls (rows_Close ops rows c) = rows_Close ops rows c"
proof -
  have "(\<lambda>again (rows, c). if again then rows_Close ops rows c else snd (the (rows_Next ops rows c)))
      = (\<lambda>again s. if again then (case s of (rows, c) \<Rightarrow> rows_Close ops rows c)
          else snd (the (case s of (rows, c) \<Rightarrow> rows_Next ops rows c)))"
    by (intro ext) (simp add: case_prod_unfold)
  then show ?thesis using conn_rows.inert_after_close [of ops calls "(rows, c)"] by simp
qed

text \<open>
  C22. Errors of \<open>Scan\<close> are kept: when \<open>Scan\<close> returns an error on rows without one, the rows are
  closed and \<open>Err\<close> returns that error from then on; an earlier error is not replaced. A
  \<open>ScanArgError\<close> names the first destination that failed, and the later ones are untouched.
\<close>

theorem rows_Scan_sticky:
  assumes "rows_Scan ops env dest rows c = Some ((Some err, dest'), rows', c')"
  shows "r_err rows' = Some (case r_err rows of None \<Rightarrow> err | Some e \<Rightarrow> e)
    \<and> (r_err rows = None \<longrightarrow> r_closed rows')
    \<and> (\<forall>k e. err = ScanArgError k e \<longrightarrow> k < length dest \<and> drop k dest' = drop k dest)"
proof -
  have "k < length dest \<and> drop k dest' = drop k dest" if "err = ScanArgError k e" for k e
  proof -
    note arg = that
    obtain plans fds where "scanLoop 0 plans fds (r_values rows) dest = (Some err, dest')"
      using assms arg
      by (auto simp: rows_Scan_def Let_def split: option.splits if_splits prod.splits)
    from scanLoop_error [OF this] arg show ?thesis by auto
  qed
  with rows_Scan_error [OF assms] show ?thesis by simp
qed

theorem rows_Scan_sticky_witness:
  "r_err (fst (rows_fatal demo_ops (Some (mismatch ''destinations'' 0 1)) demo_rows demo_conn))
     = Some (mismatch ''destinations'' 0 1)"
proof -
  let ?r = "rows_fatal demo_ops (Some (mismatch ''destinations'' 0 1)) demo_rows demo_conn"
  have "rows_Scan demo_ops bare_env [GNil] demo_rows demo_conn
      = Some ((Some (mismatch ''destinations'' 0 1), [GNil]), fst ?r, snd ?r)"
    by (simp add: rows_Scan_def rows_FieldDescriptions_def demo_rows_def zero_rows_def demo_ops_def Let_def)
  from rows_Scan_sticky [OF this] show ?thesis by (simp add: demo_rows_def zero_rows_def)
qed



text \<open>
  C24. \<open>QueryRow(...).Scan\<close> always releases the connection: if the query did not fail before, the
  rows are closed when it returns; the result is \<open>ErrNoRows\<close> when the first \<open>Next\<close> finds no row
  and no error.
\<close>

theorem row_Scan_closes:
  assumes "row_Scan ops env dest rows c = Some ((res, dest'), rows', c')" and "r_err rows = None"
  shows "r_closed rows' \<and>
    (\<forall>rows1 c1. rows_Next ops rows c = Some (False, rows1, c1) \<longrightarrow> dest' = dest \<and>
       res = (case r_err rows1 of None \<Rightarrow> Some ErrNoRows | Some e \<Rightarrow> Some e))"
  using assms
  by (auto simp: row_Scan_def case_prod_unfold dest: rows_Next_end rows_Close_closedD
      split: option.splits prod.splits bool.splits)

theorem row_Scan_closes_witness:
  "r_closed (fst (rows_Close demo_ops demo_rows demo_conn))"
proof -
  let ?r = "rows_Close demo_ops demo_rows demo_conn"
  have n: "onPg (rr_NextRow demo_ops 0) demo_conn = (False, demo_conn)"
    by (simp add: onPg_unfold demo_ops_def demo_conn_def)
  have "row_Scan demo_ops bare_env [] demo_rows demo_conn
      = Some ((case r_err (fst ?r) of None \<Rightarrow> Some ErrNoRows | Some e \<Rightarrow> Some e, []), fst ?r, snd ?r)"
    using n by (simp add: row_Scan_def rows_Next_def demo_rows_def zero_rows_def case_prod_unfold split: option.split)
  from row_Scan_closes [OF this] show ?thesis by (simp add: demo_rows_def zero_rows_def)
qed

end
