(* ===== verification/Conn_Query.thy ===== *)
theory Conn_Query
  imports Rows
begin

text \<open>
  Execution of queries in \<open>src/conn.go\<close>: \<open>Exec\<close> and its protocols, \<open>Query\<close>, \<open>QueryRow\<close>,
  \<open>QueryFunc\<close>, \<open>Ping\<close> and the preparation of text for the simple protocol.

  \<open>convertDriverValuers\<close> overwrites the slice of arguments, which the callers log afterwards, so
  the operations also return the arguments as they leave them.
\<close>

text \<open>The surroundings of a connection: \<open>pgconn\<close>, \<open>pgtype\<close> and \<open>strconv.FormatFloat\<close>.\<close>

record 'pg surroundings =
  s_ops :: "'pg pgconn_ops"
  s_env :: pgtype_env
  s_ff :: "gofloat \<Rightarrow> string"

subsection \<open>The simple protocol\<close>

definition sanitizeForSimpleQuery ::
  "'pg surroundings \<Rightarrow> string \<Rightarrow> goval list \<Rightarrow> 'pg Conn \<Rightarrow> (go_error + string) option" where
  "sanitizeForSimpleQuery sy sql args c =
     (if op_ParameterStatus (s_ops sy) (pgConn c) ''standard_conforming_strings'' \<noteq> ''on'' then
        Some (Inl (Errorf ''simple protocol queries must be run with standard_conforming_strings=on''))
      else if op_ParameterStatus (s_ops sy) (pgConn c) ''client_encoding'' \<noteq> ''UTF8'' then
        Some (Inl (Errorf ''simple protocol queries must be run with client_encoding=UTF8''))
      else case convertSimpleArguments (s_env sy) args of
        None \<Rightarrow> None
      | Some (Inl err) \<Rightarrow> Some (Inl err)
      | Some (Inr valueArgs) \<Rightarrow>
          (case SanitizeSQL (s_ff sy) sql valueArgs of
             Panic \<Rightarrow> None
           | Err err \<Rightarrow> Some (Inl err)
           | Ret out \<Rightarrow> Some (Inr out)))"

text \<open>\<open>for mrr.NextResult() { commandTag, err = mrr.ResultReader().Close() }\<close>\<close>

partial_function (option) drainResults ::
  "'pg pgconn_ops \<Rightarrow> nat \<Rightarrow> command_tag \<Rightarrow> 'pg Conn \<Rightarrow> (command_tag \<times> 'pg Conn) option" where
  "drainResults ops mrr tag c =
     (case onPg (mrr_NextResult ops mrr) c of (ok, c1) \<Rightarrow>
        if ok then
          (case onPg (rr_Close ops (mrr_ResultReader ops mrr (pgConn c1))) c1 of (r, c2) \<Rightarrow>
             drainResults ops mrr (fst r) c2)
        else Some (tag, c1))"

type_synonym exec_result = "command_tag \<times> go_error option"

definition execSimpleProtocol ::
  "'pg surroundings \<Rightarrow> string \<Rightarrow> goval list \<Rightarrow> 'pg Conn \<Rightarrow> (exec_result \<times> 'pg Conn) option" where
  "execSimpleProtocol sy sql args c =
     (case (if args \<noteq> [] then sanitizeForSimpleQuery sy sql args c else Some (Inr sql)) of
        None \<Rightarrow> None
      | Some (Inl err) \<Rightarrow> Some (([], Some err), c)
      | Some (Inr sql) \<Rightarrow>
          (case sendPg (PgExec sql) (op_Exec (s_ops sy) sql) c of (mrr, c) \<Rightarrow>
             (case drainResults (s_ops sy) mrr [] c of
                None \<Rightarrow> None
              | Some (tag, c) \<Rightarrow> (case onPg (mrr_Close (s_ops sy) mrr) c of (err, c) \<Rightarrow> Some ((tag, err), c)))))"

subsection \<open>The extended protocol\<close>

definition argCountError :: "nat \<Rightarrow> nat \<Rightarrow> go_error" where
  "argCountError expected got =
     Errorf (''expected '' @ FormatInt (int expected) @ '' arguments, got '' @ FormatInt (int got))"

definition execParamsAndPreparedPrefix ::
  "'pg surroundings \<Rightarrow> statement_description \<Rightarrow> goval list \<Rightarrow> 'pg Conn
     \<Rightarrow> (go_error option \<times> goval list \<times> 'pg Conn) option" where
  "execParamsAndPreparedPrefix sy sd args c =
     (if length (sd_ParamOIDs sd) \<noteq> length args then
        Some (Some (argCountError (length (sd_ParamOIDs sd)) (length args)), args, c)
      else
        case convertDriverValuers (s_env sy) args of
          (Some err, args) \<Rightarrow> Some (Some err, args, c\<lparr>c_eqb := eqb_Reset (c_eqb c)\<rparr>)
        | (None, args) \<Rightarrow>
            (case eqb_AppendParams (s_env sy) (sd_ParamOIDs sd) args (eqb_Reset (c_eqb c)) of
               None \<Rightarrow> None
             | Some (Some err, eqb) \<Rightarrow> Some (Some err, args, c\<lparr>c_eqb := eqb\<rparr>)
             | Some (None, eqb) \<Rightarrow> Some (None, args, c\<lparr>c_eqb :=
                 eqb_AppendResultFormats (s_env sy) (map fd_DataTypeOID (sd_Fields sd)) eqb\<rparr>)))"

definition resetEqb :: "'pg Conn \<Rightarrow> 'pg Conn" where
  "resetEqb c = c\<lparr>c_eqb := eqb_Reset (c_eqb c)\<rparr>"

definition sendExecParams ::
  "'pg pgconn_ops \<Rightarrow> string \<Rightarrow> oid list \<Rightarrow> format list \<Rightarrow> 'pg Conn \<Rightarrow> nat \<times> 'pg Conn" where
  "sendExecParams ops sql oids rfs c =
     (let vs = paramValues (c_eqb c); fs = paramFormats (c_eqb c) in
      sendPg (PgExecParams sql vs oids fs rfs) (op_ExecParams ops sql vs oids fs rfs) c)"

definition sendExecPrepared ::
  "'pg pgconn_ops \<Rightarrow> string \<Rightarrow> format list \<Rightarrow> 'pg Conn \<Rightarrow> nat \<times> 'pg Conn" where
  "sendExecPrepared ops name rfs c =
     (let vs = paramValues (c_eqb c); fs = paramFormats (c_eqb c) in
      sendPg (PgExecPrepared name vs fs rfs) (op_ExecPrepared ops name vs fs rfs) c)"

definition execParams ::
  "'pg surroundings \<Rightarrow> statement_description \<Rightarrow> goval list \<Rightarrow> 'pg Conn
     \<Rightarrow> (exec_result \<times> goval list \<times> 'pg Conn) option" where
  "execParams sy sd args c =
     (case execParamsAndPreparedPrefix sy sd args c of
        None \<Rightarrow> None
      | Some (Some err, args, c) \<Rightarrow> Some (([], Some err), args, c)
      | Some (None, args, c) \<Rightarrow>
          (case sendExecParams (s_ops sy) (sd_SQL sd) (sd_ParamOIDs sd) (resultFormats (c_eqb c)) c of (rr, c) \<Rightarrow>
             (case onPg (rr_Read (s_ops sy) rr) c of (result, c) \<Rightarrow> Some (result, args, resetEqb c))))"

definition execPrepared ::
  "'pg surroundings \<Rightarrow> statement_description \<Rightarrow> goval list \<Rightarrow> 'pg Conn
     \<Rightarrow> (exec_result \<times> goval list \<times> 'pg Conn) option" where
  "execPrepared sy sd args c =
     (case execParamsAndPreparedPrefix sy sd args c of
        None \<Rightarrow> None
      | Some (Some err, args, c) \<Rightarrow> Some (([], Some err), args, c)
      | Some (None, args, c) \<Rightarrow>
          (case sendExecPrepared (s_ops sy) (sd_Name sd) (resultFormats (c_eqb c)) c of (rr, c) \<Rightarrow>
             (case onPg (rr_Read (s_ops sy) rr) c of (result, c) \<Rightarrow> Some (result, args, resetEqb c))))"

definition cacheGet ::
  "'pg pgconn_ops \<Rightarrow> nat \<Rightarrow> string \<Rightarrow> 'pg Conn \<Rightarrow> (go_error + statement_description) \<times> 'pg Conn" where
  "cacheGet ops h sql c = sendPg (PgCacheGet sql) (cache_Get ops h sql) c"

subsection \<open>Exec\<close>

fun execOptions :: "bool \<Rightarrow> goval list \<Rightarrow> bool \<times> goval list" where
  "execOptions simpleProtocol (GQuerySimpleProtocol arg # arguments) = execOptions arg arguments"
| "execOptions simpleProtocol arguments = (simpleProtocol, arguments)"

definition exec ::
  "'pg surroundings \<Rightarrow> string \<Rightarrow> goval list \<Rightarrow> 'pg Conn \<Rightarrow> (exec_result \<times> goval list \<times> 'pg Conn) option" where
  "exec sy sql arguments c =
     (case execOptions (cfg_PreferSimpleProtocol c) arguments of (simpleProtocol, args) \<Rightarrow>
      (case preparedStatements c sql of
         Some sd \<Rightarrow> execPrepared sy sd args c
       | None \<Rightarrow>
           if simpleProtocol \<or> args = [] then
             map_option (\<lambda>(r, c). (r, args, c)) (execSimpleProtocol sy sql args c)
           else case stmtcache c of
             Some h \<Rightarrow>
               (case cacheGet (s_ops sy) h sql c of
                  (Inl err, c) \<Rightarrow> Some (([], Some err), args, c)
                | (Inr sd, c) \<Rightarrow>
                    if cache_Mode (s_ops sy) h (pgConn c) = ModeDescribe then execParams sy sd args c
                    else execPrepared sy sd args c)
           | None \<Rightarrow>
               (case Conn_Prepare (s_ops sy) [] sql c of
                  (Inl err, c) \<Rightarrow> Some (([], Some err), args, c)
                | (Inr sd, c) \<Rightarrow> execPrepared sy sd args c)))"

text \<open>The arguments that \<open>Exec\<close> logs: the options, and the others as \<open>exec\<close> left them.\<close>

definition loggedArgs :: "goval list \<Rightarrow> goval list \<Rightarrow> goval list" where
  "loggedArgs arguments args = take (length arguments - length args) arguments @ args"

definition Conn_Exec ::
  "'pg surroundings \<Rightarrow> string \<Rightarrow> goval list \<Rightarrow> 'pg Conn \<Rightarrow> (exec_result \<times> 'pg Conn) option" where
  "Conn_Exec sy sql arguments c =
     (case exec sy sql arguments c of
        None \<Rightarrow> None
      | Some ((tag, err), args, c) \<Rightarrow>
          (let la = (''args'', LArgs (logQueryArgs (loggedArgs arguments args))) in
           case err of
             Some e \<Rightarrow> Some ((tag, err), log_if (s_ops sy) LogLevelError ''Exec''
               [(''sql'', LString sql), la, (''err'', LError err)] c)
           | None \<Rightarrow> Some ((tag, err), log_if (s_ops sy) LogLevelInfo ''Exec''
               [(''sql'', LString sql), la, (''commandTag'', LString tag)] c)))"

definition Ping :: "'pg surroundings \<Rightarrow> 'pg Conn \<Rightarrow> (go_error option \<times> 'pg Conn) option" where
  "Ping sy c = map_option (\<lambda>((_, err), c). (err, c)) (Conn_Exec sy '';'' [] c)"

subsection \<open>Query\<close>

record query_options =
  q_resultFormats :: "format list option"
  q_resultFormatsByOID :: "(oid \<times> format) list option"
  q_simpleProtocol :: bool

fun queryOptions :: "query_options \<Rightarrow> goval list \<Rightarrow> query_options \<times> goval list" where
  "queryOptions q (GQueryResultFormats arg # args) = queryOptions (q\<lparr>q_resultFormats := arg\<rparr>) args"
| "queryOptions q (GQueryResultFormatsByOID arg # args) = queryOptions (q\<lparr>q_resultFormatsByOID := arg\<rparr>) args"
| "queryOptions q (GQuerySimpleProtocol arg # args) = queryOptions (q\<lparr>q_simpleProtocol := arg\<rparr>) args"
| "queryOptions q args = (q, args)"

type_synonym 'pg query_result = "(connRows \<times> go_error option) \<times> 'pg Conn"

definition failRows :: "'pg pgconn_ops \<Rightarrow> go_error option \<Rightarrow> connRows \<Rightarrow> 'pg Conn \<Rightarrow> 'pg query_result" where
  "failRows ops err rows c = (case rows_fatal ops err rows c of (rows, c) \<Rightarrow> ((rows, r_err rows), c))"

definition querySimple ::
  "'pg surroundings \<Rightarrow> string \<Rightarrow> goval list \<Rightarrow> connRows \<Rightarrow> 'pg Conn \<Rightarrow> 'pg query_result option" where
  "querySimple sy sql args rows c =
     (case sanitizeForSimpleQuery sy sql args c of
        None \<Rightarrow> None
      | Some (Inl err) \<Rightarrow> (case rows_fatal (s_ops sy) (Some err) rows c of (rows, c) \<Rightarrow> Some ((rows, Some err), c))
      | Some (Inr sql) \<Rightarrow>
          (case sendPg (PgExec sql) (op_Exec (s_ops sy) sql) c of (mrr, c) \<Rightarrow>
           (case onPg (mrr_NextResult (s_ops sy) mrr) c of (ok, c) \<Rightarrow>
             if ok then
               Some ((rows\<lparr>r_resultReader := Some (mrr_ResultReader (s_ops sy) mrr (pgConn c)),
                 r_multiResultReader := Some mrr\<rparr>, None), c)
             else
               (case onPg (mrr_Close (s_ops sy) mrr) c of (err, c) \<Rightarrow>
                (case rows_fatal (s_ops sy) err rows c of (rows, c) \<Rightarrow> Some ((rows, err), c))))))"

text \<open>The description of the statement: prepared by name, from the cache, or prepared now.\<close>

definition queryDescribe ::
  "'pg pgconn_ops \<Rightarrow> string \<Rightarrow> 'pg Conn \<Rightarrow> (go_error + statement_description) \<times> 'pg Conn" where
  "queryDescribe ops sql c =
     (case preparedStatements c sql of
        Some sd \<Rightarrow> (Inr sd, c)
      | None \<Rightarrow> (case stmtcache c of
          Some h \<Rightarrow> cacheGet ops h sql c
        | None \<Rightarrow> sendPg (PgPrepare [] sql) (op_Prepare ops [] sql) c))"

definition formatsFor :: "(oid \<times> format) list \<Rightarrow> statement_description \<Rightarrow> format list" where
  "formatsFor byOID sd =
     map (\<lambda>fd. case map_of byOID (fd_DataTypeOID fd) of None \<Rightarrow> 0 | Some f \<Rightarrow> f) (sd_Fields sd)"

text \<open>From the parameters in the builder to the reader of the result.\<close>

definition queryExecute ::
  "'pg surroundings \<Rightarrow> string \<Rightarrow> query_options \<Rightarrow> statement_description \<Rightarrow> connRows \<Rightarrow> 'pg Conn \<Rightarrow> 'pg query_result" where
  "queryExecute sy sql q sd rows c =
     (let resultFormats0 = (case q_resultFormatsByOID q of
            Some byOID \<Rightarrow> Some (formatsFor byOID sd)
          | None \<Rightarrow> q_resultFormats q);
          c = (if resultFormats0 = None
               then c\<lparr>c_eqb := eqb_AppendResultFormats (s_env sy) (map fd_DataTypeOID (sd_Fields sd)) (c_eqb c)\<rparr>
               else c);
          rfs = (case resultFormats0 of Some f \<Rightarrow> f | None \<Rightarrow> resultFormats (c_eqb c));
          describe = (case stmtcache c of None \<Rightarrow> False | Some h \<Rightarrow> cache_Mode (s_ops sy) h (pgConn c) = ModeDescribe)
      in case (if describe then sendExecParams (s_ops sy) sql (sd_ParamOIDs sd) rfs c
               else sendExecPrepared (s_ops sy) (sd_Name sd) rfs c) of (rr, c) \<Rightarrow>
           ((rows\<lparr>r_resultReader := Some rr\<rparr>, r_err rows), resetEqb c))"

definition queryExtended ::
  "'pg surroundings \<Rightarrow> string \<Rightarrow> query_options \<Rightarrow> goval list \<Rightarrow> connRows \<Rightarrow> 'pg Conn \<Rightarrow> 'pg query_result option" where
  "queryExtended sy sql q args rows c =
     (case queryDescribe (s_ops sy) sql (resetEqb c) of
        (Inl err, c) \<Rightarrow> Some (failRows (s_ops sy) (Some err) rows c)
      | (Inr sd, c) \<Rightarrow>
          if length (sd_ParamOIDs sd) \<noteq> length args then
            Some (failRows (s_ops sy) (Some (argCountError (length (sd_ParamOIDs sd)) (length args))) rows c)
          else
            (case convertDriverValuers (s_env sy) args of (verr, args) \<Rightarrow>
             (let rows = rows\<lparr>r_sql := sd_SQL sd, r_args := args\<rparr> in
              case verr of
                Some err \<Rightarrow> Some (failRows (s_ops sy) (Some err) rows c)
              | None \<Rightarrow>
                  (case eqb_AppendParams (s_env sy) (sd_ParamOIDs sd) args (c_eqb c) of
                     None \<Rightarrow> None
                   | Some (Some err, eqb) \<Rightarrow> Some (failRows (s_ops sy) (Some err) rows (c\<lparr>c_eqb := eqb\<rparr>))
                   | Some (None, eqb) \<Rightarrow> Some (queryExecute sy sql q sd rows (c\<lparr>c_eqb := eqb\<rparr>))))))"

definition Conn_Query ::
  "'pg surroundings \<Rightarrow> string \<Rightarrow> goval list \<Rightarrow> 'pg Conn \<Rightarrow> 'pg query_result option" where
  "Conn_Query sy sql arguments c =
     (case queryOptions \<lparr>q_resultFormats = None, q_resultFormatsByOID = None,
             q_simpleProtocol = cfg_PreferSimpleProtocol c\<rparr> arguments of (q, args) \<Rightarrow>
      (case getRows sql args c of (rows, c) \<Rightarrow>
        if q_simpleProtocol q \<and> preparedStatements c sql = None then querySimple sy sql args rows c
        else queryExtended sy sql q args rows c))"

definition Conn_QueryRow :: "'pg surroundings \<Rightarrow> string \<Rightarrow> goval list \<Rightarrow> 'pg Conn \<Rightarrow> (connRows \<times> 'pg Conn) option" where
  "Conn_QueryRow sy sql arguments c = map_option (\<lambda>((rows, _), c). (rows, c)) (Conn_Query sy sql arguments c)"

subsection \<open>QueryFunc\<close>

text \<open>
  The callback reads the rows and the scanned destinations and works on a state of its own.
  The loop ends with the error it returns, the scans, and the states.
\<close>

type_synonym 'u callback = "connRows \<Rightarrow> goval list \<Rightarrow> 'u \<Rightarrow> go_error option \<times> 'u"

partial_function (option) queryFuncLoop ::
  "'pg surroundings \<Rightarrow> 'u callback \<Rightarrow> goval list \<Rightarrow> connRows \<Rightarrow> 'pg Conn \<Rightarrow> 'u
     \<Rightarrow> (go_error option \<times> connRows \<times> 'pg Conn \<times> 'u) option" where
  "queryFuncLoop sy f scans rows c u =
     Option.bind (rows_Next (s_ops sy) rows c) (\<lambda>(ok, rows, c).
       if \<not> ok then Some (None, rows, c, u)
       else Option.bind (rows_Scan (s_ops sy) (s_env sy) scans rows c) (\<lambda>((err, scans), rows, c).
         if err \<noteq> None then Some (err, rows, c, u)
         else (case f rows scans u of (err, u) \<Rightarrow>
           if err \<noteq> None then Some (err, rows, c, u) else queryFuncLoop sy f scans rows c u)))"

text \<open>The body of \<open>QueryFunc\<close> after the query, and its deferred \<open>Close\<close>.\<close>

definition runQueryFunc ::
  "'pg surroundings \<Rightarrow> 'u callback \<Rightarrow> goval list \<Rightarrow> connRows \<Rightarrow> 'pg Conn \<Rightarrow> 'u
     \<Rightarrow> (exec_result \<times> connRows \<times> 'pg Conn \<times> 'u) option" where
  "runQueryFunc sy f scans rows c u =
     map_option (\<lambda>(err, rows, c, u).
       let result = (case err of
             Some e \<Rightarrow> ([], Some e)
           | None \<Rightarrow> (case r_err rows of Some e \<Rightarrow> ([], Some e) | None \<Rightarrow> (r_commandTag rows, None)))
       in case rows_Close (s_ops sy) rows c of (rows, c) \<Rightarrow> (result, rows, c, u))
     (queryFuncLoop sy f scans rows c u)"

definition Conn_QueryFunc ::
  "'pg surroundings \<Rightarrow> string \<Rightarrow> goval list \<Rightarrow> goval list \<Rightarrow> 'u callback \<Rightarrow> 'pg Conn \<Rightarrow> 'u
     \<Rightarrow> (exec_result \<times> connRows \<times> 'pg Conn \<times> 'u) option" where
  "Conn_QueryFunc sy sql args scans f c u =
     Option.bind (Conn_Query sy sql args c) (\<lambda>((rows, err), c).
       if err \<noteq> None then Some (([], err), rows, c, u) else runQueryFunc sy f scans rows c u)"

subsection \<open>What is sent\<close>

lemma rows_fatal_sent [simp]: "sent (snd (rows_fatal ops err rows c)) = sent c"
  by (simp add: rows_fatal_def)

lemma resetEqb_keeps [simp]:
  "sent (resetEqb c) = sent c" "preparedStatements (resetEqb c) = preparedStatements c" "pgConn (resetEqb c) = pgConn c"
  "stmtcache (resetEqb c) = stmtcache c" "c_eqb (resetEqb c) = eqb_Reset (c_eqb c)"
  by (simp_all add: resetEqb_def)

text \<open>The commands that run a query, and the agreement of their parameters.\<close>

fun executes :: "pg_command \<Rightarrow> bool" where
  "executes (PgExec _) = True"
| "executes (PgExecParams _ _ _ _ _) = True"
| "executes (PgExecPrepared _ _ _ _) = True"
| "executes (PgExecBatch _) = True"
| "executes (PgCopyFrom _ _) = True"
| "executes _ = False"

fun aligned :: "pg_command \<Rightarrow> nat \<Rightarrow> bool" where
  "aligned (PgExecParams _ vs oids fs _) n = (length vs = n \<and> length oids = n \<and> length fs = n)"
| "aligned (PgExecPrepared _ vs fs _) n = (length vs = n \<and> length fs = n)"
| "aligned _ n = True"

definition runs_once :: "nat \<Rightarrow> pg_command list \<Rightarrow> bool" where
  "runs_once n cmds \<longleftrightarrow> (\<exists>before. (cmds = before \<or> (\<exists>cmd. cmds = before @ [cmd] \<and> executes cmd \<and> aligned cmd n))
     \<and> (\<forall>cmd \<in> set before. \<not> executes cmd))"

lemma runs_once_simps [simp]:
  "runs_once n []" "\<not> executes cmd \<Longrightarrow> runs_once n [cmd]"
  "executes cmd \<Longrightarrow> aligned cmd n \<Longrightarrow> runs_once n [cmd]"
  by (auto simp: runs_once_def intro!: exI [of _ "[cmd]"] exI [of _ "[]"])

lemma runs_once_Cons: "\<not> executes cmd \<Longrightarrow> runs_once n cmds \<Longrightarrow> runs_once n (cmd # cmds)"
  unfolding runs_once_def by (elim exE conjE) (metis append_Cons set_ConsD)

lemma drainResults_sent: "drainResults ops mrr tag c = Some (tag', c') \<Longrightarrow> sent c' = sent c"
proof -
  assume "drainResults ops mrr tag c = Some (tag', c')"
  then have "sent (snd (tag', c')) = sent c"
  proof (rule drainResults.raw_induct [rotated])
    fix loop :: "'a pgconn_ops \<Rightarrow> nat \<Rightarrow> command_tag \<Rightarrow> 'a Conn \<Rightarrow> (command_tag \<times> 'a Conn) option"
      and ops mrr tag c r
    assume IH: "\<And>ops mrr tag c r. loop ops mrr tag c = Some r \<Longrightarrow> sent (snd r) = sent c"
      and eq: "(case onPg (mrr_NextResult ops mrr) c of (ok, c1) \<Rightarrow>
        if ok then (case onPg (rr_Close ops (mrr_ResultReader ops mrr (pgConn c1))) c1 of (r, c2) \<Rightarrow> loop ops mrr (fst r) c2)
        else Some (tag, c1)) = Some r"
    show "sent (snd r) = sent c"
      using eq IH by (fastforce simp: case_prod_unfold split: if_splits)
  qed
  then show ?thesis by simp
qed

lemma execSimpleProtocol_sent:
  "execSimpleProtocol sy sql args c = Some (r, c') \<Longrightarrow> \<exists>cmds. sent c' = sent c @ cmds \<and> runs_once n cmds"
  by (auto simp: execSimpleProtocol_def case_prod_unfold dest!: drainResults_sent split: if_splits option.splits sum.splits)

lemma execPrefix_sent:
  "execParamsAndPreparedPrefix sy sd args c = Some (err, args', c') \<Longrightarrow> sent c' = sent c \<and> pgConn c' = pgConn c"
  by (auto simp: execParamsAndPreparedPrefix_def case_prod_unfold split: if_splits option.splits prod.splits)

lemma execPrefix_ok:
  assumes "execParamsAndPreparedPrefix sy sd args c = Some (None, args', c')"
  shows "length (paramValues (c_eqb c')) = length args" and "length (paramFormats (c_eqb c')) = length args"
    and "length (sd_ParamOIDs sd) = length args"
proof -
  show len: "length (sd_ParamOIDs sd) = length args"
    using assms by (auto simp: execParamsAndPreparedPrefix_def split: if_splits)
  obtain eqb where eqb: "eqb_AppendParams (s_env sy) (sd_ParamOIDs sd) (snd (convertDriverValuers (s_env sy) args))
        (eqb_Reset (c_eqb c)) = Some (None, eqb)"
    "c_eqb c' = eqb_AppendResultFormats (s_env sy) (map fd_DataTypeOID (sd_Fields sd)) eqb"
    using assms by (auto simp: execParamsAndPreparedPrefix_def split: if_splits option.splits prod.splits)
  from eqb_AppendParams_ok [OF eqb(1)] len
  obtain vs where "list_all2 carries (snd (convertDriverValuers (s_env sy) args)) vs" "paramValues eqb = vs"
    "paramFormats eqb = map2 (chooseParameterFormatCode (s_env sy)) (sd_ParamOIDs sd) (snd (convertDriverValuers (s_env sy) args))"
    by auto
  with len show "length (paramValues (c_eqb c')) = length args" "length (paramFormats (c_eqb c')) = length args"
    by (auto simp: eqb(2) eqb_AppendResultFormats_simps dest: list_all2_lengthD)
qed

lemma execPrepared_sent:
  assumes "execPrepared sy sd args c = Some (r, args', c')"
  shows "\<exists>cmds. sent c' = sent c @ cmds \<and> runs_once (length args) cmds"
proof -
  obtain e args1 c1 where p: "execParamsAndPreparedPrefix sy sd args c = Some (e, args1, c1)"
    using assms by (auto simp: execPrepared_def split: option.splits)
  note s = execPrefix_sent [OF p]
  show ?thesis
  proof (cases e)
    case None
    note ok = execPrefix_ok [OF p [unfolded None]]
    let ?cmd = "PgExecPrepared (sd_Name sd) (paramValues (c_eqb c1)) (paramFormats (c_eqb c1)) (resultFormats (c_eqb c1))"
    have "sent c' = sent c1 @ [?cmd]"
      using assms p None by (auto simp: execPrepared_def sendExecPrepared_def case_prod_unfold Let_def)
    then show ?thesis using s ok by (intro exI [of _ "[?cmd]"]) simp
  next
    case (Some err)
    with assms p s show ?thesis by (auto simp: execPrepared_def)
  qed
qed

lemma execParams_sent:
  assumes "execParams sy sd args c = Some (r, args', c')"
  shows "\<exists>cmds. sent c' = sent c @ cmds \<and> runs_once (length args) cmds"
proof -
  obtain e args1 c1 where p: "execParamsAndPreparedPrefix sy sd args c = Some (e, args1, c1)"
    using assms by (auto simp: execParams_def split: option.splits)
  note s = execPrefix_sent [OF p]
  show ?thesis
  proof (cases e)
    case None
    note ok = execPrefix_ok [OF p [unfolded None]]
    let ?cmd = "PgExecParams (sd_SQL sd) (paramValues (c_eqb c1)) (sd_ParamOIDs sd) (paramFormats (c_eqb c1))
      (resultFormats (c_eqb c1))"
    have "sent c' = sent c1 @ [?cmd]"
      using assms p None by (auto simp: execParams_def sendExecParams_def case_prod_unfold Let_def)
    then show ?thesis using s ok by (intro exI [of _ "[?cmd]"]) simp
  next
    case (Some err)
    with assms p s show ?thesis by (auto simp: execParams_def)
  qed
qed

lemma after_describe:
  assumes "\<exists>cmds. sent c' = sent c1 @ cmds \<and> runs_once n cmds" and "sent c1 = sent c @ [cmd]" and "\<not> executes cmd"
  shows "\<exists>cmds. sent c' = sent c @ cmds \<and> runs_once n cmds"
  using assms runs_once_Cons by auto

lemma Conn_Prepare_unnamed:
  "Conn_Prepare ops [] sql c = (r, c') \<Longrightarrow> sent c' = sent c @ [PgPrepare [] sql]"
  by (auto simp: Conn_Prepare_def prepareOn_def log_msg_def Let_def case_prod_unfold split: sum.splits prod.splits if_splits)

lemma cacheGet_sent: "cacheGet ops h sql c = (r, c') \<Longrightarrow> sent c' = sent c @ [PgCacheGet sql]"
  by (metis cacheGet_def sendPg_keeps(2) snd_conv)

lemma exec_sent:
  assumes "exec sy sql arguments c = Some (r, args', c')"
  shows "\<exists>cmds. sent c' = sent c @ cmds \<and> runs_once (length (snd (execOptions (cfg_PreferSimpleProtocol c) arguments))) cmds"
proof -
  obtain sp args where o: "execOptions (cfg_PreferSimpleProtocol c) arguments = (sp, args)" by force
  let ?goal = "\<exists>cmds. sent c' = sent c @ cmds \<and> runs_once (length args) cmds"
  consider (prep) sd where "preparedStatements c sql = Some sd"
    | (simple) "preparedStatements c sql = None" "sp \<or> args = []"
    | (cache) h where "preparedStatements c sql = None" "\<not> (sp \<or> args = [])" "stmtcache c = Some h"
    | (anon) "preparedStatements c sql = None" "\<not> (sp \<or> args = [])" "stmtcache c = None"
    by (cases "preparedStatements c sql"; cases "stmtcache c") auto
  then have ?goal
  proof cases
    case prep
    with assms o execPrepared_sent show ?thesis by (fastforce simp: exec_def)
  next
    case simple
    with assms o execSimpleProtocol_sent show ?thesis by (fastforce simp: exec_def)
  next
    case cache
    obtain g c1 where g: "cacheGet (s_ops sy) h sql c = (g, c1)" by force
    have "\<exists>cmds. sent c' = sent c1 @ cmds \<and> runs_once (length args) cmds"
      using assms o cache g execParams_sent [of sy _ args c1 r args' c'] execPrepared_sent [of sy _ args c1 r args' c']
      by (cases g) (auto simp: exec_def split: if_splits)
    from after_describe [OF this cacheGet_sent [OF g]] show ?thesis by simp
  next
    case anon
    obtain g c1 where g: "Conn_Prepare (s_ops sy) [] sql c = (g, c1)" by force
    have "\<exists>cmds. sent c' = sent c1 @ cmds \<and> runs_once (length args) cmds"
      using assms o anon g execPrepared_sent [of sy _ args c1 r args' c'] by (cases g) (auto simp: exec_def)
    from after_describe [OF this Conn_Prepare_unnamed [OF g]] show ?thesis by simp
  qed
  with o show ?thesis by simp
qed

subsection \<open>Errors of Query\<close>

text \<open>Rows with which a query returns: on an error they are closed and carry it.\<close>

definition reported :: "'pg query_result \<Rightarrow> bool" where
  "reported res \<longleftrightarrow> (\<forall>e. snd (fst res) = Some e \<longrightarrow> r_closed (fst (fst res)) \<and> r_err (fst (fst res)) = Some e)"

lemma failRows_reported:
  "r_err rows = None \<Longrightarrow> reported (failRows ops (Some e) rows c)"
  using rows_fatal_err [of ops e rows c] rows_fatal_closed [of rows ops "Some e" c]
  by (simp add: reported_def failRows_def case_prod_unfold)

lemma fatal_reported:
  assumes "r_err rows = None"
  shows "reported ((fst (rows_fatal ops e rows c), e), c')"
  using rows_fatal_err [of ops _ rows c] rows_fatal_closed [OF assms, of ops e c] assms
  by (auto simp: reported_def)

lemma querySimple_reported:
  "r_err rows = None \<Longrightarrow> querySimple sy sql args rows c = Some res \<Longrightarrow> reported res"
  by (auto simp: querySimple_def case_prod_unfold split: option.splits sum.splits if_splits intro: fatal_reported)
    (simp add: reported_def)

lemma queryExecute_reported: "r_err rows = None \<Longrightarrow> reported (queryExecute sy sql q sd rows c)"
  by (simp add: reported_def queryExecute_def Let_def case_prod_unfold)

lemma queryExtended_reported:
  assumes "r_err rows = None" and "queryExtended sy sql q args rows c = Some res"
  shows "reported res"
  using assms(2)
  by (auto simp: queryExtended_def Let_def assms(1) split: option.splits sum.splits prod.splits if_splits
      intro!: failRows_reported queryExecute_reported)

lemma getRows_fresh: "getRows sql args c = (rows, c') \<Longrightarrow> r_err rows = None \<and> \<not> r_closed rows \<and> sent c' = sent c
    \<and> preparedStatements c' = preparedStatements c \<and> stmtcache c' = stmtcache c \<and> pgConn c' = pgConn c"
  by (auto simp: getRows_def zero_rows_def Let_def)

lemma Conn_Query_reported: "Conn_Query sy sql args c = Some res \<Longrightarrow> reported res"
  by (auto simp: Conn_Query_def dest!: getRows_fresh split: prod.splits if_splits
      intro: querySimple_reported queryExtended_reported)

subsection \<open>Termination\<close>

text \<open>The results of a multi-result reader come to an end.\<close>

inductive finite_results :: "'pg pgconn_ops \<Rightarrow> nat \<Rightarrow> 'pg \<Rightarrow> bool" for ops mrr where
  last_result: "mrr_NextResult ops mrr pg = (pg1, ns, False) \<Longrightarrow> finite_results ops mrr pg"
| next_result: "\<lbrakk>mrr_NextResult ops mrr pg = (pg1, ns, True);
      rr_Close ops (mrr_ResultReader ops mrr pg1) pg1 = (pg2, ns', r); finite_results ops mrr pg2\<rbrakk>
    \<Longrightarrow> finite_results ops mrr pg"

lemma onPg_result:
  "f (pgConn c) = (pg', ns, r) \<Longrightarrow> fst (onPg f c) = r \<and> pgConn (snd (onPg f c)) = pg'"
  by (simp add: onPg_unfold)

lemma drainResults_returns:
  "finite_results ops mrr pg \<Longrightarrow> pgConn c = pg \<Longrightarrow> \<exists>r. drainResults ops mrr tag c = Some r"
proof (induction arbitrary: c tag rule: finite_results.induct)
  case (last_result pg pg1 ns)
  then show ?case using onPg_result [of "mrr_NextResult ops mrr" c pg1 ns False]
    by (subst drainResults.simps) (simp add: case_prod_unfold)
next
  case (next_result pg pg1 ns pg2 ns' r)
  let ?c1 = "snd (onPg (mrr_NextResult ops mrr) c)"
  let ?c2 = "snd (onPg (rr_Close ops (mrr_ResultReader ops mrr pg1)) ?c1)"
  have 1: "fst (onPg (mrr_NextResult ops mrr) c)" "pgConn ?c1 = pg1"
    using onPg_result [of "mrr_NextResult ops mrr" c pg1 ns True] next_result by simp_all
  have 2: "pgConn ?c2 = pg2" using onPg_result [of "rr_Close ops (mrr_ResultReader ops mrr pg1)" ?c1 pg2 ns' r] next_result 1 by simp
  obtain res where "drainResults ops mrr (fst (fst (onPg (rr_Close ops (mrr_ResultReader ops mrr pg1)) ?c1))) ?c2 = Some res"
    using next_result.IH [OF 2] by blast
  then show ?case using 1 by (subst drainResults.simps) (simp add: case_prod_unfold)
qed

definition encodes_all :: "pgtype_env \<Rightarrow> bool" where
  "encodes_all env \<longleftrightarrow> methods_ok env \<and> valuers_ok env
     \<and> (\<forall>oid arg. encodable env (chooseParameterFormatCode env oid arg))"

lemma eqb_AppendParams_returns: "encodes_all env \<Longrightarrow> \<exists>r. eqb_AppendParams env oids args eqb = Some r"
proof (induction env oids args eqb rule: eqb_AppendParams.induct)
  case (1 env oid oids arg args eqb)
  obtain e eqb' where "eqb_AppendParam env oid arg eqb = Some (e, eqb')"
    using eqb_AppendParam_returns [of env oid arg eqb] 1(2) by (fastforce simp: encodes_all_def)
  with 1 show ?case by (cases e) auto
qed auto

lemma execPrefix_returns:
  "encodes_all (s_env sy) \<Longrightarrow> \<exists>r. execParamsAndPreparedPrefix sy sd args c = Some r"
  using eqb_AppendParams_returns [of "s_env sy" "sd_ParamOIDs sd" "snd (convertDriverValuers (s_env sy) args)" "eqb_Reset (c_eqb c)"]
  by (auto simp: execParamsAndPreparedPrefix_def split: option.splits prod.splits)

lemma execPrepared_returns: "encodes_all (s_env sy) \<Longrightarrow> \<exists>r. execPrepared sy sd args c = Some r"
  using execPrefix_returns [of sy sd args c]
  by (auto simp: execPrepared_def case_prod_unfold split: option.splits prod.splits)

lemma execParams_returns: "encodes_all (s_env sy) \<Longrightarrow> \<exists>r. execParams sy sd args c = Some r"
  using execPrefix_returns [of sy sd args c]
  by (auto simp: execParams_def case_prod_unfold split: option.splits prod.splits)

lemma execSimple_returns:
  assumes "\<And>mrr pg. finite_results (s_ops sy) mrr pg"
  shows "\<exists>r. execSimpleProtocol sy sql [] c = Some r"
proof -
  let ?p = "sendPg (PgExec sql) (op_Exec (s_ops sy) sql) c"
  obtain r where "drainResults (s_ops sy) (fst ?p) [] (snd ?p) = Some r"
    using drainResults_returns [OF assms refl, of "fst ?p" "[]" "snd ?p"] by blast
  then show ?thesis by (simp add: execSimpleProtocol_def case_prod_unfold)
qed

lemma exec_returns:
  assumes "\<not> fst (execOptions (cfg_PreferSimpleProtocol c) arguments)" and "encodes_all (s_env sy)"
    and "\<And>mrr pg. finite_results (s_ops sy) mrr pg"
  shows "\<exists>r. exec sy sql arguments c = Some r"
proof -
  note r = execPrepared_returns [OF assms(2)] execParams_returns [OF assms(2)]
  obtain r0 where "execSimpleProtocol sy sql [] c = Some r0" using execSimple_returns [OF assms(3)] by blast
  with assms(1) r show ?thesis
    by (auto simp: exec_def simp del: split_paired_Ex split: option.split sum.split prod.splits)
qed

lemma Conn_Exec_total:
  assumes "\<not> fst (execOptions (cfg_PreferSimpleProtocol c) arguments)" and "encodes_all (s_env sy)"
    and "\<And>mrr pg. finite_results (s_ops sy) mrr pg"
  shows "\<exists>res c'. Conn_Exec sy sql arguments c = Some (res, c')"
  using exec_returns [OF assms, of sql] by (auto simp: Conn_Exec_def Let_def split: option.splits)

subsection \<open>QueryFunc\<close>

lemma runQueryFunc_closes: "runQueryFunc sy f scans rows c u = Some (res, rows', c', u') \<Longrightarrow> r_closed rows'"
  by (auto simp: runQueryFunc_def Let_def case_prod_unfold rows_Close_closed)

subsection \<open>A concrete connection\<close>

definition demo_sy :: "bool surroundings" where
  "demo_sy = \<lparr>s_ops = demo_ops, s_env = bare_env, s_ff = \<lambda>_. ''0''\<rparr>"

definition demo_prepared :: "bool Conn" where
  "demo_prepared = demo_conn\<lparr>preparedStatements := [''ps'' \<mapsto> demo_sd ''ps'' ''select 1'']\<rparr>"

lemmas demo_simps = demo_sy_def demo_ops_def demo_sd_def demo_prepared_def demo_conn_def onPg_unfold sendPg_def

lemma demo_exec:
  "Conn_Exec demo_sy ''ps'' [] demo_prepared
   = Some ((''SELECT 0'', None), demo_prepared\<lparr>sent := [PgExecPrepared ''ps'' [] [] []]\<rparr>)"
  by (simp add: Conn_Exec_def exec_def execPrepared_def execParamsAndPreparedPrefix_def sendExecPrepared_def
      eqb_AppendResultFormats_def resetEqb_def eqb_Reset_def new_eqb_def log_if_def shouldLog_def demo_simps)

lemma demo_query_fails:
  "\<exists>rows c'. Conn_Query demo_sy ''ps'' [GNil] demo_prepared = Some ((rows, Some (argCountError 0 1)), c')"
proof -
  obtain rows c1 where rows: "getRows ''ps'' [GNil] demo_prepared = (rows, c1)" by force
  note fresh = getRows_fresh [OF rows]
  with rows show ?thesis using rows_fatal_err [of "s_ops demo_sy" "argCountError 0 (Suc 0)" rows "resetEqb c1"]
    by (simp add: Conn_Query_def queryExtended_def queryDescribe_def failRows_def case_prod_unfold)
      (simp add: demo_simps case_prod_unfold failRows_def)
qed

lemma demo_finite: "finite_results demo_ops mrr pg"
  by (rule finite_results.last_result [of _ _ _ pg "[]"]) (simp add: demo_ops_def)

lemma demo_encodes: "encodes_all bare_env"
  by (simp add: encodes_all_def bare_env_ok) (simp add: encodable_def bare_env_def)

subsection \<open>Properties\<close>

text \<open>
  C13. A call of \<open>Exec\<close> runs at most one query: it sends one command that executes, at most, and
  sends it last. The command has a value and a format for each argument left once the options
  are removed (and, where parameter types are sent, a type), so none is missing or shifted.
\<close>

theorem Exec_runs_once:
  assumes "Conn_Exec sy sql arguments c = Some (res, c')"
  shows "\<exists>cmds. sent c' = sent c @ cmds
    \<and> runs_once (length (snd (execOptions (cfg_PreferSimpleProtocol c) arguments))) cmds"
  using assms exec_sent [of sy sql arguments c] 
  by (auto simp: Conn_Exec_def Let_def split: option.splits prod.splits)

theorem Exec_runs_once_witness:
  "\<exists>cmds. sent (demo_prepared\<lparr>sent := [PgExecPrepared ''ps'' [] [] []]\<rparr>) = sent demo_prepared @ cmds
    \<and> runs_once (length (snd (execOptions (cfg_PreferSimpleProtocol demo_prepared) []))) cmds"
  by (rule Exec_runs_once [OF demo_exec])



text \<open>
  C15. A failing \<open>Query\<close> returns closed rows that carry its error, so that a caller who only looks
  at the rows (\<open>QueryRow\<close>) sees it, and a loop over them ends at once.
\<close>

theorem Query_error_closed:
  assumes "Conn_Query sy sql args c = Some ((rows, Some err), c')"
  shows "r_closed rows \<and> r_err rows = Some err \<and> rows_Next ops rows c' = Some (False, rows, c')"
  using Conn_Query_reported [OF assms] by (simp add: reported_def rows_Next_def)

theorem Query_error_closed_witness:
  "\<exists>rows c'. Conn_Query demo_sy ''ps'' [GNil] demo_prepared = Some ((rows, Some (argCountError 0 1)), c')
    \<and> r_closed rows \<and> r_err rows = Some (argCountError 0 1) \<and> rows_Next demo_ops rows c' = Some (False, rows, c')"
  using demo_query_fails Query_error_closed [of demo_sy "''ps''" "[GNil]" demo_prepared _ "argCountError 0 1" _ demo_ops] by blast

text \<open>
  \<open>QueryFunc\<close> releases the connection on every path: when the query fails, a scan fails, the
  callback fails or the rows end, the rows are closed when it returns.
\<close>

lemma QueryFunc_closes:
  assumes "Conn_QueryFunc sy sql args scans f c u = Some (res, rows, c', u')"
  shows "r_closed rows"
  using assms Conn_Query_reported [of sy sql args c]
  by (auto simp: Conn_QueryFunc_def Option.bind_eq_Some_conv reported_def runQueryFunc_closes split: if_splits)

text \<open>
  C16. \<open>Query\<close> of a statement prepared by name, on a connection whose statement cache is in
  describe mode, sends the \<^emph>\<open>name\<close> as the text of the query, where \<open>Exec\<close> executes the prepared
  statement: the mode of the cache is tested without asking where the description came from.
\<close>

theorem Query_named_describe:
  assumes "preparedStatements c name = Some sd" and "sd_ParamOIDs sd = []"
    and "stmtcache c = Some h" and "\<And>pg. cache_Mode (s_ops sy) h pg = ModeDescribe"
  shows "(\<exists>res c' rfs. Conn_Query sy name [] c = Some (res, c') \<and> sent c' = sent c @ [PgExecParams name [] [] [] rfs])
    \<and> (\<exists>res c' rfs. Conn_Exec sy name [] c = Some (res, c') \<and> sent c' = sent c @ [PgExecPrepared (sd_Name sd) [] [] rfs])"
proof
  obtain rows c1 where rows: "getRows name [] c = (rows, c1)" by force
  note fresh = getRows_fresh [OF rows]
  show "\<exists>res c' rfs. Conn_Query sy name [] c = Some (res, c') \<and> sent c' = sent c @ [PgExecParams name [] [] [] rfs]"
    using assms rows fresh
    by (simp add: Conn_Query_def queryExtended_def queryDescribe_def queryExecute_def sendExecParams_def Let_def
        eqb_AppendResultFormats_simps case_prod_unfold)
  show "\<exists>res c' rfs. Conn_Exec sy name [] c = Some (res, c') \<and> sent c' = sent c @ [PgExecPrepared (sd_Name sd) [] [] rfs]"
    using assms
    by (auto simp: Conn_Exec_def exec_def execPrepared_def execParamsAndPreparedPrefix_def sendExecPrepared_def Let_def
        eqb_AppendResultFormats_simps case_prod_unfold split: option.splits)
qed

theorem Query_named_describe_witness:
  "\<exists>res c' rfs. Conn_Query (demo_sy\<lparr>s_ops := demo_ops\<lparr>cache_Mode := \<lambda>_ _. ModeDescribe\<rparr>\<rparr>) ''ps'' []
      (demo_prepared\<lparr>stmtcache := Some 0\<rparr>) = Some (res, c')
    \<and> sent c' = sent (demo_prepared\<lparr>stmtcache := Some 0\<rparr>) @ [PgExecParams ''ps'' [] [] [] rfs]"
  using Query_named_describe [of "demo_prepared\<lparr>stmtcache := Some 0\<rparr>" "''ps''" "demo_sd ''ps'' ''select 1''" 0
      "demo_sy\<lparr>s_ops := demo_ops\<lparr>cache_Mode := \<lambda>_ _. ModeDescribe\<rparr>\<rparr>"]
  by (simp add: demo_prepared_def demo_sd_def)

end
