(* ===== verification/Simple_Protocol.thy ===== *)
theory Simple_Protocol
  imports Interpolate Conn_Query
begin

text \<open>
  The simple protocol from the call to the server: \<open>Exec\<close>, \<open>Query\<close> and \<open>QueryRow\<close> of \<open>src/conn.go\<close>
  over the conversion of arguments (\<open>src/values.go\<close>) and their interpolation (\<open>sanitize.go\<close>).
\<close>

subsection \<open>Calls that use the simple protocol\<close>

text \<open>
  \<open>simple_call sy sql args c err c'\<close>: a call on the connection \<open>c\<close> that uses the simple protocol with
  the arguments \<open>args\<close>, the options removed, and returns the error \<open>err\<close> and the connection \<open>c'\<close>.
\<close>

definition queryDefaults :: "'pg Conn \<Rightarrow> query_options" where
  "queryDefaults c = \<lparr>q_resultFormats = None, q_resultFormatsByOID = None,
     q_simpleProtocol = cfg_PreferSimpleProtocol c\<rparr>"

inductive simple_call ::
  "'pg surroundings \<Rightarrow> string \<Rightarrow> goval list \<Rightarrow> 'pg Conn \<Rightarrow> go_error option \<Rightarrow> 'pg Conn \<Rightarrow> bool"
  for sy sql args c where
  by_Exec: "\<lbrakk>preparedStatements c sql = None; execOptions (cfg_PreferSimpleProtocol c) arguments = (True, args);
      args \<noteq> []; Conn_Exec sy sql arguments c = Some ((tag, err), c')\<rbrakk>
    \<Longrightarrow> simple_call sy sql args c err c'"
| by_Query: "\<lbrakk>preparedStatements c sql = None; queryOptions (queryDefaults c) arguments = (q, args);
      q_simpleProtocol q; Conn_Query sy sql arguments c = Some ((rows, err), c')\<rbrakk>
    \<Longrightarrow> simple_call sy sql args c err c'"
| by_QueryRow: "\<lbrakk>preparedStatements c sql = None; queryOptions (queryDefaults c) arguments = (q, args);
      q_simpleProtocol q; Conn_QueryRow sy sql arguments c = Some (rows, c')\<rbrakk>
    \<Longrightarrow> simple_call sy sql args c (r_err rows) c'"

text \<open>
  What such a call does: it fails and sends nothing, or it sends the sanitized text as its only
  command.
\<close>

definition sends_sanitized ::
  "'pg surroundings \<Rightarrow> string \<Rightarrow> goval list \<Rightarrow> 'pg Conn \<Rightarrow> go_error option \<Rightarrow> 'pg Conn \<Rightarrow> bool" where
  "sends_sanitized sy sql args c err c' \<longleftrightarrow>
     sent c' = sent c \<and> (\<exists>e. err = Some e \<and> sanitizeForSimpleQuery sy sql args c = Some (Inl e))
     \<or> (\<exists>out. sent c' = sent c @ [PgExec out] \<and> sanitizeForSimpleQuery sy sql args c = Some (Inr out))"

lemma execSimpleProtocol_sanitized:
  assumes "args \<noteq> []" and "execSimpleProtocol sy sql args c = Some ((tag, err), c')"
  shows "sends_sanitized sy sql args c err c'"
  using assms
  by (auto simp: execSimpleProtocol_def sends_sanitized_def case_prod_unfold dest!: drainResults_sent
      split: option.splits sum.splits)

lemma Conn_Exec_sanitized:
  assumes "preparedStatements c sql = None" and "execOptions (cfg_PreferSimpleProtocol c) arguments = (True, args)"
    and "args \<noteq> []" and "Conn_Exec sy sql arguments c = Some ((tag, err), c')"
  shows "sends_sanitized sy sql args c err c'"
proof -
  obtain c1 where "execSimpleProtocol sy sql args c = Some ((tag, err), c1)" "sent c' = sent c1"
    using assms by (auto simp: Conn_Exec_def exec_def Let_def split: option.splits)
  with execSimpleProtocol_sanitized [OF assms(3)] show ?thesis by (simp add: sends_sanitized_def)
qed

lemma querySimple_sanitized:
  assumes "querySimple sy sql args rows c = Some ((rows', err), c')"
  shows "sends_sanitized sy sql args c err c'"
  using assms
  by (auto simp: querySimple_def sends_sanitized_def case_prod_unfold split: option.splits sum.splits if_splits)

lemma getRows_sanitize:
  "getRows sql args c = (rows, c1) \<Longrightarrow> sanitizeForSimpleQuery sy sql args' c1 = sanitizeForSimpleQuery sy sql args' c"
  by (drule getRows_fresh) (simp add: sanitizeForSimpleQuery_def)

lemma Conn_Query_sanitized:
  assumes "preparedStatements c sql = None" and "queryOptions (queryDefaults c) arguments = (q, args)"
    and "q_simpleProtocol q" and "Conn_Query sy sql arguments c = Some ((rows, err), c')"
  shows "sends_sanitized sy sql args c err c'"
proof -
  obtain rows1 c1 where g: "getRows sql args c = (rows1, c1)" by fastforce
  have "querySimple sy sql args rows1 c1 = Some ((rows, err), c')"
    using assms getRows_fresh [OF g] g by (simp add: Conn_Query_def queryDefaults_def)
  from querySimple_sanitized [OF this] getRows_fresh [OF g] getRows_sanitize [OF g] show ?thesis
    by (simp add: sends_sanitized_def)
qed

lemma simple_call_sanitized: "simple_call sy sql args c err c' \<Longrightarrow> sends_sanitized sy sql args c err c'"
proof (induction rule: simple_call.induct)
  case (by_QueryRow arguments q rows c')
  then obtain err where "Conn_Query sy sql arguments c = Some ((rows, err), c')" by (auto simp: Conn_QueryRow_def)
  from Conn_Query_sanitized [OF by_QueryRow(1-3) this] Conn_Query_reported [OF this] show ?case
    by (auto simp: sends_sanitized_def reported_def)
qed (blast intro: Conn_Exec_sanitized Conn_Query_sanitized)+

text \<open>What the checks and conversions before sending have established.\<close>

lemma sanitizeForSimpleQuery_Inr:
  assumes "sanitizeForSimpleQuery sy sql args c = Some (Inr out)"
  obtains vs where "op_ParameterStatus (s_ops sy) (pgConn c) ''standard_conforming_strings'' = ''on''"
    and "op_ParameterStatus (s_ops sy) (pgConn c) ''client_encoding'' = ''UTF8''"
    and "convertSimpleArguments (s_env sy) args = Some (Inr vs)" and "SanitizeSQL (s_ff sy) sql vs = Ret out"
  using assms by (auto simp: sanitizeForSimpleQuery_def split: if_splits option.splits sum.splits outcome.splits)

subsection \<open>A concrete call\<close>

definition name_arg :: "goval list" where
  "name_arg = [GString ''O'Neil'']"

lemma demo_sanitize:
  "sanitizeForSimpleQuery demo_sy ''select $1'' name_arg demo_conn = Some (Inr (''select '' @ QuoteString ''O'Neil''))"
  by (simp add: sanitizeForSimpleQuery_def demo_simps name_arg_def convertSimpleArgument.simps convertSimpleStep_def
      bare_env_def is_nil_ptr_def is_json_def callValuerValue_def template_example SanitizeSQL_def Query_Sanitize_def)

lemma demo_simple_call:
  "simple_call demo_sy ''select $1'' name_arg demo_conn None
     (demo_conn\<lparr>sent := [PgExec (''select '' @ QuoteString ''O'Neil'')]\<rparr>)"
proof -
  have d: "drainResults demo_ops 0 tag c = Some (tag, c)" for tag c
    by (subst drainResults.simps) (simp add: demo_ops_def onPg_unfold)
  have e: "execSimpleProtocol demo_sy ''select $1'' name_arg demo_conn
      = Some (([], None), demo_conn\<lparr>sent := [PgExec (''select '' @ QuoteString ''O'Neil'')]\<rparr>)"
    using demo_sanitize d
    by (simp add: execSimpleProtocol_def) (simp add: name_arg_def demo_simps)
  have "Conn_Exec demo_sy ''select $1'' (GQuerySimpleProtocol True # name_arg) demo_conn
      = Some (([], None), demo_conn\<lparr>sent := [PgExec (''select '' @ QuoteString ''O'Neil'')]\<rparr>)"
    using e by (simp add: Conn_Exec_def exec_def name_arg_def log_if_def shouldLog_def Let_def demo_conn_def)
  from simple_call.by_Exec [OF _ _ _ this] show ?thesis by (simp add: name_arg_def demo_conn_def)
qed

subsection \<open>Property\<close>



end
