(* ===== verification/Conn_Info.thy ===== *)
theory Conn_Info
  imports Rows
begin

text \<open>
  \<open>connInfoFromRows\<close> of \<open>src/conn.go\<close>: the names and OIDs of types from the rows of a query. The
  type \<open>pgtype.Text\<close> is a parameter: its zero value, and its field \<open>String\<close>.
\<close>

record text_type =
  tt_zero :: goval
  tt_String :: "goval \<Rightarrow> string"

definition typeDest :: "text_type \<Rightarrow> goval list" where
  "typeDest tt = [GPtr ''uint32'' (Some (GUint32 0)), GPtr ''pgtype.Text'' (Some (tt_zero tt))]"

text \<open>The variables \<open>oid\<close> and \<open>name\<close> after \<open>Scan\<close>; \<open>Scan\<close> does not change the type of a variable.\<close>

fun scannedType :: "goval list \<Rightarrow> (32 word \<times> goval) option" where
  "scannedType [GPtr _ (Some (GUint32 oid)), GPtr _ (Some name)] = Some (oid, name)"
| "scannedType _ = None"

type_synonym 'pg info_result = "(go_error + (string \<rightharpoonup> 32 word)) \<times> connRows \<times> 'pg Conn"

partial_function (option) connInfoLoop ::
  "'pg pgconn_ops \<Rightarrow> pgtype_env \<Rightarrow> text_type \<Rightarrow> (string \<rightharpoonup> 32 word) \<Rightarrow> connRows \<Rightarrow> 'pg Conn \<Rightarrow> 'pg info_result option" where
  "connInfoLoop ops env tt nameOIDs rows c =
     Option.bind (rows_Next ops rows c) (\<lambda>(ok, rows, c).
       if \<not> ok then Some (case rows_Err rows of Some err \<Rightarrow> Inl err | None \<Rightarrow> Inr nameOIDs, rows, c)
       else Option.bind (rows_Scan ops env (typeDest tt) rows c) (\<lambda>((err, dest), rows, c).
         case err of
           Some e \<Rightarrow> Some (Inl e, rows, c)
         | None \<Rightarrow>
             Option.bind (scannedType dest) (\<lambda>(oid, name).
               connInfoLoop ops env tt (nameOIDs(tt_String tt name \<mapsto> oid)) rows c)))"

definition connInfoFromRows ::
  "'pg pgconn_ops \<Rightarrow> pgtype_env \<Rightarrow> text_type \<Rightarrow> connRows \<Rightarrow> go_error option \<Rightarrow> 'pg Conn \<Rightarrow> 'pg info_result option" where
  "connInfoFromRows ops env tt rows err c =
     (case err of
        Some e \<Rightarrow> Some (Inl e, rows, c)
      | None \<Rightarrow>
          map_option (\<lambda>(res, rows, c). case rows_Close ops rows c of (rows, c) \<Rightarrow> (res, rows, c))
            (connInfoLoop ops env tt Map.empty rows c))"

text \<open>The rows are closed unless the query has failed, and a result that is no error saw every row.\<close>

lemma connInfoFromRows_closes:
  "connInfoFromRows ops env tt rows None c = Some (res, rows', c') \<Longrightarrow> r_closed rows'"
  by (auto simp: connInfoFromRows_def case_prod_unfold dest: rows_Close_closedD)

lemma connInfoLoop_complete:
  assumes "connInfoLoop ops env tt nameOIDs rows c = Some (Inr m, rows', c')"
  shows "r_closed rows' \<and> r_err rows' = None"
proof -
  from assms have "case fst (Inr m :: go_error + (string \<rightharpoonup> 32 word), rows', c') of Inl _ \<Rightarrow> True
      | Inr _ \<Rightarrow> r_closed (fst (snd (Inr m :: go_error + (string \<rightharpoonup> 32 word), rows', c')))
          \<and> r_err (fst (snd (Inr m :: go_error + (string \<rightharpoonup> 32 word), rows', c'))) = None"
    by (rule connInfoLoop.raw_induct [rotated, where P = "\<lambda>_ _ _ _ _ _ out. case fst out of Inl _ \<Rightarrow> True
        | Inr _ \<Rightarrow> r_closed (fst (snd out)) \<and> r_err (fst (snd out)) = None"])
      (fastforce simp: Option.bind_eq_Some_conv rows_Err_def dest: rows_Next_end split: if_splits option.splits)
  then show ?thesis by simp
qed

end
