(* ===== verification/Batch.thy ===== *)
theory Batch
  imports Conn_Query
begin

text \<open>
  Batches: \<open>src/batch.go\<close> and \<open>SendBatch\<close> of \<open>src/conn.go\<close>.

  \<open>SendBatch\<close> converts the arguments of the items in place, so it also returns the batch. The
  order in which Go iterates over the map of distinct queries is a parameter.
\<close>

subsection \<open>State\<close>

record batchItem =
  bi_query :: string
  bi_arguments :: "goval list"

record Batch =
  b_items :: "batchItem list"

definition Queue :: "string \<Rightarrow> goval list \<Rightarrow> Batch \<Rightarrow> Batch" where
  "Queue query arguments b = b\<lparr>b_items := b_items b @ [\<lparr>bi_query = query, bi_arguments = arguments\<rparr>]\<rparr>"

definition Batch_Len :: "Batch \<Rightarrow> nat" where
  "Batch_Len b = length (b_items b)"

record batchResults =
  br_mrr :: "nat option"
  br_err :: "go_error option"
  br_b :: "Batch option"
  br_ix :: nat

definition error_batch :: "go_error \<Rightarrow> batchResults" where
  "error_batch err = \<lparr>br_mrr = None, br_err = Some err, br_b = None, br_ix = 0\<rparr>"

definition started_batch :: "nat \<Rightarrow> Batch \<Rightarrow> batchResults" where
  "started_batch mrr b = \<lparr>br_mrr = Some mrr, br_err = None, br_b = Some b, br_ix = 0\<rparr>"

subsection \<open>Sending\<close>

text \<open>The text of a batch in the simple protocol, after the items already written to \<open>sb\<close>.\<close>

fun batchText ::
  "'pg surroundings \<Rightarrow> nat \<Rightarrow> string \<Rightarrow> batchItem list \<Rightarrow> 'pg Conn \<Rightarrow> (go_error + string) option" where
  "batchText sy i sb [] c = Some (Inr sb)"
| "batchText sy i sb (bi # items) c =
     (let sb = (if 0 < i then sb @ '';'' else sb) in
      case sanitizeForSimpleQuery sy (bi_query bi) (bi_arguments bi) c of
        None \<Rightarrow> None
      | Some (Inl err) \<Rightarrow> Some (Inl err)
      | Some (Inr sql) \<Rightarrow> batchText sy (Suc i) (sb @ sql) items c)"

text \<open>The keys of \<open>distinctUnpreparedQueries\<close>.\<close>

definition distinctUnprepared :: "'pg Conn \<Rightarrow> batchItem list \<Rightarrow> string list" where
  "distinctUnprepared c items = remdups (filter (\<lambda>q. preparedStatements c q = None) (map bi_query items))"

definition batchCache :: "'pg pgconn_ops \<Rightarrow> nat \<Rightarrow> 'pg Conn \<Rightarrow> nat \<times> 'pg Conn" where
  "batchCache ops n c =
     (case stmtcache c of
        Some h \<Rightarrow> if int n \<le> cache_Cap ops h (pgConn c) then (h, c)
          else onPg (cache_New ops ModeDescribe (int n)) c
      | None \<Rightarrow> onPg (cache_New ops ModeDescribe (int n)) c)"

fun prefill :: "'pg pgconn_ops \<Rightarrow> nat \<Rightarrow> string list \<Rightarrow> 'pg Conn \<Rightarrow> go_error option \<times> 'pg Conn" where
  "prefill ops h [] c = (None, c)"
| "prefill ops h (sql # sqls) c =
     (case cacheGet ops h sql c of
        (Inl err, c) \<Rightarrow> (Some err, c)
      | (Inr _, c) \<Rightarrow> prefill ops h sqls c)"

text \<open>The cache that has the statements of the batch, when there are any to describe.\<close>

definition openBatchCache ::
  "'pg pgconn_ops \<Rightarrow> (string list \<Rightarrow> string list) \<Rightarrow> string list \<Rightarrow> 'pg Conn \<Rightarrow> nat option \<times> go_error option \<times> 'pg Conn" where
  "openBatchCache ops iteration queries c =
     (if queries = [] then (None, None, c)
      else case batchCache ops (length queries) c of (h, c) \<Rightarrow>
        (Some h, prefill ops h (iteration queries) c))"

text \<open>The statement of an item; \<open>None\<close> is the panic "BUG: unexpected error from stmtCache".\<close>

definition batchStatement ::
  "'pg pgconn_ops \<Rightarrow> nat option \<Rightarrow> string \<Rightarrow> 'pg Conn \<Rightarrow> (statement_description \<times> 'pg Conn) option" where
  "batchStatement ops stmtCache query c =
     (case preparedStatements c query of
        Some sd \<Rightarrow> Some (sd, c)
      | None \<Rightarrow> (case stmtCache of
          None \<Rightarrow> None
        | Some h \<Rightarrow> (case cacheGet ops h query c of
            (Inl err, c) \<Rightarrow> None
          | (Inr sd, c) \<Rightarrow> Some (sd, c))))"

text \<open>The parameters of an item, left in the builder: the error, and the converted arguments.\<close>

definition batchParams ::
  "pgtype_env \<Rightarrow> statement_description \<Rightarrow> goval list \<Rightarrow> 'pg Conn \<Rightarrow> (go_error option \<times> goval list \<times> 'pg Conn) option" where
  "batchParams env sd arguments c =
     (if length (sd_ParamOIDs sd) \<noteq> length arguments then
        Some (Some (Errorf ''mismatched param and argument count''), arguments, c)
      else case convertDriverValuers env arguments of
        (Some err, args) \<Rightarrow> Some (Some err, args, c)
      | (None, args) \<Rightarrow>
          (case eqb_AppendParams env (sd_ParamOIDs sd) args (c_eqb c) of
             None \<Rightarrow> None
           | Some (Some err, eqb) \<Rightarrow> Some (Some err, args, c\<lparr>c_eqb := eqb\<rparr>)
           | Some (None, eqb) \<Rightarrow> Some (None, args, c\<lparr>c_eqb :=
               eqb_AppendResultFormats env (map fd_DataTypeOID (sd_Fields sd)) eqb\<rparr>)))"

definition batchCommand :: "string \<Rightarrow> statement_description \<Rightarrow> extendedQueryBuilder \<Rightarrow> batch_command" where
  "batchCommand query sd eqb =
     (if sd_Name sd = []
      then BExecParams query (paramValues eqb) (sd_ParamOIDs sd) (paramFormats eqb) (resultFormats eqb)
      else BExecPrepared (sd_Name sd) (paramValues eqb) (paramFormats eqb) (resultFormats eqb))"

fun buildBatch ::
  "'pg surroundings \<Rightarrow> nat option \<Rightarrow> batchItem list \<Rightarrow> 'pg Conn
     \<Rightarrow> ((go_error + batch_command list) \<times> batchItem list \<times> 'pg Conn) option" where
  "buildBatch sy stmtCache [] c = Some (Inr [], [], c)"
| "buildBatch sy stmtCache (bi # items) c =
     Option.bind (batchStatement (s_ops sy) stmtCache (bi_query bi) (resetEqb c)) (\<lambda>(sd, c).
     Option.bind (batchParams (s_env sy) sd (bi_arguments bi) c) (\<lambda>(err, args, c).
       let bi' = bi\<lparr>bi_arguments := args\<rparr> in
       case err of
         Some e \<Rightarrow> Some (Inl e, bi' # items, c)
       | None \<Rightarrow> map_option (\<lambda>(r, items', c').
           (case r of Inl e \<Rightarrow> Inl e | Inr cmds \<Rightarrow> Inr (batchCommand (bi_query bi) sd (c_eqb c) # cmds), bi' # items', c'))
           (buildBatch sy stmtCache items c)))"

definition sendExtended ::
  "(string list \<Rightarrow> string list) \<Rightarrow> 'pg surroundings \<Rightarrow> Batch \<Rightarrow> 'pg Conn \<Rightarrow> (batchResults \<times> Batch \<times> 'pg Conn) option" where
  "sendExtended iteration sy b c =
     (case openBatchCache (s_ops sy) iteration (distinctUnprepared c (b_items b)) c of
        (stmtCache, Some err, c) \<Rightarrow> Some (error_batch err, b, c)
      | (stmtCache, None, c) \<Rightarrow>
          Option.bind (buildBatch sy stmtCache (b_items b) c) (\<lambda>(r, items, c).
            let b = b\<lparr>b_items := items\<rparr> in
            case r of
              Inl err \<Rightarrow> Some (error_batch err, b, c)
            | Inr batch \<Rightarrow>
                (case sendPg (PgExecBatch batch) (op_ExecBatch (s_ops sy) batch) (resetEqb c) of (mrr, c) \<Rightarrow>
                   Some (started_batch mrr b, b, c))))"

definition SendBatch ::
  "(string list \<Rightarrow> string list) \<Rightarrow> 'pg surroundings \<Rightarrow> Batch \<Rightarrow> 'pg Conn \<Rightarrow> (batchResults \<times> Batch \<times> 'pg Conn) option" where
  "SendBatch iteration sy b c =
     (if cfg_PreferSimpleProtocol c then
        (case batchText sy 0 [] (b_items b) c of
           None \<Rightarrow> None
         | Some (Inl err) \<Rightarrow> Some (error_batch err, b, c)
         | Some (Inr sql) \<Rightarrow>
             (case sendPg (PgExec sql) (op_Exec (s_ops sy) sql) c of (mrr, c) \<Rightarrow> Some (started_batch mrr b, b, c)))
      else sendExtended iteration sy b c)"

subsection \<open>Reading the results\<close>

definition nextQueryAndArgs :: "batchResults \<Rightarrow> (string \<times> goval list \<times> bool) \<times> batchResults" where
  "nextQueryAndArgs br =
     (case br_b br of
        None \<Rightarrow> (([], [], False), br)
      | Some b \<Rightarrow>
          if br_ix br < length (b_items b) then
            (let bi = b_items b ! br_ix br in
             ((bi_query bi, bi_arguments bi, True), br\<lparr>br_ix := br_ix br + 1\<rparr>))
          else (([], [], False), br))"

definition batchLog :: "string \<Rightarrow> goval list \<Rightarrow> (string \<times> log_data) list" where
  "batchLog query args = [(''sql'', LString query), (''args'', LArgs (logQueryArgs args))]"

definition orNoResult :: "go_error option \<Rightarrow> go_error" where
  "orNoResult err = (case err of None \<Rightarrow> Errorf ''no result'' | Some e \<Rightarrow> e)"

text \<open>\<open>None\<close> is the use of a nil reader, which only results without an error and without a batch have.\<close>

definition br_Exec ::
  "'pg pgconn_ops \<Rightarrow> batchResults \<Rightarrow> 'pg Conn \<Rightarrow> (exec_result \<times> batchResults \<times> 'pg Conn) option" where
  "br_Exec ops br c =
     (case br_err br of
        Some e \<Rightarrow> Some (([], Some e), br, c)
      | None \<Rightarrow>
          (case nextQueryAndArgs br of ((query, arguments, _), br) \<Rightarrow>
          (case br_mrr br of
             None \<Rightarrow> None
           | Some mrr \<Rightarrow>
               (case onPg (mrr_NextResult ops mrr) c of (ok, c) \<Rightarrow>
                 if \<not> ok then
                   (case onPg (mrr_Close ops mrr) c of (err, c) \<Rightarrow>
                     let e = orNoResult err in
                     Some (([], Some e), br, log_if ops LogLevelError ''BatchResult.Exec''
                       (batchLog query arguments @ [(''err'', LError (Some e))]) c))
                 else
                   (case onPg (rr_Close ops (mrr_ResultReader ops mrr (pgConn c))) c of ((tag, err), c) \<Rightarrow>
                     Some ((tag, err), br,
                       case err of
                         Some e \<Rightarrow> log_if ops LogLevelError ''BatchResult.Exec''
                           (batchLog query arguments @ [(''err'', LError err)]) c
                       | None \<Rightarrow> log_if ops LogLevelInfo ''BatchResult.Exec''
                           (batchLog query arguments @ [(''commandTag'', LString tag)]) c))))))"

definition br_Query ::
  "'pg pgconn_ops \<Rightarrow> batchResults \<Rightarrow> 'pg Conn \<Rightarrow> ((connRows \<times> go_error option) \<times> batchResults \<times> 'pg Conn) option" where
  "br_Query ops br c =
     (case nextQueryAndArgs br of ((query, arguments, ok), br) \<Rightarrow>
      (let query = (if ok then query else ''batch query'') in
       case br_err br of
         Some e \<Rightarrow> Some ((error_rows e, Some e), br, c)
       | None \<Rightarrow>
           (case getRows query arguments c of (rows, c) \<Rightarrow>
           (case br_mrr br of
              None \<Rightarrow> None
            | Some mrr \<Rightarrow>
                (case onPg (mrr_NextResult ops mrr) c of (ok, c) \<Rightarrow>
                  if \<not> ok then
                    (case onPg (mrr_Close ops mrr) c of (err, c) \<Rightarrow>
                      let e = orNoResult err in
                      Some ((rows\<lparr>r_err := Some e, r_closed := True\<rparr>, Some e), br,
                        log_if ops LogLevelError ''BatchResult.Query''
                          (batchLog query arguments @ [(''err'', LError (Some e))]) c))
                  else
                    Some ((rows\<lparr>r_resultReader := Some (mrr_ResultReader ops mrr (pgConn c))\<rparr>, None), br, c))))))"

definition br_QueryFunc ::
  "'pg surroundings \<Rightarrow> goval list \<Rightarrow> 'u callback \<Rightarrow> batchResults \<Rightarrow> 'pg Conn \<Rightarrow> 'u
     \<Rightarrow> (exec_result \<times> connRows \<times> batchResults \<times> 'pg Conn \<times> 'u) option" where
  "br_QueryFunc sy scans f br c u =
     Option.bind (br_Query (s_ops sy) br c) (\<lambda>((rows, err), br, c).
       if err \<noteq> None then Some (([], err), rows, br, c, u)
       else map_option (\<lambda>(res, rows, c, u). (res, rows, br, c, u)) (runQueryFunc sy f scans rows c u))"

definition br_QueryRow ::
  "'pg pgconn_ops \<Rightarrow> batchResults \<Rightarrow> 'pg Conn \<Rightarrow> (connRows \<times> batchResults \<times> 'pg Conn) option" where
  "br_QueryRow ops br c = map_option (\<lambda>((rows, _), br, c). (rows, br, c)) (br_Query ops br c)"

text \<open>The loop of \<open>Close\<close> that logs the queries not read: the items from the index on.\<close>

function logUnread :: "'pg pgconn_ops \<Rightarrow> batchResults \<Rightarrow> 'pg Conn \<Rightarrow> batchResults \<times> 'pg Conn" where
  "logUnread ops br c =
     (case nextQueryAndArgs br of ((query, args, ok), br') \<Rightarrow>
        if \<not> ok then (br', c)
        else logUnread ops br' (log_if ops LogLevelInfo ''BatchResult.Close'' (batchLog query args) c))"
  by pat_completeness auto
termination
  by (relation "measure (\<lambda>(_, br, _). (case br_b br of None \<Rightarrow> 0 | Some b \<Rightarrow> length (b_items b)) - br_ix br)")
    (auto simp: nextQueryAndArgs_def Let_def split: option.splits if_splits)

declare logUnread.simps [simp del]

definition br_Close ::
  "'pg pgconn_ops \<Rightarrow> batchResults \<Rightarrow> 'pg Conn \<Rightarrow> (go_error option \<times> batchResults \<times> 'pg Conn) option" where
  "br_Close ops br c =
     (case br_err br of
        Some e \<Rightarrow> Some (Some e, br, c)
      | None \<Rightarrow>
          (case logUnread ops br c of (br, c) \<Rightarrow>
          (case br_mrr br of
             None \<Rightarrow> None
           | Some mrr \<Rightarrow> (case onPg (mrr_Close ops mrr) c of (err, c) \<Rightarrow> Some (err, br, c)))))"

subsection \<open>What is sent\<close>

fun item_command :: "batchItem \<Rightarrow> batch_command \<Rightarrow> bool" where
  "item_command bi (BExecParams q vs oids fs rfs) \<longleftrightarrow> q = bi_query bi \<and> length vs = length (bi_arguments bi)
     \<and> length oids = length (bi_arguments bi) \<and> length fs = length (bi_arguments bi)"
| "item_command bi (BExecPrepared name vs fs rfs) \<longleftrightarrow> name \<noteq> [] \<and> length vs = length (bi_arguments bi)
     \<and> length fs = length (bi_arguments bi)"

text \<open>The calls that only describe statements.\<close>

definition describing :: "pg_command list \<Rightarrow> bool" where
  "describing cmds \<longleftrightarrow> (\<forall>cmd \<in> set cmds. \<not> executes cmd)"

lemma describing_simps [simp]:
  "describing []" "describing (cmd # cmds) \<longleftrightarrow> \<not> executes cmd \<and> describing cmds"
  "describing (xs @ ys) \<longleftrightarrow> describing xs \<and> describing ys"
  by (auto simp: describing_def)

lemma prefill_sent: "prefill ops h sqls c = (err, c') \<Longrightarrow> \<exists>gets. sent c' = sent c @ gets \<and> describing gets"
proof (induction sqls arbitrary: c)
  case (Cons sql sqls)
  obtain r c1 where g: "cacheGet ops h sql c = (r, c1)" by force
  show ?case
  proof (cases r)
    case (Inl e)
    with Cons(2) g cacheGet_sent [OF g] show ?thesis by auto
  next
    case (Inr sd)
    with Cons(2) g have "prefill ops h sqls c1 = (err, c')" by simp
    from Cons(1) [OF this] cacheGet_sent [OF g] show ?thesis by auto
  qed
qed simp

lemma batchCache_sent [simp]: "sent (snd (batchCache ops n c)) = sent c"
  "preparedStatements (snd (batchCache ops n c)) = preparedStatements c"
  by (simp_all add: batchCache_def split: option.split)

lemma openBatchCache_sent:
  "openBatchCache ops iteration queries c = (sc, err, c') \<Longrightarrow> \<exists>gets. sent c' = sent c @ gets \<and> describing gets"
  using prefill_sent [of ops _ "iteration queries" "snd (batchCache ops (length queries) c)" err c']
  by (auto simp: openBatchCache_def case_prod_unfold split: if_splits)

lemma prefill_keeps: "prefill ops h sqls c = (err, c') \<Longrightarrow> preparedStatements c' = preparedStatements c"
proof (induction sqls arbitrary: c)
  case (Cons sql sqls)
  obtain r c1 where g: "cacheGet ops h sql c = (r, c1)" by force
  then have "preparedStatements c1 = preparedStatements c" by (metis cacheGet_def sendPg_keeps(1) snd_conv)
  with Cons g show ?case by (cases r) auto
qed simp

lemma openBatchCache_keeps:
  "openBatchCache ops iteration queries c = (sc, err, c') \<Longrightarrow> preparedStatements c' = preparedStatements c"
  using prefill_keeps [of ops _ "iteration queries" "snd (batchCache ops (length queries) c)" err c']
  by (auto simp: openBatchCache_def case_prod_unfold split: if_splits)

lemma batchStatement_sent:
  "batchStatement ops sc query c = Some (sd, c') \<Longrightarrow> (\<exists>gets. sent c' = sent c @ gets \<and> describing gets) \<and> c_eqb c' = c_eqb c
    \<and> preparedStatements c' = preparedStatements c"
  unfolding batchStatement_def cacheGet_def
  by (auto split: option.splits prod.splits sum.splits dest!: arg_cong [of "sendPg _ _ _" _ snd])

lemma batchParams_keeps:
  "batchParams env sd arguments c = Some (err, args, c') \<Longrightarrow> sent c' = sent c \<and> pgConn c' = pgConn c
    \<and> preparedStatements c' = preparedStatements c \<and> stmtcache c' = stmtcache c"
  by (auto simp: batchParams_def split: if_splits option.splits prod.splits)

lemma batchParams_command:
  assumes "batchParams env sd (bi_arguments bi) c = Some (None, args, c')" and "c_eqb c = eqb_Reset eqb"
  shows "item_command bi (batchCommand (bi_query bi) sd (c_eqb c'))"
proof -
  have len: "length (sd_ParamOIDs sd) = length (bi_arguments bi)"
    using assms(1) by (auto simp: batchParams_def split: if_splits)
  obtain eqb' where p: "eqb_AppendParams env (sd_ParamOIDs sd) (snd (convertDriverValuers env (bi_arguments bi))) (eqb_Reset eqb)
        = Some (None, eqb')" "c_eqb c' = eqb_AppendResultFormats env (map fd_DataTypeOID (sd_Fields sd)) eqb'"
    using assms by (auto simp: batchParams_def split: if_splits option.splits prod.splits)
  from eqb_AppendParams_ok [OF p(1)] len show ?thesis
    by (auto simp: batchCommand_def p(2) eqb_AppendResultFormats_simps dest: list_all2_lengthD)
qed

lemma buildBatch_sent:
  "buildBatch sy sc items c = Some (r, items', c') \<Longrightarrow> \<exists>gets. sent c' = sent c @ gets \<and> describing gets
    \<and> (\<forall>cmds. r = Inr cmds \<longrightarrow> list_all2 item_command items cmds)"
proof (induction items arbitrary: c r items' c')
  case (Cons bi items)
  obtain sd c1 where st: "batchStatement (s_ops sy) sc (bi_query bi) (resetEqb c) = Some (sd, c1)"
    using Cons(2) by (auto simp: Option.bind_eq_Some_conv)
  note s1 = batchStatement_sent [OF st]
  obtain err args c2 where p: "batchParams (s_env sy) sd (bi_arguments bi) c1 = Some (err, args, c2)"
    using Cons(2) st by (auto simp: Option.bind_eq_Some_conv)
  note s2 = batchParams_keeps [OF p]
  show ?case
  proof (cases err)
    case (Some e)
    with Cons(2) st p s1 s2 show ?thesis by (auto simp: Let_def)
  next
    case None
    obtain r1 items1 where b: "buildBatch sy sc items c2 = Some (r1, items1, c')"
      "r = (case r1 of Inl e \<Rightarrow> Inl e | Inr cmds \<Rightarrow> Inr (batchCommand (bi_query bi) sd (c_eqb c2) # cmds))"
      using Cons(2) st p None by (auto simp: Let_def)
    have "item_command bi (batchCommand (bi_query bi) sd (c_eqb c2))"
      using batchParams_command [OF p [unfolded None]] s1 by simp
    with Cons(1) [OF b(1)] b(2) s1 s2 show ?thesis by (auto split: sum.splits)
  qed
qed simp

definition one_batch :: "batchItem list \<Rightarrow> pg_command \<Rightarrow> bool" where
  "one_batch items cmd \<longleftrightarrow> (\<exists>sql. cmd = PgExec sql) \<or> (\<exists>cmds. cmd = PgExecBatch cmds \<and> list_all2 item_command items cmds)"

lemma sendExtended_sent:
  assumes "sendExtended iteration sy b c = Some (br, b', c')"
  shows "\<exists>gets. describing gets \<and> (case br_err br of
      None \<Rightarrow> \<exists>cmds. sent c' = sent c @ gets @ [PgExecBatch cmds] \<and> list_all2 item_command (b_items b) cmds
    | Some e \<Rightarrow> sent c' = sent c @ gets)"
proof -
  obtain sc err c1 where pre: "openBatchCache (s_ops sy) iteration (distinctUnprepared c (b_items b)) c = (sc, err, c1)"
    by (rule prod_cases3)
  from openBatchCache_sent [OF this] obtain gets where s1: "sent c1 = sent c @ gets" "describing gets" by blast
  note unfold = assms [unfolded sendExtended_def Let_def pre]
  show ?thesis
  proof (cases err)
    case (Some e)
    with unfold s1 show ?thesis by (auto simp: error_batch_def)
  next
    case None
    obtain r items c2 where b: "buildBatch sy sc (b_items b) c1 = Some (r, items, c2)"
      using unfold None by (auto simp: Option.bind_eq_Some_conv)
    obtain gets2 where s2: "sent c2 = sent c1 @ gets2" "describing gets2"
        "\<forall>cmds. r = Inr cmds \<longrightarrow> list_all2 item_command (b_items b) cmds"
      using buildBatch_sent [OF b] by auto
    show ?thesis
    proof (cases r)
      case (Inl e)
      with unfold None b s1 s2 show ?thesis by (intro exI [of _ "gets @ gets2"]) (auto simp: error_batch_def)
    next
      case (Inr cmds)
      with unfold None b s1 s2 show ?thesis
        by (intro exI [of _ "gets @ gets2"]) (auto simp: started_batch_def case_prod_unfold)
    qed
  qed
qed

subsection \<open>The statement cache keeps the statements of a batch\<close>

text \<open>
  The contract of \<open>stmtcache\<close>, for a predicate that says which texts a cache holds: a text that
  was got is held together with those held before as long as they fit the capacity, and getting
  a held text succeeds. A new cache has the capacity it was asked for.
\<close>

definition keeps_statements :: "'pg pgconn_ops \<Rightarrow> (nat \<Rightarrow> string set \<Rightarrow> 'pg \<Rightarrow> bool) \<Rightarrow> bool" where
  "keeps_statements ops holds \<longleftrightarrow>
     (\<forall>h pg. holds h {} pg) \<and>
     (\<forall>mode n pg pg' ns h. 0 < n \<longrightarrow> cache_New ops mode n pg = (pg', ns, h) \<longrightarrow> cache_Cap ops h pg' = n) \<and>
     (\<forall>h Q sql pg pg' ns sd. holds h Q pg \<longrightarrow> cache_Get ops h sql pg = (pg', ns, Inr sd) \<longrightarrow>
        int (card (insert sql Q)) \<le> cache_Cap ops h pg \<longrightarrow> holds h (insert sql Q) pg' \<and> cache_Cap ops h pg' = cache_Cap ops h pg) \<and>
     (\<forall>h Q sql pg. holds h Q pg \<longrightarrow> sql \<in> Q \<longrightarrow> (\<exists>pg' ns sd. cache_Get ops h sql pg = (pg', ns, Inr sd) \<and> holds h Q pg'))"

lemma cacheGet_result:
  "cacheGet ops h sql c = (r, c') \<Longrightarrow> \<exists>ns. cache_Get ops h sql (pgConn c) = (pgConn c', ns, r)"
  by (auto simp: cacheGet_def sendPg_def onPg_unfold prod_eq_iff)

lemma prefill_holds:
  assumes "keeps_statements ops holds"
  shows "prefill ops h sqls c = (None, c') \<Longrightarrow> holds h Q (pgConn c) \<Longrightarrow> finite Q
    \<Longrightarrow> int (card (Q \<union> set sqls)) \<le> cache_Cap ops h (pgConn c) \<Longrightarrow> holds h (Q \<union> set sqls) (pgConn c')"
proof (induction sqls arbitrary: c Q)
  case (Cons sql sqls)
  obtain sd c1 where g: "cacheGet ops h sql c = (Inr sd, c1)" and p: "prefill ops h sqls c1 = (None, c')"
    using Cons(2) by (auto split: prod.splits sum.splits)
  obtain ns where ns: "cache_Get ops h sql (pgConn c) = (pgConn c1, ns, Inr sd)" using cacheGet_result [OF g] by blast
  have "card (insert sql Q) \<le> card (Q \<union> set (sql # sqls))" using Cons(4) by (intro card_mono) auto
  with Cons(3,5) ns assms have "holds h (insert sql Q) (pgConn c1)" "cache_Cap ops h (pgConn c1) = cache_Cap ops h (pgConn c)"
    unfolding keeps_statements_def by (metis (no_types, lifting) of_nat_mono order_trans)+
  from Cons(1) [OF p this(1)] this(2) Cons(4,5) show ?case by simp
qed simp

lemma batchStatement_returns:
  assumes "keeps_statements ops holds" and "\<And>h. sc = Some h \<Longrightarrow> holds h Q (pgConn c)"
    and "preparedStatements c q = None \<Longrightarrow> sc \<noteq> None \<and> q \<in> Q"
  shows "\<exists>sd c'. batchStatement ops sc q c = Some (sd, c') \<and> (\<forall>h. sc = Some h \<longrightarrow> holds h Q (pgConn c'))"
proof (cases "preparedStatements c q")
  case (Some sd)
  with assms(2) show ?thesis by (simp add: batchStatement_def)
next
  case None
  with assms(3) obtain h where h: "sc = Some h" "q \<in> Q" by auto
  obtain r c1 where g: "cacheGet ops h q c = (r, c1)" by force
  obtain ns where ns: "cache_Get ops h q (pgConn c) = (pgConn c1, ns, r)" using cacheGet_result [OF g] by blast
  with assms(1) h assms(2) [OF h(1)] obtain sd where "r = Inr sd" "holds h Q (pgConn c1)"
    unfolding keeps_statements_def by (metis prod.inject)
  with None h g show ?thesis by (auto simp: batchStatement_def)
qed

lemma batchParams_returns: "encodes_all env \<Longrightarrow> \<exists>r. batchParams env sd args c = Some r"
  using eqb_AppendParams_returns [of env "sd_ParamOIDs sd" "snd (convertDriverValuers env args)" "c_eqb c"]
  by (auto simp: batchParams_def split: option.splits prod.splits)

lemma buildBatch_returns:
  assumes "keeps_statements (s_ops sy) holds" and "encodes_all (s_env sy)"
  shows "(\<And>h. sc = Some h \<Longrightarrow> holds h Q (pgConn c)) \<Longrightarrow>
    (\<And>bi. bi \<in> set items \<Longrightarrow> preparedStatements c (bi_query bi) = None \<Longrightarrow> sc \<noteq> None \<and> bi_query bi \<in> Q) \<Longrightarrow>
    \<exists>r. buildBatch sy sc items c = Some r"
proof (induction items arbitrary: c)
  case (Cons bi items)
  obtain sd c1 where st: "batchStatement (s_ops sy) sc (bi_query bi) (resetEqb c) = Some (sd, c1)"
      "\<forall>h. sc = Some h \<longrightarrow> holds h Q (pgConn c1)"
    using batchStatement_returns [OF assms(1), of sc Q "resetEqb c" "bi_query bi"] Cons(2) Cons(3) [of bi] by auto
  obtain err args c2 where p: "batchParams (s_env sy) sd (bi_arguments bi) c1 = Some (err, args, c2)"
    using batchParams_returns [OF assms(2)] by (metis prod_cases3)
  note keeps = batchParams_keeps [OF p] batchStatement_sent [OF st(1)]
  have "\<exists>r. buildBatch sy sc items c2 = Some r"
  proof (rule Cons(1))
    show "holds h Q (pgConn c2)" if "sc = Some h" for h using that st(2) keeps by simp
    show "sc \<noteq> None \<and> bi_query bi' \<in> Q" if "bi' \<in> set items" "preparedStatements c2 (bi_query bi') = None" for bi'
      using that Cons(3) [of bi'] keeps by simp
  qed
  with st p show ?case by (auto simp: Let_def split: option.split)
qed simp

lemma openBatchCache_holds:
  assumes "keeps_statements ops holds" and "set (iteration queries) = set queries" and "distinct queries"
    and "openBatchCache ops iteration queries c = (sc, None, c')"
  shows "(\<forall>h. sc = Some h \<longrightarrow> holds h (set queries) (pgConn c')) \<and> (queries \<noteq> [] \<longrightarrow> sc \<noteq> None)"
proof (cases "queries = []")
  case False
  obtain h c1 where bc: "batchCache ops (length queries) c = (h, c1)" by force
  have "int (length queries) \<le> cache_Cap ops h (pgConn c1)"
    using bc assms(1) False by (auto simp: batchCache_def keeps_statements_def onPg_unfold prod_eq_iff split: option.splits if_splits)
  then have cap: "int (card ({} \<union> set (iteration queries))) \<le> cache_Cap ops h (pgConn c1)"
    using assms(2,3) by (simp add: distinct_card)
  have "holds h {} (pgConn c1)" using assms(1) by (simp add: keeps_statements_def)
  with False assms(2,4) bc prefill_holds [OF assms(1), of h "iteration queries" c1 c' "{}"] cap show ?thesis
    by (auto simp: openBatchCache_def)
qed (use assms in \<open>simp add: openBatchCache_def\<close>)

subsection \<open>Logging\<close>

definition logged_sql :: "log_entry \<Rightarrow> log_data option" where
  "logged_sql entry = map_of (snd (snd entry)) ''sql''"

lemma shouldLog_keeps [simp]:
  "shouldLog (snd (onPg f c)) lvl = shouldLog c lvl" "shouldLog (log_if ops l msg d c) lvl = shouldLog c lvl"
  by (simp_all add: shouldLog_def)

lemma shouldLog_Error: "shouldLog c LogLevelInfo \<Longrightarrow> shouldLog c LogLevelError"
  by (auto simp: shouldLog_def LogLevelInfo_def LogLevelError_def word_sle_eq)

lemma log_batch:
  "shouldLog c lvl \<Longrightarrow> map logged_sql (logged (log_if ops lvl msg (batchLog q args @ d) c))
     = map logged_sql (logged c) @ [Some (LString q)]"
  by (simp add: log_if_def log_msg_def logged_sql_def batchLog_def Let_def)

lemmas log_batch0 = log_batch [where d = "[]", simplified]

fun execs :: "'pg pgconn_ops \<Rightarrow> nat \<Rightarrow> batchResults \<Rightarrow> 'pg Conn \<Rightarrow> (batchResults \<times> 'pg Conn) option" where
  "execs ops 0 br c = Some (br, c)"
| "execs ops (Suc n) br c = Option.bind (br_Exec ops br c) (\<lambda>(_, br, c). execs ops n br c)"

definition reading :: "Batch \<Rightarrow> nat \<Rightarrow> nat \<Rightarrow> batchResults" where
  "reading b mrr ix = \<lparr>br_mrr = Some mrr, br_err = None, br_b = Some b, br_ix = ix\<rparr>"

lemma br_Exec_logs:
  assumes "shouldLog c LogLevelInfo" and "ix < length (b_items b)"
  shows "\<exists>res c'. br_Exec ops (reading b mrr ix) c = Some (res, reading b mrr (Suc ix), c') \<and> shouldLog c' LogLevelInfo
    \<and> map logged_sql (logged c') = map logged_sql (logged c) @ [Some (LString (bi_query (b_items b ! ix)))]"
  using assms shouldLog_Error [OF assms(1)]
  by (simp add: br_Exec_def nextQueryAndArgs_def reading_def Let_def case_prod_unfold log_batch split: option.split)

lemma execs_log:
  assumes "shouldLog c LogLevelInfo" and "ix + n \<le> length (b_items b)"
  shows "\<exists>c'. execs ops n (reading b mrr ix) c = Some (reading b mrr (ix + n), c') \<and> shouldLog c' LogLevelInfo
    \<and> map logged_sql (logged c') = map logged_sql (logged c) @ map (Some \<circ> LString \<circ> bi_query) (take n (drop ix (b_items b)))"
  using assms
proof (induction n arbitrary: ix c)
  case (Suc n)
  obtain res c1 where e: "br_Exec ops (reading b mrr ix) c = Some (res, reading b mrr (Suc ix), c1)" "shouldLog c1 LogLevelInfo"
    "map logged_sql (logged c1) = map logged_sql (logged c) @ [Some (LString (bi_query (b_items b ! ix)))]"
    using br_Exec_logs [OF Suc(2), of ix b ops mrr] Suc(3) by auto
  have "drop ix (b_items b) = b_items b ! ix # drop (Suc ix) (b_items b)" using Suc(3) by (simp add: Cons_nth_drop_Suc)
  with Suc(1) [OF e(2), of "Suc ix"] Suc(3) e show ?case by auto
qed simp

lemma logUnread_log:
  assumes "shouldLog c LogLevelInfo" and "ix \<le> length (b_items b)"
  shows "\<exists>c'. logUnread ops (reading b mrr ix) c = (reading b mrr (length (b_items b)), c') \<and>
    map logged_sql (logged c') = map logged_sql (logged c) @ map (Some \<circ> LString \<circ> bi_query) (drop ix (b_items b))"
  using assms
proof (induction "length (b_items b) - ix" arbitrary: ix c)
  case 0
  then show ?case by (subst logUnread.simps) (simp add: nextQueryAndArgs_def reading_def)
next
  case (Suc n)
  have ix: "ix < length (b_items b)" using Suc(2) by simp
  let ?bi = "b_items b ! ix"
  let ?c = "log_if ops LogLevelInfo ''BatchResult.Close'' (batchLog (bi_query ?bi) (bi_arguments ?bi)) c"
  have u: "logUnread ops (reading b mrr ix) c = logUnread ops (reading b mrr (Suc ix)) ?c"
    using ix by (subst logUnread.simps) (simp add: nextQueryAndArgs_def reading_def Let_def)
  have d: "drop ix (b_items b) = ?bi # drop (Suc ix) (b_items b)" using Suc(2) by (simp add: Cons_nth_drop_Suc)
  from Suc(1) [of "Suc ix" ?c] Suc(2-4) ix show ?case unfolding u d by (auto simp: log_batch0)
qed

subsection \<open>Properties\<close>





text \<open>
  C27. Each query of a batch is logged exactly once and in the order in which it was queued: at
  level info, after any number of calls of \<open>Exec\<close> up to the length of the batch and a call of
  \<open>Close\<close>, the texts logged since the start are the texts of the queued queries.
\<close>

theorem batch_logs_once:
  assumes "shouldLog c LogLevelInfo" and "n \<le> Batch_Len b"
  shows "\<exists>br err br' c1 c'. execs ops n (started_batch mrr b) c = Some (br, c1) \<and> br_Close ops br c1 = Some (err, br', c')
    \<and> map logged_sql (logged c') = map logged_sql (logged c) @ map (Some \<circ> LString \<circ> bi_query) (b_items b)"
proof -
  have s: "started_batch mrr b = reading b mrr 0" by (simp add: started_batch_def reading_def)
  obtain c1 where e: "execs ops n (reading b mrr 0) c = Some (reading b mrr n, c1)" "shouldLog c1 LogLevelInfo"
    "map logged_sql (logged c1) = map logged_sql (logged c) @ map (Some \<circ> LString \<circ> bi_query) (take n (b_items b))"
    using execs_log [OF assms(1), of 0 n b ops mrr] assms(2) by (auto simp: Batch_Len_def)
  obtain c2 where l: "logUnread ops (reading b mrr n) c1 = (reading b mrr (length (b_items b)), c2)"
    "map logged_sql (logged c2) = map logged_sql (logged c1) @ map (Some \<circ> LString \<circ> bi_query) (drop n (b_items b))"
    using logUnread_log [OF e(2), of n b ops mrr] assms(2) by (auto simp: Batch_Len_def)
  have "map (Some \<circ> LString \<circ> bi_query) (take n (b_items b)) @ map (Some \<circ> LString \<circ> bi_query) (drop n (b_items b))
      = map (Some \<circ> LString \<circ> bi_query) (b_items b)" by (metis append_take_drop_id map_append)
  moreover have "\<exists>err c'. br_Close ops (reading b mrr n) c1 = Some (err, reading b mrr (length (b_items b)), c') \<and> logged c' = logged c2"
    using l(1) by (simp add: br_Close_def reading_def case_prod_unfold)
  ultimately show ?thesis using s e l(2) by auto
qed

theorem batch_logs_once_witness:
  "\<exists>br err br' c1 c'. execs demo_ops 1 (started_batch 0 (Queue ''a'' [] (Queue ''b'' [] \<lparr>b_items = []\<rparr>)))
      (demo_conn\<lparr>hasLogger := True, logLevel := LogLevelInfo\<rparr>) = Some (br, c1)
    \<and> br_Close demo_ops br c1 = Some (err, br', c')
    \<and> map logged_sql (logged c') = map logged_sql (logged (demo_conn\<lparr>hasLogger := True, logLevel := LogLevelInfo\<rparr>))
        @ map (Some \<circ> LString \<circ> bi_query) (b_items (Queue ''a'' [] (Queue ''b'' [] \<lparr>b_items = []\<rparr>)))"
  by (rule batch_logs_once) (simp_all add: shouldLog_def Queue_def Batch_Len_def)

end
