(* ===== verification/Copy_From.thy ===== *)
theory Copy_From
  imports Conn_Query
begin

text \<open>
  \<open>src/copy_from.go\<close>: sources of rows, the writer of the binary copy format and \<open>CopyFrom\<close>,
  with a contract for sources, which the two sources of the package satisfy, and a reader of the
  copy format.

  The writer is a goroutine that shares a pipe with \<open>pgconn.CopyFrom\<close> and nothing else, so it
  is run first and its stream handed over. How many chunks the other side accepts before it
  closes the pipe is a parameter, \<open>None\<close> for all of them.
\<close>

subsection \<open>Sources\<close>

record 's CopyFromSource =
  src_Next :: "'s \<Rightarrow> bool \<times> 's"
  src_Values :: "'s \<Rightarrow> ((goval list \<times> go_error option) \<times> 's) option"
  src_Err :: "'s \<Rightarrow> go_error option"

record copyFromRows =
  ctr_rows :: "goval list list"
  ctr_idx :: int

definition CopyFromRows :: "goval list list \<Rightarrow> copyFromRows" where
  "CopyFromRows rows = \<lparr>ctr_rows = rows, ctr_idx = - 1\<rparr>"

definition copyFromRows_Next :: "copyFromRows \<Rightarrow> bool \<times> copyFromRows" where
  "copyFromRows_Next ctr =
     (let ctr = ctr\<lparr>ctr_idx := ctr_idx ctr + 1\<rparr> in (ctr_idx ctr < int (length (ctr_rows ctr)), ctr))"

definition copyFromRows_Values :: "copyFromRows \<Rightarrow> ((goval list \<times> go_error option) \<times> copyFromRows) option" where
  "copyFromRows_Values ctr =
     (if 0 \<le> ctr_idx ctr \<and> ctr_idx ctr < int (length (ctr_rows ctr))
      then Some ((ctr_rows ctr ! nat (ctr_idx ctr), None), ctr) else None)"

definition copyFromRows_Err :: "copyFromRows \<Rightarrow> go_error option" where
  "copyFromRows_Err ctr = None"

definition rowsSource :: "copyFromRows CopyFromSource" where
  "rowsSource = \<lparr>src_Next = copyFromRows_Next, src_Values = copyFromRows_Values, src_Err = copyFromRows_Err\<rparr>"

record copyFromSlice =
  cts_next :: "int \<Rightarrow> goval list \<times> go_error option"
  cts_idx :: int
  cts_len :: int
  cts_err :: "go_error option"

definition CopyFromSlice :: "int \<Rightarrow> (int \<Rightarrow> goval list \<times> go_error option) \<Rightarrow> copyFromSlice" where
  "CopyFromSlice len next = \<lparr>cts_next = next, cts_idx = - 1, cts_len = len, cts_err = None\<rparr>"

definition copyFromSlice_Next :: "copyFromSlice \<Rightarrow> bool \<times> copyFromSlice" where
  "copyFromSlice_Next cts =
     (let cts = cts\<lparr>cts_idx := cts_idx cts + 1\<rparr> in (cts_idx cts < cts_len cts, cts))"

definition copyFromSlice_Values :: "copyFromSlice \<Rightarrow> ((goval list \<times> go_error option) \<times> copyFromSlice) option" where
  "copyFromSlice_Values cts =
     (case cts_next cts (cts_idx cts) of (values, err) \<Rightarrow>
        Some ((values, err), if err \<noteq> None then cts\<lparr>cts_err := err\<rparr> else cts))"

definition copyFromSlice_Err :: "copyFromSlice \<Rightarrow> go_error option" where
  "copyFromSlice_Err cts = cts_err cts"

definition sliceSource :: "copyFromSlice CopyFromSource" where
  "sliceSource = \<lparr>src_Next = copyFromSlice_Next, src_Values = copyFromSlice_Values, src_Err = copyFromSlice_Err\<rparr>"

subsection \<open>The writer\<close>

text \<open>The values of a row; \<open>None\<close> when there are fewer fields than values.\<close>

fun encodeRow :: "pgtype_env \<Rightarrow> bytes \<Rightarrow> oid list \<Rightarrow> goval list \<Rightarrow> (go_error + bytes) option" where
  "encodeRow env buf oids [] = Some (Inr buf)"
| "encodeRow env buf [] (val # vals) = None"
| "encodeRow env buf (oid # oids) (val # vals) =
     (case encodePreparedStatementArgument env buf oid val of
        None \<Rightarrow> None
      | Some (Inl err) \<Rightarrow> Some (Inl err)
      | Some (Inr buf) \<Rightarrow> encodeRow env buf oids vals)"

definition valueCountError :: "nat \<Rightarrow> nat \<Rightarrow> go_error" where
  "valueCountError expected got =
     Errorf (''expected '' @ FormatInt (int expected) @ '' values, got '' @ FormatInt (int got) @ '' values'')"

text \<open>\<open>n\<close> is the number of column names and \<open>oids\<close> the types of the fields of the statement.\<close>

partial_function (option) buildCopyBuf ::
  "'s CopyFromSource \<Rightarrow> pgtype_env \<Rightarrow> nat \<Rightarrow> oid list \<Rightarrow> bytes \<Rightarrow> 's
     \<Rightarrow> ((bool \<times> bytes \<times> go_error option) \<times> 's) option" where
  "buildCopyBuf iface env n oids buf s =
     (case src_Next iface s of (ok, s) \<Rightarrow>
        if \<not> ok then Some ((False, buf, None), s)
        else Option.bind (src_Values iface s) (\<lambda>((values, err), s).
          if err \<noteq> None then Some ((False, [], err), s)
          else if length values \<noteq> n then Some ((False, [], Some (valueCountError n (length values))), s)
          else Option.bind (encodeRow env (AppendInt16 env buf (of_nat n)) oids values) (\<lambda>r.
            case r of
              Inl err \<Rightarrow> Some ((False, [], Some err), s)
            | Inr buf \<Rightarrow>
                if 65536 < length buf then Some ((True, buf, None), s)
                else buildCopyBuf iface env n oids buf s)))"

definition copySignature :: bytes where
  "copySignature = ''PGCOPY'' @ [CHR 0x0A, CHR 0xFF, CHR 0x0D, CHR 0x0A, CHR 0x00]"

definition copyHeader :: "pgtype_env \<Rightarrow> bytes" where
  "copyHeader env = AppendInt32 env (AppendInt32 env copySignature 0) 0"

partial_function (option) copyWriter ::
  "'s CopyFromSource \<Rightarrow> pgtype_env \<Rightarrow> nat \<Rightarrow> oid list \<Rightarrow> nat option \<Rightarrow> bytes \<Rightarrow> 's \<Rightarrow> bytes list
     \<Rightarrow> (copy_stream \<times> 's) option" where
  "copyWriter iface env n oids accepts buf s chunks =
     Option.bind (buildCopyBuf iface env n oids buf s) (\<lambda>((moreRows, buf, err), s).
       if err \<noteq> None then Some ((chunks, err), s)
       else if src_Err iface s \<noteq> None then Some ((chunks, src_Err iface s), s)
       else if buf \<noteq> [] \<and> accepts = Some (length chunks) then Some ((chunks, None), s)
       else (let chunks = (if buf \<noteq> [] then chunks @ [buf] else chunks) in
             if moreRows then copyWriter iface env n oids accepts [] s chunks
             else Some ((chunks, None), s)))"

subsection \<open>CopyFrom\<close>

definition quoteColumns :: "string list \<Rightarrow> string" where
  "quoteColumns columnNames = Join (map quoteIdentifier columnNames) '', ''"

definition copySelect :: "Identifier \<Rightarrow> string list \<Rightarrow> string" where
  "copySelect tableName columnNames =
     ''select '' @ quoteColumns columnNames @ '' from '' @ Identifier_Sanitize tableName"

definition copyCommand :: "Identifier \<Rightarrow> string list \<Rightarrow> string" where
  "copyCommand tableName columnNames =
     ''copy '' @ Identifier_Sanitize tableName @ '' ( '' @ quoteColumns columnNames @ '' ) from stdin binary;''"

text \<open>\<open>copyFrom.run\<close>: the number of rows and the error, the source, and the connection.\<close>

definition Conn_CopyFrom ::
  "'pg surroundings \<Rightarrow> 's CopyFromSource \<Rightarrow> nat option \<Rightarrow> Identifier \<Rightarrow> string list \<Rightarrow> 's \<Rightarrow> 'pg Conn
     \<Rightarrow> ((int \<times> go_error option) \<times> 's \<times> 'pg Conn) option" where
  "Conn_CopyFrom sy iface accepts tableName columnNames rowSrc c =
     (case Conn_Prepare (s_ops sy) [] (copySelect tableName columnNames) c of
        (Inl err, c) \<Rightarrow> Some ((0, Some err), rowSrc, c)
      | (Inr sd, c) \<Rightarrow>
          Option.bind (copyWriter iface (s_env sy) (length columnNames) (map fd_DataTypeOID (sd_Fields sd)) accepts
              (copyHeader (s_env sy)) rowSrc []) (\<lambda>(stream, rowSrc).
            let sql = copyCommand tableName columnNames;
                names = [(''tableName'', LIdent tableName), (''columnNames'', LStrings columnNames)] in
            case sendPg (PgCopyFrom sql stream) (op_CopyFrom (s_ops sy) stream sql) c of ((tag, err), c) \<Rightarrow>
              let rowsAffected = tag_RowsAffected (s_ops sy) tag;
                  c = (case err of
                         None \<Rightarrow> log_if (s_ops sy) LogLevelInfo ''CopyFrom'' (names @ [(''rowCount'', LInt rowsAffected)]) c
                       | Some e \<Rightarrow> log_if (s_ops sy) LogLevelError ''CopyFrom'' ((''err'', LError err) # names) c)
              in Some ((rowsAffected, err), rowSrc, c)))"

subsection \<open>The copy format\<close>

text \<open>
  A tuple: the number of its fields and each field in its frame. \<open>copied\<close>: what is known of a
  field without looking into the encoders.
\<close>

definition tuple :: "bytes option list \<Rightarrow> bytes" where
  "tuple fs = be16 (of_nat (length fs)) @ concat (map framed fs)"

definition copied :: "goval \<Rightarrow> bytes option \<Rightarrow> bool" where
  "copied arg v \<longleftrightarrow> (arg = GNil \<longrightarrow> v = None) \<and> (\<forall>s. arg = GString s \<longrightarrow> v = Some s)"

definition copy_env :: "pgtype_env \<Rightarrow> bool" where
  "copy_env env \<longleftrightarrow> pgio_ok env \<and> encoders_ok env \<and> methods_ok env \<and> valuers_ok env \<and> binary_registered env"

lemma encodePrepared_copied:
  assumes "copy_env env" and "encodePreparedStatementArgument env buf oid v = Some (Inr out)"
  shows "\<exists>x. out = buf @ framed x \<and> copied v x"
proof -
  consider "v = GNil" | s where "v = GString s" | "v \<noteq> GNil" "\<forall>s. v \<noteq> GString s" by blast
  then show ?thesis
  proof cases
    case 1
    with assms have "out = buf @ framed None"
      by (simp add: encodePreparedStatementArgument.simps encodePreparedStep_def copy_env_def pgio_ok_def framed_def)
    with 1 show ?thesis by (auto simp: copied_def)
  next
    case 2
    with assms have "out = buf @ framed (Some s)"
      by (simp add: encodePreparedStatementArgument.simps encodePreparedStep_def copy_env_def pgio_ok_def
          methods_ok_def framed_def)
    with 2 show ?thesis by (auto simp: copied_def)
  next
    case 3
    with encodePreparedStatementArgument_framed [OF assms(2), of out] assms(1) show ?thesis
      by (auto simp: copied_def copy_env_def)
  qed
qed

lemma encodeRow_frames:
  assumes "copy_env env" and "encodeRow env buf oids vals = Some (Inr out)"
  shows "\<exists>fs. list_all2 copied vals fs \<and> out = buf @ concat (map framed fs)"
  using assms
proof (induction env buf oids vals rule: encodeRow.induct)
  case (3 env buf oid oids val vals)
  obtain buf1 where b: "encodePreparedStatementArgument env buf oid val = Some (Inr buf1)"
    "encodeRow env buf1 oids vals = Some (Inr out)"
    using 3(3) by (auto split: option.splits sum.splits)
  obtain x where x: "buf1 = buf @ framed x" "copied val x" using encodePrepared_copied [OF 3(2) b(1)] by blast
  obtain fs where "list_all2 copied vals fs" "out = buf1 @ concat (map framed fs)"
    using 3(1) [OF b(1) refl 3(2) b(2)] by blast
  with x show ?case by (intro exI [of _ "x # fs"]) simp
qed auto

lemma encodeRow_returns:
  assumes "copy_env env"
  shows "length vals \<le> length oids \<Longrightarrow> \<exists>r. encodeRow env buf oids vals = Some r"
proof (induction vals arbitrary: buf oids)
  case (Cons val vals)
  then obtain oid oids' where o: "oids = oid # oids'" "length vals \<le> length oids'" by (cases oids) auto
  obtain r where "encodePreparedStatementArgument env buf oid val = Some r"
    using encodePrepared_total [of env buf oid val] assms unfolding copy_env_def by blast
  with o Cons.IH [OF o(2)] show ?case by (auto split: sum.split)
qed simp

text \<open>Why a row of a source stops the copy with the error \<open>e\<close>.\<close>

fun rejected :: "pgtype_env \<Rightarrow> nat \<Rightarrow> oid list \<Rightarrow> go_error \<Rightarrow> go_error + goval list \<Rightarrow> bool" where
  "rejected env n oids e (Inl err) \<longleftrightarrow> e = err"
| "rejected env n oids e (Inr vals) \<longleftrightarrow>
     (if length vals \<noteq> n then e = valueCountError n (length vals)
      else \<exists>buf. encodeRow env buf oids vals = Some (Inl e))"

definition copies :: "nat \<Rightarrow> goval list list \<Rightarrow> bytes \<Rightarrow> bool" where
  "copies n rows payload \<longleftrightarrow> (\<forall>row \<in> set rows. length row = n)
     \<and> (\<exists>fs. list_all2 (list_all2 copied) rows fs \<and> payload = concat (map tuple fs))"

definition copy_result ::
  "pgtype_env \<Rightarrow> nat \<Rightarrow> oid list \<Rightarrow> (go_error + goval list) list \<Rightarrow> bytes \<Rightarrow> go_error option \<Rightarrow> bool" where
  "copy_result env n oids items payload err \<longleftrightarrow> (case err of
       None \<Rightarrow> \<exists>rows. items = map Inr rows \<and> copies n rows payload
     | Some e \<Rightarrow> \<exists>rows bad rest. items = map Inr rows @ bad # rest \<and> rejected env n oids e bad)"

lemma copies_Nil: "copies n [] []"
  by (simp add: copies_def)

lemma copies_append: "copies n rows p \<Longrightarrow> copies n rows' p' \<Longrightarrow> copies n (rows @ rows') (p @ p')"
  unfolding copies_def by (auto intro!: list_all2_appendI exI [of _ "_ @ _"])

lemma copies_row:
  assumes "copy_env env" and "encodeRow env (AppendInt16 env buf (of_nat (length vals))) oids vals = Some (Inr out)"
  shows "\<exists>p. out = buf @ p \<and> copies (length vals) [vals] p"
proof -
  obtain fs where "list_all2 copied vals fs" "out = (buf @ be16 (of_nat (length vals))) @ concat (map framed fs)"
    using encodeRow_frames [OF assms] assms(1) by (auto simp: copy_env_def pgio_ok_def)
  then show ?thesis
    by (intro exI [of _ "tuple fs"]) (auto simp: copies_def tuple_def dest: list_all2_lengthD intro!: exI [of _ "[fs]"])
qed

lemma copy_result_prepend:
  assumes "copies n rows p" and "copy_result env n oids items p' err"
  shows "copy_result env n oids (map Inr rows @ items) (p @ p') err"
proof (cases err)
  case None
  with assms obtain rows' where "items = map Inr rows'" "copies n rows' p'" by (auto simp: copy_result_def)
  with None copies_append [OF assms(1)] show ?thesis
    by (auto simp: copy_result_def intro!: exI [of _ "rows @ rows'"])
next
  case (Some e)
  with assms obtain rows' bad rest where "items = map Inr rows' @ bad # rest" "rejected env n oids e bad"
    by (auto simp: copy_result_def)
  with Some show ?thesis by (auto simp: copy_result_def intro!: exI [of _ "rows @ rows'"])
qed

text \<open>
  The result of \<open>buildCopyBuf\<close> on a source that still has \<open>items\<close>: either it stopped because the
  buffer is full, and the source goes on after the rows it has written, or it is the result of
  the whole copy.
\<close>

fun built ::
  "pgtype_env \<Rightarrow> nat \<Rightarrow> oid list \<Rightarrow> ('s \<Rightarrow> go_error option) \<Rightarrow> ('s \<Rightarrow> bool) \<Rightarrow> ('s \<Rightarrow> (go_error + goval list) list)
     \<Rightarrow> bytes \<Rightarrow> (go_error + goval list) list \<Rightarrow> (bool \<times> bytes \<times> go_error option) \<times> 's \<Rightarrow> bool" where
  "built env n oids serr ready remaining buf items ((moreRows, out, err), s') \<longleftrightarrow>
     (err = None \<longrightarrow> serr s' = None) \<and>
     (if err = None \<and> moreRows
      then ready s' \<and> (\<exists>rows p. rows \<noteq> [] \<and> items = map Inr rows @ remaining s' \<and> copies n rows p \<and> out = buf @ p)
      else (\<exists>p. (err = None \<longrightarrow> out = buf @ p) \<and> copy_result env n oids items p err))"

lemma built_prepend:
  assumes "copies n [vals] p" and "built env n oids serr ready remaining (buf @ p) items r"
  shows "built env n oids serr ready remaining buf (Inr vals # items) r"
proof -
  obtain moreRows out err s' where r: "r = ((moreRows, out, err), s')" by (metis surj_pair)
  show ?thesis
  proof (cases "err = None \<and> moreRows")
    case True
    with assms(2) r obtain rows q where "items = map Inr rows @ remaining s'" "copies n rows q" "out = (buf @ p) @ q"
      by auto
    with True r assms(2) copies_append [OF assms(1), of rows q] show ?thesis
      by (auto intro!: exI [of _ "vals # rows"] exI [of _ "p @ q"])
  next
    case False
    with assms(2) r obtain q where q: "err = None \<longrightarrow> out = (buf @ p) @ q" "copy_result env n oids items q err" by auto
    with copy_result_prepend [OF assms(1) q(2)] False assms(2) r show ?thesis
      by (auto intro!: exI [of _ "p @ q"])
  qed
qed

lemma copy_result_rejected:
  "rejected env n oids e item \<Longrightarrow> copy_result env n oids (item # items) p (Some e)"
  by (auto simp: copy_result_def intro!: exI [of _ "[]"])

text \<open>The description of a \<open>select\<close> with \<open>n\<close> columns has \<open>n\<close> fields.\<close>

definition describes :: "'pg pgconn_ops \<Rightarrow> string \<Rightarrow> nat \<Rightarrow> bool" where
  "describes ops sql n \<longleftrightarrow> (\<forall>pg sd. snd (snd (op_Prepare ops [] sql pg)) = Inr sd \<longrightarrow> length (sd_Fields sd) = n)"

subsection \<open>The contract of a source\<close>

text \<open>
  \<open>remaining\<close>: what the calls of \<open>Next\<close> and \<open>Values\<close> will still give, rows and errors.
\<close>

locale copy_source =
  fixes iface :: "'s CopyFromSource"
    and ready :: "'s \<Rightarrow> bool"
    and remaining :: "'s \<Rightarrow> (go_error + goval list) list"
  assumes at_end: "ready s \<Longrightarrow> remaining s = [] \<Longrightarrow> \<exists>s'. src_Next iface s = (False, s') \<and> src_Err iface s' = None"
    and at_row: "ready s \<Longrightarrow> remaining s = Inr vals # rest \<Longrightarrow>
      \<exists>s1 s2. src_Next iface s = (True, s1) \<and> src_Values iface s1 = Some ((vals, None), s2)
        \<and> src_Err iface s2 = None \<and> ready s2 \<and> remaining s2 = rest"
    and at_error: "ready s \<Longrightarrow> remaining s = Inl e # rest \<Longrightarrow>
      \<exists>s1 s2 vals. src_Next iface s = (True, s1) \<and> src_Values iface s1 = Some ((vals, Some e), s2)"
begin

text \<open>One call of \<open>buildCopyBuf\<close> returns, with the rows it has taken from the source.\<close>

lemma build_row:
  assumes env: "copy_env env" "n \<le> length oids" and s: "ready s" "remaining s = Inr vals # rest"
    and IH: "\<And>s buf. ready s \<Longrightarrow> remaining s = rest \<Longrightarrow> \<exists>r. buildCopyBuf iface env n oids buf s = Some r
      \<and> built env n oids (src_Err iface) ready remaining buf (remaining s) r"
  shows "\<exists>r. buildCopyBuf iface env n oids buf s = Some r
    \<and> built env n oids (src_Err iface) ready remaining buf (remaining s) r"
proof -
  obtain s1 s2 where s': "src_Next iface s = (True, s1)" "src_Values iface s1 = Some ((vals, None), s2)"
    "src_Err iface s2 = None" "ready s2" "remaining s2 = rest"
    using at_row [OF s] by blast
  note unfold = buildCopyBuf.simps [of iface env n oids buf s]
  show ?thesis
  proof (cases "length vals = n")
    case False
    then have "rejected env n oids (valueCountError n (length vals)) (Inr vals)" by simp
    with False s(2) s' copy_result_rejected show ?thesis by (subst unfold) fastforce
  next
    case len: True
    obtain r where r: "encodeRow env (AppendInt16 env buf (of_nat n)) oids vals = Some r"
      using encodeRow_returns [OF env(1)] env(2) len by blast
    show ?thesis
    proof (cases r)
      case (Inl e)
      with r len have "rejected env n oids e (Inr vals)" by auto
      with Inl s(2) s' r len copy_result_rejected show ?thesis by (subst unfold) fastforce
    next
      case (Inr out)
      obtain p where p: "out = buf @ p" "copies n [vals] p" using copies_row [OF env(1), of buf vals] r Inr len by auto
      obtain res where res: "buildCopyBuf iface env n oids out s2 = Some res"
          "built env n oids (src_Err iface) ready remaining out rest res"
        using IH [OF s'(4,5), of out] unfolding s'(5) by blast
      have "buildCopyBuf iface env n oids buf s = Some (if 65536 < length out then ((True, out, None), s2) else res)"
        using s' r Inr len res(1) by (subst unfold) simp
      moreover have "built env n oids (src_Err iface) ready remaining buf (remaining s) ((True, out, None), s2)"
        using s(2) s' p by (auto intro!: exI [of _ "[vals]"])
      moreover have "built env n oids (src_Err iface) ready remaining buf (remaining s) res"
        using built_prepend [OF p(2)] res(2) p(1) s(2) by simp
      ultimately show ?thesis by auto
    qed
  qed
qed

lemma build:
  assumes "copy_env env" and "n \<le> length oids" and "ready s"
  shows "\<exists>r. buildCopyBuf iface env n oids buf s = Some r
    \<and> built env n oids (src_Err iface) ready remaining buf (remaining s) r"
  using assms(3)
proof (induction "remaining s" arbitrary: s buf)
  case Nil
  obtain s' where "src_Next iface s = (False, s')" "src_Err iface s' = None" using at_end [OF Nil(2)] Nil(1) by auto
  with Nil(1) show ?case
    by (subst buildCopyBuf.simps) (auto simp: copy_result_def copies_Nil)
next
  case (Cons item rest)
  show ?case
  proof (cases item)
    case (Inl e)
    obtain s1 s2 vals where "src_Next iface s = (True, s1)" "src_Values iface s1 = Some ((vals, Some e), s2)"
      using at_error [OF Cons(3)] Cons(2) Inl by metis
    with Cons(2) [symmetric] Inl copy_result_rejected show ?thesis
      by (subst buildCopyBuf.simps) auto
  next
    case (Inr vals)
    with build_row [OF assms(1,2) Cons(3)] Cons(1,2) show ?thesis by metis
  qed
qed

text \<open>The whole stream, when the other side reads all of it.\<close>

lemma writer:
  assumes "copy_env env" and "n \<le> length oids" and "ready s"
  shows "\<exists>chunks err s'. copyWriter iface env n oids None buf s cs = Some ((cs @ chunks, err), s')
    \<and> (\<exists>p. (err = None \<longrightarrow> concat chunks = buf @ p) \<and> copy_result env n oids (remaining s) p err)"
  using assms(3)
proof (induction "length (remaining s)" arbitrary: s buf cs rule: less_induct)
  case less
  obtain moreRows out err s1 where b: "buildCopyBuf iface env n oids buf s = Some ((moreRows, out, err), s1)"
      "built env n oids (src_Err iface) ready remaining buf (remaining s) ((moreRows, out, err), s1)"
    using build [OF assms(1,2) less(2), of buf] by (metis surj_pair)
  note unfold = copyWriter.simps [of iface env n oids None buf s cs]
  show ?case
  proof (cases "err = None \<and> moreRows")
    case True
    with b(2) obtain rows p where p: "rows \<noteq> []" "remaining s = map Inr rows @ remaining s1" "copies n rows p"
      "out = buf @ p" "ready s1" "src_Err iface s1 = None" by auto
    let ?cs = "if out = [] then cs else cs @ [out]"
    obtain chunks err' s' q where q: "copyWriter iface env n oids None [] s1 ?cs = Some ((?cs @ chunks, err'), s')"
      "err' = None \<longrightarrow> concat chunks = q" "copy_result env n oids (remaining s1) q err'"
      using less(1) [of s1 "[]" ?cs] p by auto
    have "copyWriter iface env n oids None buf s cs = Some ((?cs @ chunks, err'), s')"
      using b(1) p(6) True q(1) by (subst unfold) (auto simp: Let_def split: if_splits)
    with p q copy_result_prepend [OF p(3) q(3)] show ?thesis
      by (intro exI [of _ "if out = [] then chunks else out # chunks"] exI [of _ err'] exI [of _ s'] conjI
          exI [of _ "p @ q"]) auto
  next
    case False
    with b(2) obtain p where p: "err = None \<longrightarrow> src_Err iface s1 = None" "err = None \<longrightarrow> out = buf @ p"
      "copy_result env n oids (remaining s) p err" by auto
    have "copyWriter iface env n oids None buf s cs
        = Some ((cs @ (if err = None \<and> out \<noteq> [] then [out] else []), err), s1)"
      using b(1) False p(1) by (subst unfold) (auto simp: Let_def)
    with p show ?thesis
      by (intro exI [of _ "if err = None \<and> out \<noteq> [] then [out] else []"] exI [of _ err] exI [of _ s1] conjI exI [of _ p]) auto
  qed
qed

text \<open>What \<open>CopyFrom\<close> sends for a source that keeps the contract.\<close>

lemma CopyFrom_sends:
  assumes env: "copy_env (s_env sy)" and "ready s"
    and fields: "describes (s_ops sy) (copySelect tableName columnNames) (length columnNames)"
  shows "\<exists>rowsAffected err s' c'. Conn_CopyFrom sy iface None tableName columnNames s c = Some ((rowsAffected, err), s', c')
    \<and> ((\<exists>e. err = Some e \<and> sent c' = sent c @ [PgPrepare [] (copySelect tableName columnNames)])
       \<or> (\<exists>oids chunks werr p. sent c' = sent c @ [PgPrepare [] (copySelect tableName columnNames),
             PgCopyFrom (copyCommand tableName columnNames) (chunks, werr)]
           \<and> (werr = None \<longrightarrow> concat chunks = copyHeader (s_env sy) @ p)
           \<and> copy_result (s_env sy) (length columnNames) oids (remaining s) p werr))"
proof -
  obtain r c1 where prep: "Conn_Prepare (s_ops sy) [] (copySelect tableName columnNames) c = (r, c1)" by force
  note sent = Conn_Prepare_unnamed [OF prep]
  show ?thesis
  proof (cases r)
    case (Inl err)
    with prep sent show ?thesis by (simp add: Conn_CopyFrom_def)
  next
    case (Inr sd)
    let ?oids = "map fd_DataTypeOID (sd_Fields sd)"
    have "length columnNames \<le> length ?oids"
      using prep Inr fields
      by (auto simp: describes_def Conn_Prepare_def prepareOn_def Let_def sendPg_def onPg_unfold split: sum.splits if_splits)
    from writer [OF env this assms(2), of "copyHeader (s_env sy)" "[]"]
    obtain chunks werr s' p where w: "copyWriter iface (s_env sy) (length columnNames) ?oids None (copyHeader (s_env sy)) s []
          = Some ((chunks, werr), s')"
        "werr = None \<longrightarrow> concat chunks = copyHeader (s_env sy) @ p"
        "copy_result (s_env sy) (length columnNames) ?oids (remaining s) p werr"
      by auto
    have "\<exists>res c'. Conn_CopyFrom sy iface None tableName columnNames s c = Some (res, s', c')
        \<and> sent c' = sent c1 @ [PgCopyFrom (copyCommand tableName columnNames) (chunks, werr)]"
      using prep Inr w(1) by (simp add: Conn_CopyFrom_def Let_def case_prod_unfold split: option.split)
    with sent w(2,3) show ?thesis by fastforce
  qed
qed

end

subsection \<open>The sources of the package\<close>

definition rows_ready :: "copyFromRows \<Rightarrow> bool" where
  "rows_ready ctr \<longleftrightarrow> - 1 \<le> ctr_idx ctr"

definition rows_remaining :: "copyFromRows \<Rightarrow> (go_error + goval list) list" where
  "rows_remaining ctr = map Inr (drop (nat (ctr_idx ctr + 1)) (ctr_rows ctr))"

definition slice_ready :: "copyFromSlice \<Rightarrow> bool" where
  "slice_ready cts \<longleftrightarrow> cts_err cts = None"

definition slice_item :: "goval list \<times> go_error option \<Rightarrow> go_error + goval list" where
  "slice_item r = (case snd r of None \<Rightarrow> Inr (fst r) | Some e \<Rightarrow> Inl e)"

definition slice_remaining :: "copyFromSlice \<Rightarrow> (go_error + goval list) list" where
  "slice_remaining cts = map (\<lambda>i. slice_item (cts_next cts i)) [cts_idx cts + 1..cts_len cts - 1]"

lemma drop_ConsD: "drop n xs = y # ys \<Longrightarrow> n < length xs \<and> xs ! n = y \<and> drop (Suc n) xs = ys"
  by (metis Cons_nth_drop_Suc drop_eq_Nil2 linorder_not_le list.distinct(1) list.inject)

interpretation from_rows: copy_source rowsSource rows_ready rows_remaining
proof
  fix s assume "rows_ready s" "rows_remaining s = []"
  then show "\<exists>s'. src_Next rowsSource s = (False, s') \<and> src_Err rowsSource s' = None"
    by (auto simp: rowsSource_def rows_ready_def rows_remaining_def copyFromRows_Next_def copyFromRows_Err_def Let_def)
next
  fix s vals rest assume s: "rows_ready s" "rows_remaining s = Inr vals # rest"
  have "drop (nat (ctr_idx s + 1)) (ctr_rows s) = vals # map projr rest"
    using s(2) by (auto simp: rows_remaining_def comp_def)
  from drop_ConsD [OF this] s
  show "\<exists>s1 s2. src_Next rowsSource s = (True, s1) \<and> src_Values rowsSource s1 = Some ((vals, None), s2)
      \<and> src_Err rowsSource s2 = None \<and> rows_ready s2 \<and> rows_remaining s2 = rest"
    by (auto simp: rowsSource_def rows_ready_def rows_remaining_def copyFromRows_Next_def copyFromRows_Values_def
        copyFromRows_Err_def Let_def nat_add_distrib Suc_nat_eq_nat_zadd1 add.commute)
qed (auto simp: rows_remaining_def)

interpretation from_slice: copy_source sliceSource slice_ready slice_remaining
proof
  fix s assume "slice_ready s" "slice_remaining s = []"
  then show "\<exists>s'. src_Next sliceSource s = (False, s') \<and> src_Err sliceSource s' = None"
    by (auto simp: sliceSource_def slice_ready_def slice_remaining_def copyFromSlice_Next_def copyFromSlice_Err_def Let_def)
next
  fix s vals rest assume "slice_ready s" "slice_remaining s = Inr vals # rest"
  then show "\<exists>s1 s2. src_Next sliceSource s = (True, s1) \<and> src_Values sliceSource s1 = Some ((vals, None), s2)
      \<and> src_Err sliceSource s2 = None \<and> slice_ready s2 \<and> slice_remaining s2 = rest"
    by (auto simp: sliceSource_def slice_ready_def slice_remaining_def copyFromSlice_Next_def copyFromSlice_Values_def
        copyFromSlice_Err_def slice_item_def Let_def case_prod_unfold upto.simps [of "cts_idx s + 1"] prod_eq_iff
        split: if_splits option.splits)
next
  fix s e rest assume "slice_ready s" "slice_remaining s = Inl e # rest"
  then show "\<exists>s1 s2 vals. src_Next sliceSource s = (True, s1) \<and> src_Values sliceSource s1 = Some ((vals, Some e), s2)"
    by (auto simp: sliceSource_def slice_ready_def slice_remaining_def copyFromSlice_Next_def copyFromSlice_Values_def
        slice_item_def Let_def case_prod_unfold upto.simps [of "cts_idx s + 1"] prod_eq_iff
        split: if_splits option.splits)
qed

subsection \<open>A reader of the copy format\<close>

text \<open>
  The reader a server has: the signature and two integers, then tuples up to the end of the
  stream. A field of length -1 is NULL.
\<close>

fun readFields :: "nat \<Rightarrow> bytes \<Rightarrow> (bytes option list \<times> bytes) option" where
  "readFields 0 b = Some ([], b)"
| "readFields (Suc k) b =
     (if length b < 4 then None
      else let w = un_be (take 4 b); b = drop 4 b in
        if w = 2 ^ 32 - 1 then map_option (map_prod ((#) None) id) (readFields k b)
        else if w < 2 ^ 31 \<and> w \<le> length b
          then map_option (map_prod ((#) (Some (take w b))) id) (readFields k (drop w b))
        else None)"

lemma readFields_shorter: "readFields k b = Some (fs, b') \<Longrightarrow> length b' \<le> length b"
  by (induction k b arbitrary: fs rule: readFields.induct) (fastforce simp: Let_def split: if_splits)+

function readTuples :: "bytes \<Rightarrow> bytes option list list option" where
  "readTuples b =
     (if b = [] then Some []
      else if length b < 2 then None
      else case readFields (un_be (take 2 b)) (drop 2 b) of
        None \<Rightarrow> None
      | Some (fs, b') \<Rightarrow> map_option ((#) fs) (readTuples b'))"
  by pat_completeness auto
termination
  by (relation "measure length") (auto dest!: readFields_shorter)

declare readTuples.simps [simp del]

definition readCopy :: "bytes \<Rightarrow> bytes option list list option" where
  "readCopy b = (if take 19 b = copySignature @ be32 0 @ be32 0 then readTuples (drop 19 b) else None)"

definition fits :: "bytes option list list \<Rightarrow> bool" where
  "fits fs \<longleftrightarrow> (\<forall>f \<in> set fs. length f < 2 ^ 16 \<and> (\<forall>x. Some x \<in> set f \<longrightarrow> length x < 2 ^ 31))"

lemma unat_of_nat32: "n < 2 ^ 32 \<Longrightarrow> unat (of_nat n :: 32 word) = n"
  by (simp add: unat_of_nat take_bit_nat_eq_self)

lemma readFields_framed:
  "\<forall>x. Some x \<in> set f \<longrightarrow> length x < 2 ^ 31 \<Longrightarrow> readFields (length f) (concat (map framed f) @ rest) = Some (f, rest)"
proof (induction f)
  case (Cons x f)
  have m1: "un_be (be32 (- 1)) = 4294967295" by (simp add: un_be32 unsigned_minus_1_eq_mask mask_eq_exp_minus_1)
  show ?case
  proof (cases x)
    case None
    with Cons m1 show ?thesis by (simp add: framed_simps)
  next
    case (Some y)
    with Cons(2) have "length y < 2 ^ 31" by simp
    then have "un_be (be32 (of_nat (length y))) = length y" by (simp add: un_be32 unat_of_nat32)
    with Cons Some \<open>length y < 2 ^ 31\<close> show ?thesis by (auto simp: framed_simps Let_def)
  qed
qed simp

lemma readTuples_tuples: "fits fs \<Longrightarrow> readTuples (concat (map tuple fs)) = Some fs"
proof (induction fs)
  case Nil
  show ?case by (simp add: readTuples.simps)
next
  case (Cons f fs)
  have len: "un_be (be16 (of_nat (length f))) = length f"
    using Cons(2) by (simp add: fits_def un_be16 unat_of_nat take_bit_nat_eq_self)
  have "readFields (length f) (concat (map framed f) @ concat (map tuple fs)) = Some (f, concat (map tuple fs))"
    using Cons(2) by (intro readFields_framed) (simp add: fits_def)
  moreover have "concat (map tuple (f # fs))
      = be16 (of_nat (length f)) @ concat (map framed f) @ concat (map tuple fs)" by (simp add: tuple_def)
  moreover have "readTuples (concat (map tuple fs)) = Some fs" using Cons by (simp add: fits_def)
  ultimately show ?case using len length_be16 [of "of_nat (length f)"]
    by (subst readTuples.simps) (auto simp del: length_be16)
qed

lemma readCopy_stream: "copy_env env \<Longrightarrow> fits fs \<Longrightarrow> readCopy (copyHeader env @ concat (map tuple fs)) = Some fs"
  using readTuples_tuples [of fs]
  by (simp add: readCopy_def copyHeader_def copySignature_def copy_env_def pgio_ok_def)

subsection \<open>A table with one text column\<close>

definition demo_table :: "bool surroundings" where
  "demo_table = demo_sy\<lparr>s_ops := demo_ops\<lparr>op_Prepare := \<lambda>name sql pg. (pg, [], Inr \<lparr>sd_Name = name, sd_SQL = sql,
     sd_ParamOIDs = [], sd_Fields = [\<lparr>fd_Name = ''t'', fd_DataTypeOID = 25, fd_Format = 0, fd_TypeModifier = 0\<rparr>]\<rparr>)\<rparr>\<rparr>"

lemma demo_copy_env: "copy_env bare_env"
  by (simp add: copy_env_def bare_env_ok) (simp add: binary_registered_def bare_env_def)

lemma demo_describes: "describes (s_ops demo_table) sql 1"
  by (auto simp: describes_def demo_table_def)

lemma demo_encodes_row:
  "length row = 1 \<Longrightarrow> \<forall>v \<in> set row. v = GNil \<or> v = GString ''a'' \<Longrightarrow> encodeRow bare_env buf oids row \<noteq> Some (Inl e)"
  by (cases row; cases oids)
    (auto simp: encodePreparedStatementArgument.simps encodePreparedStep_def bare_env_def)

subsection \<open>Streams of rows\<close>

text \<open>
  A stream for \<open>rows\<close>: when it ends normally it is the copy format of the rows, and a reader gets
  their fields; otherwise it ends with the error of one of the rows.
\<close>

definition rows_stream ::
  "pgtype_env \<Rightarrow> nat \<Rightarrow> oid list \<Rightarrow> goval list list \<Rightarrow> copy_stream \<Rightarrow> bool" where
  "rows_stream env n oids rows stream \<longleftrightarrow> (case snd stream of
       None \<Rightarrow> \<exists>fs. list_all2 (list_all2 copied) rows fs \<and> (\<forall>f \<in> set fs. length f = n)
         \<and> concat (fst stream) = copyHeader env @ concat (map tuple fs)
         \<and> (fits fs \<longrightarrow> readCopy (concat (fst stream)) = Some fs)
     | Some e \<Rightarrow> \<exists>row \<in> set rows. rejected env n oids e (Inr row))"

lemma rows_streamI:
  assumes "copy_env env" and "werr = None \<longrightarrow> concat chunks = copyHeader env @ p"
    and "copy_result env n oids (map Inr rows) p werr"
  shows "rows_stream env n oids rows (chunks, werr)"
proof (cases werr)
  case None
  with assms(2,3) obtain fs where fs: "list_all2 (list_all2 copied) rows fs" "\<forall>row \<in> set rows. length row = n"
      "concat chunks = copyHeader env @ concat (map tuple fs)"
    by (auto simp: copy_result_def copies_def dest!: map_injective)
  have "\<forall>f \<in> set fs. length f = n"
    using fs(1,2) by (induction rows fs rule: list_all2_induct) (auto dest: list_all2_lengthD)
  with None fs readCopy_stream [OF assms(1), of fs] show ?thesis by (auto simp: rows_stream_def)
next
  case (Some e)
  with assms(3) obtain rows' bad rest where "map Inr rows = map Inr rows' @ bad # rest" "rejected env n oids e bad"
    by (auto simp: copy_result_def)
  with Some show ?thesis by (auto simp: rows_stream_def map_eq_append_conv Cons_eq_map_conv map_eq_Cons_conv)
qed

lemma demo_rows_stream:
  assumes "rows_stream (s_env demo_table) (length [''a'']) oids [[GString ''a''], [GNil]] stream"
  shows "\<exists>chunks. stream = (chunks, None) \<and> readCopy (concat chunks) = Some [[Some ''a''], [None]]"
proof (cases "snd stream")
  case None
  with assms obtain fs where fs: "list_all2 (list_all2 copied) [[GString ''a''], [GNil]] fs"
      "fits fs \<longrightarrow> readCopy (concat (fst stream)) = Some fs"
    by (auto simp: rows_stream_def)
  from fs(1) have "fs = [[Some ''a''], [None]]" by (auto simp: list_all2_Cons1 copied_def)
  with None fs(2) show ?thesis by (cases stream) (auto simp: fits_def)
next
  case (Some e)
  with assms demo_encodes_row show ?thesis
    by (auto simp: rows_stream_def demo_table_def demo_sy_def)
qed

subsection \<open>Properties\<close>





end
