(* ===== verification/Tx.thy ===== *)
theory Tx
  imports Batch Copy_From
begin

text \<open>
  \<open>src/tx.go\<close>: transactions, savepoints and the functions that run a callback in one, with a
  contract for committing and rolling back that both kinds of transaction satisfy.

  The methods of a \<open>dbTx\<close> take and return it with its connection; those of a \<open>dbSavepoint\<close> also
  take the transaction, which is always a \<open>dbTx\<close>: only \<open>dbTx.Begin\<close> makes savepoints. The field
  \<open>err\<close> of \<open>dbTx\<close> is never used.
\<close>

subsection \<open>State\<close>

definition Serializable :: string where "Serializable = ''serializable''"
definition RepeatableRead :: string where "RepeatableRead = ''repeatable read''"
definition ReadCommitted :: string where "ReadCommitted = ''read committed''"
definition ReadUncommitted :: string where "ReadUncommitted = ''read uncommitted''"
definition ReadWrite :: string where "ReadWrite = ''read write''"
definition ReadOnly :: string where "ReadOnly = ''read only''"
definition Deferrable :: string where "Deferrable = ''deferrable''"
definition NotDeferrable :: string where "NotDeferrable = ''not deferrable''"

record TxOptions =
  IsoLevel :: string
  AccessMode :: string
  DeferrableMode :: string

definition emptyTxOptions :: TxOptions where
  "emptyTxOptions = \<lparr>IsoLevel = [], AccessMode = [], DeferrableMode = []\<rparr>"

definition beginSQL :: "TxOptions \<Rightarrow> string" where
  "beginSQL opts =
     (if opts = emptyTxOptions then ''begin''
      else
        let buf = ''begin'';
            buf = (if IsoLevel opts \<noteq> [] then buf @ '' isolation level '' @ IsoLevel opts else buf);
            buf = (if AccessMode opts \<noteq> [] then buf @ '' '' @ AccessMode opts else buf)
        in (if DeferrableMode opts \<noteq> [] then buf @ '' '' @ DeferrableMode opts else buf))"

record dbTx =
  tx_savepointNum :: "64 word"
  tx_closed :: bool

record dbSavepoint =
  sp_savepointNum :: "64 word"
  sp_closed :: bool

definition sp_name :: "64 word \<Rightarrow> string" where
  "sp_name n = ''sp_'' @ FormatInt (sint n)"

subsection \<open>Running a function in a transaction\<close>

text \<open>
  What \<open>BeginTxFunc\<close> and \<open>BeginFunc\<close> do once the transaction is open: call \<open>f\<close>, roll back if it
  fails and commit otherwise, and at the end the deferred rollback, whose error replaces the
  result unless it is \<open>ErrTxClosed\<close>.
\<close>

definition deferredRollback ::
  "('s \<Rightarrow> (go_error option \<times> 's) option) \<Rightarrow> go_error option \<Rightarrow> 's \<Rightarrow> (go_error option \<times> 's) option" where
  "deferredRollback rollback err s =
     map_option (\<lambda>(rollbackErr, s).
       (case rollbackErr of
          Some e \<Rightarrow> if \<not> errors_Is e ErrTxClosed then Some e else err
        | None \<Rightarrow> err, s))
     (rollback s)"

definition runInTx ::
  "('s \<Rightarrow> (go_error option \<times> 's) option) \<Rightarrow> ('s \<Rightarrow> (go_error option \<times> 's) option)
     \<Rightarrow> ('s \<Rightarrow> (go_error option \<times> 's) option) \<Rightarrow> 's \<Rightarrow> (go_error option \<times> 's) option" where
  "runInTx commit rollback f s =
     Option.bind (f s) (\<lambda>(fErr, s).
       if fErr \<noteq> None then
         Option.bind (rollback s) (\<lambda>(_, s). deferredRollback rollback fErr s)
       else
         Option.bind (commit s) (\<lambda>(err, s). deferredRollback rollback err s))"

text \<open>
  The contract of a transaction: once closed, committing and rolling back report \<open>ErrTxClosed\<close>
  and do nothing; when they return, the transaction is closed.
\<close>

locale tx_control =
  fixes commit rollback :: "'s \<Rightarrow> (go_error option \<times> 's) option" and closed :: "'s \<Rightarrow> bool"
  assumes commit_closed: "closed s \<Longrightarrow> commit s = Some (Some ErrTxClosed, s)"
    and rollback_closed: "closed s \<Longrightarrow> rollback s = Some (Some ErrTxClosed, s)"
    and commit_closes: "commit s = Some (e, s') \<Longrightarrow> closed s'"
    and rollback_closes: "rollback s = Some (e, s') \<Longrightarrow> closed s'"
begin

lemma deferred_inert: "closed s \<Longrightarrow> deferredRollback rollback err s = Some (err, s)"
  by (simp add: deferredRollback_def rollback_closed)

text \<open>The deferred rollback never shows: exactly one commit or rollback takes effect.\<close>

lemma runInTx_once:
  assumes "f s = Some (fErr, s1)"
  shows "runInTx commit rollback f s =
    (case fErr of None \<Rightarrow> commit s1 | Some e \<Rightarrow> map_option (\<lambda>(_, s2). (Some e, s2)) (rollback s1))"
proof (cases fErr)
  case None
  with assms show ?thesis
    by (cases "commit s1") (auto simp: runInTx_def deferred_inert dest: commit_closes)
next
  case (Some e)
  with assms show ?thesis
    by (cases "rollback s1") (auto simp: runInTx_def deferred_inert dest: rollback_closes)
qed

lemma runInTx_closes: "runInTx commit rollback f s = Some (err, s') \<Longrightarrow> closed s'"
  by (auto simp: runInTx_def Option.bind_eq_Some_conv deferredRollback_def dest: rollback_closes split: if_splits)

end

subsection \<open>Transactions\<close>

definition Conn_BeginTx ::
  "'pg surroundings \<Rightarrow> TxOptions \<Rightarrow> 'pg Conn \<Rightarrow> ((go_error + dbTx) \<times> 'pg Conn) option" where
  "Conn_BeginTx sy opts c =
     map_option (\<lambda>((_, err), c).
       case err of
         Some e \<Rightarrow> (Inl e, die (s_ops sy) c)
       | None \<Rightarrow> (Inr \<lparr>tx_savepointNum = 0, tx_closed = False\<rparr>, c))
     (Conn_Exec sy (beginSQL opts) [] c)"

definition Conn_Begin :: "'pg surroundings \<Rightarrow> 'pg Conn \<Rightarrow> ((go_error + dbTx) \<times> 'pg Conn) option" where
  "Conn_Begin sy c = Conn_BeginTx sy emptyTxOptions c"

definition dbTx_Commit ::
  "'pg surroundings \<Rightarrow> dbTx \<Rightarrow> 'pg Conn \<Rightarrow> (go_error option \<times> dbTx \<times> 'pg Conn) option" where
  "dbTx_Commit sy tx c =
     (if tx_closed tx then Some (Some ErrTxClosed, tx, c)
      else map_option (\<lambda>((commandTag, err), c).
        (case err of
           Some e \<Rightarrow> (Some e, tx\<lparr>tx_closed := True\<rparr>,
             if op_TxStatus (s_ops sy) (pgConn c) \<noteq> CHR ''I'' then snd (Conn_Close (s_ops sy) c) else c)
         | None \<Rightarrow> (if commandTag = ''ROLLBACK'' then Some ErrTxCommitRollback else None, tx\<lparr>tx_closed := True\<rparr>, c)))
        (Conn_Exec sy ''commit'' [] c))"

definition dbTx_Rollback ::
  "'pg surroundings \<Rightarrow> dbTx \<Rightarrow> 'pg Conn \<Rightarrow> (go_error option \<times> dbTx \<times> 'pg Conn) option" where
  "dbTx_Rollback sy tx c =
     (if tx_closed tx then Some (Some ErrTxClosed, tx, c)
      else map_option (\<lambda>((_, err), c).
        (err, tx\<lparr>tx_closed := True\<rparr>, if err \<noteq> None then die (s_ops sy) c else c))
        (Conn_Exec sy ''rollback'' [] c))"

definition dbTx_Exec ::
  "'pg surroundings \<Rightarrow> dbTx \<Rightarrow> string \<Rightarrow> goval list \<Rightarrow> 'pg Conn \<Rightarrow> (exec_result \<times> 'pg Conn) option" where
  "dbTx_Exec sy tx sql arguments c = Conn_Exec sy sql arguments c"

definition dbTx_Prepare ::
  "'pg surroundings \<Rightarrow> dbTx \<Rightarrow> string \<Rightarrow> string \<Rightarrow> 'pg Conn \<Rightarrow> (go_error + statement_description) \<times> 'pg Conn" where
  "dbTx_Prepare sy tx name sql c = (if tx_closed tx then (Inl ErrTxClosed, c) else Conn_Prepare (s_ops sy) name sql c)"

definition dbTx_Query ::
  "'pg surroundings \<Rightarrow> dbTx \<Rightarrow> string \<Rightarrow> goval list \<Rightarrow> 'pg Conn \<Rightarrow> 'pg query_result option" where
  "dbTx_Query sy tx sql args c =
     (if tx_closed tx then Some ((error_rows ErrTxClosed, Some ErrTxClosed), c) else Conn_Query sy sql args c)"

definition dbTx_QueryRow ::
  "'pg surroundings \<Rightarrow> dbTx \<Rightarrow> string \<Rightarrow> goval list \<Rightarrow> 'pg Conn \<Rightarrow> (connRows \<times> 'pg Conn) option" where
  "dbTx_QueryRow sy tx sql args c = map_option (\<lambda>((rows, _), c). (rows, c)) (dbTx_Query sy tx sql args c)"

definition dbTx_QueryFunc ::
  "'pg surroundings \<Rightarrow> dbTx \<Rightarrow> string \<Rightarrow> goval list \<Rightarrow> goval list \<Rightarrow> 'u callback \<Rightarrow> 'pg Conn \<Rightarrow> 'u
     \<Rightarrow> (exec_result \<times> 'pg Conn \<times> 'u) option" where
  "dbTx_QueryFunc sy tx sql args scans f c u =
     (if tx_closed tx then Some (([], Some ErrTxClosed), c, u)
      else map_option (\<lambda>(res, rows, c, u). (res, c, u)) (Conn_QueryFunc sy sql args scans f c u))"

definition dbTx_CopyFrom ::
  "'pg surroundings \<Rightarrow> dbTx \<Rightarrow> 's CopyFromSource \<Rightarrow> nat option \<Rightarrow> Identifier \<Rightarrow> string list \<Rightarrow> 's \<Rightarrow> 'pg Conn
     \<Rightarrow> ((int \<times> go_error option) \<times> 's \<times> 'pg Conn) option" where
  "dbTx_CopyFrom sy tx iface accepts tableName columnNames rowSrc c =
     (if tx_closed tx then Some ((0, Some ErrTxClosed), rowSrc, c)
      else Conn_CopyFrom sy iface accepts tableName columnNames rowSrc c)"

definition dbTx_SendBatch ::
  "(string list \<Rightarrow> string list) \<Rightarrow> 'pg surroundings \<Rightarrow> dbTx \<Rightarrow> Batch \<Rightarrow> 'pg Conn \<Rightarrow> (batchResults \<times> Batch \<times> 'pg Conn) option" where
  "dbTx_SendBatch iteration sy tx b c =
     (if tx_closed tx then Some (error_batch ErrTxClosed, b, c) else SendBatch iteration sy b c)"

definition dbTx_Begin ::
  "'pg surroundings \<Rightarrow> dbTx \<Rightarrow> 'pg Conn \<Rightarrow> ((go_error + dbSavepoint) \<times> dbTx \<times> 'pg Conn) option" where
  "dbTx_Begin sy tx c =
     (if tx_closed tx then Some (Inl ErrTxClosed, tx, c)
      else
        let tx = tx\<lparr>tx_savepointNum := tx_savepointNum tx + 1\<rparr> in
        map_option (\<lambda>((_, err), c).
          (case err of
             Some e \<Rightarrow> Inl e
           | None \<Rightarrow> Inr \<lparr>sp_savepointNum = tx_savepointNum tx, sp_closed = False\<rparr>, tx, c))
        (Conn_Exec sy (''savepoint '' @ sp_name (tx_savepointNum tx)) [] c))"

subsection \<open>Savepoints\<close>

definition dbSavepoint_Exec ::
  "'pg surroundings \<Rightarrow> dbSavepoint \<Rightarrow> dbTx \<Rightarrow> string \<Rightarrow> goval list \<Rightarrow> 'pg Conn \<Rightarrow> (exec_result \<times> 'pg Conn) option" where
  "dbSavepoint_Exec sy sp tx sql arguments c =
     (if sp_closed sp then Some (([], Some ErrTxClosed), c) else dbTx_Exec sy tx sql arguments c)"

definition dbSavepoint_Commit ::
  "'pg surroundings \<Rightarrow> dbSavepoint \<Rightarrow> dbTx \<Rightarrow> 'pg Conn \<Rightarrow> (go_error option \<times> dbSavepoint \<times> 'pg Conn) option" where
  "dbSavepoint_Commit sy sp tx c =
     (if sp_closed sp then Some (Some ErrTxClosed, sp, c)
      else map_option (\<lambda>((_, err), c). (err, sp\<lparr>sp_closed := True\<rparr>, c))
        (dbSavepoint_Exec sy sp tx (''release savepoint '' @ sp_name (sp_savepointNum sp)) [] c))"

definition dbSavepoint_Rollback ::
  "'pg surroundings \<Rightarrow> dbSavepoint \<Rightarrow> dbTx \<Rightarrow> 'pg Conn \<Rightarrow> (go_error option \<times> dbSavepoint \<times> 'pg Conn) option" where
  "dbSavepoint_Rollback sy sp tx c =
     (if sp_closed sp then Some (Some ErrTxClosed, sp, c)
      else map_option (\<lambda>((_, err), c). (err, sp\<lparr>sp_closed := True\<rparr>, c))
        (dbSavepoint_Exec sy sp tx (''rollback to savepoint '' @ sp_name (sp_savepointNum sp)) [] c))"

definition dbSavepoint_Begin ::
  "'pg surroundings \<Rightarrow> dbSavepoint \<Rightarrow> dbTx \<Rightarrow> 'pg Conn \<Rightarrow> ((go_error + dbSavepoint) \<times> dbTx \<times> 'pg Conn) option" where
  "dbSavepoint_Begin sy sp tx c = (if sp_closed sp then Some (Inl ErrTxClosed, tx, c) else dbTx_Begin sy tx c)"

definition dbSavepoint_Prepare ::
  "'pg surroundings \<Rightarrow> dbSavepoint \<Rightarrow> dbTx \<Rightarrow> string \<Rightarrow> string \<Rightarrow> 'pg Conn \<Rightarrow> (go_error + statement_description) \<times> 'pg Conn" where
  "dbSavepoint_Prepare sy sp tx name sql c = (if sp_closed sp then (Inl ErrTxClosed, c) else dbTx_Prepare sy tx name sql c)"

definition dbSavepoint_Query ::
  "'pg surroundings \<Rightarrow> dbSavepoint \<Rightarrow> dbTx \<Rightarrow> string \<Rightarrow> goval list \<Rightarrow> 'pg Conn \<Rightarrow> 'pg query_result option" where
  "dbSavepoint_Query sy sp tx sql args c =
     (if sp_closed sp then Some ((error_rows ErrTxClosed, Some ErrTxClosed), c) else dbTx_Query sy tx sql args c)"

definition dbSavepoint_QueryRow ::
  "'pg surroundings \<Rightarrow> dbSavepoint \<Rightarrow> dbTx \<Rightarrow> string \<Rightarrow> goval list \<Rightarrow> 'pg Conn \<Rightarrow> (connRows \<times> 'pg Conn) option" where
  "dbSavepoint_QueryRow sy sp tx sql args c = map_option (\<lambda>((rows, _), c). (rows, c)) (dbSavepoint_Query sy sp tx sql args c)"

definition dbSavepoint_QueryFunc ::
  "'pg surroundings \<Rightarrow> dbSavepoint \<Rightarrow> dbTx \<Rightarrow> string \<Rightarrow> goval list \<Rightarrow> goval list \<Rightarrow> 'u callback \<Rightarrow> 'pg Conn \<Rightarrow> 'u
     \<Rightarrow> (exec_result \<times> 'pg Conn \<times> 'u) option" where
  "dbSavepoint_QueryFunc sy sp tx sql args scans f c u =
     (if sp_closed sp then Some (([], Some ErrTxClosed), c, u) else dbTx_QueryFunc sy tx sql args scans f c u)"

definition dbSavepoint_CopyFrom ::
  "'pg surroundings \<Rightarrow> dbSavepoint \<Rightarrow> dbTx \<Rightarrow> 's CopyFromSource \<Rightarrow> nat option \<Rightarrow> Identifier \<Rightarrow> string list \<Rightarrow> 's \<Rightarrow> 'pg Conn
     \<Rightarrow> ((int \<times> go_error option) \<times> 's \<times> 'pg Conn) option" where
  "dbSavepoint_CopyFrom sy sp tx iface accepts tableName columnNames rowSrc c =
     (if sp_closed sp then Some ((0, Some ErrTxClosed), rowSrc, c)
      else dbTx_CopyFrom sy tx iface accepts tableName columnNames rowSrc c)"

definition dbSavepoint_SendBatch ::
  "(string list \<Rightarrow> string list) \<Rightarrow> 'pg surroundings \<Rightarrow> dbSavepoint \<Rightarrow> dbTx \<Rightarrow> Batch \<Rightarrow> 'pg Conn
     \<Rightarrow> (batchResults \<times> Batch \<times> 'pg Conn) option" where
  "dbSavepoint_SendBatch iteration sy sp tx b c =
     (if sp_closed sp then Some (error_batch ErrTxClosed, b, c) else dbTx_SendBatch iteration sy tx b c)"

subsection \<open>Functions in transactions and savepoints\<close>

text \<open>The callbacks may do anything with the transaction, the connection and a state of their own.\<close>

type_synonym ('pg, 'u) tx_state = "dbTx \<times> 'pg Conn \<times> 'u"
type_synonym ('pg, 'u) sp_state = "dbSavepoint \<times> dbTx \<times> 'pg Conn \<times> 'u"

definition tx_commit :: "'pg surroundings \<Rightarrow> ('pg, 'u) tx_state \<Rightarrow> (go_error option \<times> ('pg, 'u) tx_state) option" where
  "tx_commit sy s = (case s of (tx, c, u) \<Rightarrow> map_option (\<lambda>(err, tx, c). (err, tx, c, u)) (dbTx_Commit sy tx c))"

definition tx_rollback :: "'pg surroundings \<Rightarrow> ('pg, 'u) tx_state \<Rightarrow> (go_error option \<times> ('pg, 'u) tx_state) option" where
  "tx_rollback sy s = (case s of (tx, c, u) \<Rightarrow> map_option (\<lambda>(err, tx, c). (err, tx, c, u)) (dbTx_Rollback sy tx c))"

definition sp_commit :: "'pg surroundings \<Rightarrow> ('pg, 'u) sp_state \<Rightarrow> (go_error option \<times> ('pg, 'u) sp_state) option" where
  "sp_commit sy s = (case s of (sp, tx, c, u) \<Rightarrow> map_option (\<lambda>(err, sp, c). (err, sp, tx, c, u)) (dbSavepoint_Commit sy sp tx c))"

definition sp_rollback :: "'pg surroundings \<Rightarrow> ('pg, 'u) sp_state \<Rightarrow> (go_error option \<times> ('pg, 'u) sp_state) option" where
  "sp_rollback sy s = (case s of (sp, tx, c, u) \<Rightarrow> map_option (\<lambda>(err, sp, c). (err, sp, tx, c, u)) (dbSavepoint_Rollback sy sp tx c))"

definition Conn_BeginTxFunc ::
  "'pg surroundings \<Rightarrow> TxOptions \<Rightarrow> (('pg, 'u) tx_state \<Rightarrow> (go_error option \<times> ('pg, 'u) tx_state) option) \<Rightarrow> 'pg Conn \<Rightarrow> 'u
     \<Rightarrow> (go_error option \<times> 'pg Conn \<times> 'u) option" where
  "Conn_BeginTxFunc sy opts f c u =
     Option.bind (Conn_BeginTx sy opts c) (\<lambda>(r, c).
       case r of
         Inl err \<Rightarrow> Some (Some err, c, u)
       | Inr tx \<Rightarrow> map_option (\<lambda>(err, tx, c, u). (err, c, u)) (runInTx (tx_commit sy) (tx_rollback sy) f (tx, c, u)))"

definition Conn_BeginFunc ::
  "'pg surroundings \<Rightarrow> (('pg, 'u) tx_state \<Rightarrow> (go_error option \<times> ('pg, 'u) tx_state) option) \<Rightarrow> 'pg Conn \<Rightarrow> 'u
     \<Rightarrow> (go_error option \<times> 'pg Conn \<times> 'u) option" where
  "Conn_BeginFunc sy f c u = Conn_BeginTxFunc sy emptyTxOptions f c u"

definition dbTx_BeginFunc ::
  "'pg surroundings \<Rightarrow> (('pg, 'u) sp_state \<Rightarrow> (go_error option \<times> ('pg, 'u) sp_state) option) \<Rightarrow> dbTx \<Rightarrow> 'pg Conn \<Rightarrow> 'u
     \<Rightarrow> (go_error option \<times> dbTx \<times> 'pg Conn \<times> 'u) option" where
  "dbTx_BeginFunc sy f tx c u =
     (if tx_closed tx then Some (Some ErrTxClosed, tx, c, u)
      else Option.bind (dbTx_Begin sy tx c) (\<lambda>(r, tx, c).
        case r of
          Inl err \<Rightarrow> Some (Some err, tx, c, u)
        | Inr sp \<Rightarrow> map_option (\<lambda>(err, sp, tx, c, u). (err, tx, c, u)) (runInTx (sp_commit sy) (sp_rollback sy) f (sp, tx, c, u))))"

definition dbSavepoint_BeginFunc ::
  "'pg surroundings \<Rightarrow> (('pg, 'u) sp_state \<Rightarrow> (go_error option \<times> ('pg, 'u) sp_state) option) \<Rightarrow> dbSavepoint \<Rightarrow> dbTx
     \<Rightarrow> 'pg Conn \<Rightarrow> 'u \<Rightarrow> (go_error option \<times> dbTx \<times> 'pg Conn \<times> 'u) option" where
  "dbSavepoint_BeginFunc sy f sp tx c u =
     (if sp_closed sp then Some (Some ErrTxClosed, tx, c, u) else dbTx_BeginFunc sy f tx c u)"

subsection \<open>Both kinds keep the contract\<close>

lemma dbTx_Commit_closed: "tx_closed tx \<Longrightarrow> dbTx_Commit sy tx c = Some (Some ErrTxClosed, tx, c)"
  by (simp add: dbTx_Commit_def)

lemma dbTx_Rollback_closed: "tx_closed tx \<Longrightarrow> dbTx_Rollback sy tx c = Some (Some ErrTxClosed, tx, c)"
  by (simp add: dbTx_Rollback_def)

lemma dbTx_Commit_closes: "dbTx_Commit sy tx c = Some (e, tx', c') \<Longrightarrow> tx_closed tx'"
  by (auto simp: dbTx_Commit_def case_prod_unfold split: if_splits option.splits)

lemma dbTx_Rollback_closes: "dbTx_Rollback sy tx c = Some (e, tx', c') \<Longrightarrow> tx_closed tx'"
  by (auto simp: dbTx_Rollback_def case_prod_unfold split: if_splits)

lemma dbSavepoint_closed:
  "sp_closed sp \<Longrightarrow> dbSavepoint_Commit sy sp tx c = Some (Some ErrTxClosed, sp, c)"
  "sp_closed sp \<Longrightarrow> dbSavepoint_Rollback sy sp tx c = Some (Some ErrTxClosed, sp, c)"
  by (simp_all add: dbSavepoint_Commit_def dbSavepoint_Rollback_def)

lemma dbSavepoint_closes:
  "dbSavepoint_Commit sy sp tx c = Some (e, sp', c') \<Longrightarrow> sp_closed sp'"
  "dbSavepoint_Rollback sy sp tx c = Some (e, sp', c') \<Longrightarrow> sp_closed sp'"
  by (auto simp: dbSavepoint_Commit_def dbSavepoint_Rollback_def case_prod_unfold split: if_splits)

interpretation real_tx: tx_control "tx_commit sy" "tx_rollback sy" "\<lambda>s. tx_closed (fst s)" for sy
  by unfold_locales
    (auto simp: tx_commit_def tx_rollback_def case_prod_unfold dbTx_Commit_closed dbTx_Rollback_closed
      dest: dbTx_Commit_closes dbTx_Rollback_closes)

interpretation savepoint: tx_control "sp_commit sy" "sp_rollback sy" "\<lambda>s. sp_closed (fst s)" for sy
  by unfold_locales
    (auto simp: sp_commit_def sp_rollback_def case_prod_unfold dbSavepoint_closed dest: dbSavepoint_closes)

subsection \<open>Sessions\<close>

text \<open>
  A transaction, the savepoints begun in it, and the number of savepoints it has tried to begin,
  under any sequence of calls.
\<close>

type_synonym 'pg session = "dbTx \<times> dbSavepoint list \<times> nat \<times> 'pg Conn"

inductive tx_step :: "'pg surroundings \<Rightarrow> 'pg session \<Rightarrow> 'pg session \<Rightarrow> bool" for sy where
  tx_begin: "\<not> tx_closed tx \<Longrightarrow> dbTx_Begin sy tx c = Some (r, tx', c') \<Longrightarrow>
    tx_step sy (tx, sps, k, c) (tx', sps @ (case r of Inr sp \<Rightarrow> [sp] | Inl _ \<Rightarrow> []), Suc k, c')"
| nested_begin: "sp \<in> set sps \<Longrightarrow> \<not> sp_closed sp \<Longrightarrow> \<not> tx_closed tx \<Longrightarrow> dbSavepoint_Begin sy sp tx c = Some (r, tx', c') \<Longrightarrow>
    tx_step sy (tx, sps, k, c) (tx', sps @ (case r of Inr sp \<Rightarrow> [sp] | Inl _ \<Rightarrow> []), Suc k, c')"
| tx_commits: "dbTx_Commit sy tx c = Some (e, tx', c') \<Longrightarrow> tx_step sy (tx, sps, k, c) (tx', sps, k, c')"
| tx_rolls_back: "dbTx_Rollback sy tx c = Some (e, tx', c') \<Longrightarrow> tx_step sy (tx, sps, k, c) (tx', sps, k, c')"
| sp_releases: "i < length sps \<Longrightarrow> dbSavepoint_Commit sy (sps ! i) tx c = Some (e, sp', c') \<Longrightarrow>
    tx_step sy (tx, sps, k, c) (tx, sps[i := sp'], k, c')"
| sp_rolls_back: "i < length sps \<Longrightarrow> dbSavepoint_Rollback sy (sps ! i) tx c = Some (e, sp', c') \<Longrightarrow>
    tx_step sy (tx, sps, k, c) (tx, sps[i := sp'], k, c')"
| tx_executes: "dbTx_Exec sy tx sql args c = Some (r, c') \<Longrightarrow> tx_step sy (tx, sps, k, c) (tx, sps, k, c')"
| tx_queries: "dbTx_Query sy tx sql args c = Some (r, c') \<Longrightarrow> tx_step sy (tx, sps, k, c) (tx, sps, k, c')"

inductive_cases tx_stepE: "tx_step sy s s'"

definition session_inv :: "'pg session \<Rightarrow> bool" where
  "session_inv s \<longleftrightarrow> (case s of (tx, sps, k, c) \<Rightarrow> tx_savepointNum tx = of_nat k \<and>
     (\<exists>ns. map sp_savepointNum sps = map of_nat ns \<and> distinct ns \<and> (\<forall>n \<in> set ns. n \<le> k)))"

lemma dbTx_Begin_number:
  "\<not> tx_closed tx \<Longrightarrow> dbTx_Begin sy tx c = Some (r, tx', c') \<Longrightarrow> tx_savepointNum tx' = tx_savepointNum tx + 1
    \<and> (\<forall>sp. r = Inr sp \<longrightarrow> sp_savepointNum sp = tx_savepointNum tx')"
  by (auto simp: dbTx_Begin_def Let_def case_prod_unfold split: option.splits)

lemma session_inv_begin:
  assumes "session_inv (tx, sps, k, c)" and "\<not> tx_closed tx" and "dbTx_Begin sy tx c = Some (r, tx', c')"
  shows "session_inv (tx', sps @ (case r of Inr sp \<Rightarrow> [sp] | Inl _ \<Rightarrow> []), Suc k, c')"
proof -
  obtain ns where ns: "tx_savepointNum tx = of_nat k" "map sp_savepointNum sps = map of_nat ns" "distinct ns" "\<forall>n \<in> set ns. n \<le> k"
    using assms(1) by (auto simp: session_inv_def)
  note b = dbTx_Begin_number [OF assms(2,3)]
  show ?thesis
  proof (cases r)
    case (Inl e)
    with ns b show ?thesis by (auto simp: session_inv_def add.commute le_SucI intro!: exI [of _ ns])
  next
    case (Inr sp)
    have "Suc k \<notin> set ns" using ns(4) by auto
    with Inr ns b show ?thesis
      by (auto simp: session_inv_def add.commute le_SucI intro!: exI [of _ "ns @ [Suc k]"])
  qed
qed

lemma update_number:
  "sp_savepointNum sp' = sp_savepointNum (sps ! i) \<Longrightarrow> map sp_savepointNum (sps[i := sp']) = map sp_savepointNum sps"
  by (metis list_update_id map_update)

lemma session_inv_step: "tx_step sy s s' \<Longrightarrow> session_inv s \<Longrightarrow> session_inv s'"
proof (induction rule: tx_step.induct)
  case (nested_begin sp sps tx c r tx' c' k)
  then show ?case by (intro session_inv_begin) (auto simp: dbSavepoint_Begin_def)
next
  case (tx_commits tx c e tx' c' sps k)
  then have "tx_savepointNum tx' = tx_savepointNum tx"
    by (auto simp: dbTx_Commit_def case_prod_unfold split: if_splits option.splits)
  with tx_commits show ?case by (simp add: session_inv_def)
next
  case (tx_rolls_back tx c e tx' c' sps k)
  then have "tx_savepointNum tx' = tx_savepointNum tx"
    by (auto simp: dbTx_Rollback_def case_prod_unfold split: if_splits)
  with tx_rolls_back show ?case by (simp add: session_inv_def)
next
  case (sp_releases i sps tx c e sp' c' k)
  then have "sp_savepointNum sp' = sp_savepointNum (sps ! i)"
    by (auto simp: dbSavepoint_Commit_def case_prod_unfold split: if_splits)
  from update_number [OF this] sp_releases show ?case by (simp add: session_inv_def)
next
  case (sp_rolls_back i sps tx c e sp' c' k)
  then have "sp_savepointNum sp' = sp_savepointNum (sps ! i)"
    by (auto simp: dbSavepoint_Rollback_def case_prod_unfold split: if_splits)
  from update_number [OF this] sp_rolls_back show ?case by (simp add: session_inv_def)
qed (simp_all add: session_inv_begin, simp_all add: session_inv_def)

lemma session_inv_reachable: "(tx_step sy)\<^sup>*\<^sup>* s s' \<Longrightarrow> session_inv s \<Longrightarrow> session_inv s'"
  by (induction rule: rtranclp_induct) (auto dest: session_inv_step)

lemma sp_name_inject: "sp_name m = sp_name n \<longleftrightarrow> m = n"
  by (simp add: sp_name_def FormatInt_inject) (metis signed_word_eqI)

subsection \<open>Failures\<close>

definition closes :: "'pg pgconn_ops \<Rightarrow> bool" where
  "closes ops \<longleftrightarrow> (\<forall>hard pg. op_IsClosed ops (fst (op_Close ops hard pg)))"

lemma die_closes: "closes ops \<Longrightarrow> IsClosed ops (die ops c)"
  by (simp add: closes_def die_def IsClosed_def sendPg_def onPg_unfold)

lemma Conn_Close_closes: "closes ops \<Longrightarrow> IsClosed ops (snd (Conn_Close ops c))"
  by (simp add: closes_def Conn_Close_def IsClosed_def sendPg_def onPg_unfold)

lemma failed_begin: "closes (s_ops sy) \<Longrightarrow> Conn_BeginTx sy opts c = Some (Inl e, c') \<Longrightarrow> IsClosed (s_ops sy) c'"
  by (auto simp: Conn_BeginTx_def die_closes split: option.splits)

lemma failed_rollback:
  "closes (s_ops sy) \<Longrightarrow> \<not> tx_closed tx \<Longrightarrow> dbTx_Rollback sy tx c = Some (Some e, tx', c') \<Longrightarrow> IsClosed (s_ops sy) c'"
  by (auto simp: dbTx_Rollback_def die_closes)

lemma failed_commit:
  assumes "closes (s_ops sy)" and "\<not> tx_closed tx" and "dbTx_Commit sy tx c = Some (Some e, tx', c')" and "e \<noteq> ErrTxCommitRollback"
  shows "IsClosed (s_ops sy) c' \<or> op_TxStatus (s_ops sy) (pgConn c') = CHR ''I''"
proof -
  obtain tag err c1 where ex: "Conn_Exec sy ''commit'' [] c = Some ((tag, err), c1)"
    using assms(2,3) by (auto simp: dbTx_Commit_def)
  with assms obtain e1 where "err = Some e1" by (cases err) (auto simp: dbTx_Commit_def split: if_splits)
  with ex assms(2,3) have "c' = (if op_TxStatus (s_ops sy) (pgConn c1) \<noteq> CHR ''I'' then snd (Conn_Close (s_ops sy) c1) else c1)"
    by (simp add: dbTx_Commit_def)
  then show ?thesis using Conn_Close_closes [OF assms(1), of c1] by (simp only: split: if_splits) auto
qed

subsection \<open>A server that fails\<close>

definition failing_sy :: "bool surroundings" where
  "failing_sy = demo_sy\<lparr>s_ops := demo_ops\<lparr>mrr_Close := \<lambda>_ pg. (pg, [], Some (ErrExt 0))\<rparr>\<rparr>"

lemma failing_closes: "closes (s_ops failing_sy)"
  by (simp add: closes_def failing_sy_def demo_ops_def)

lemma demo_exec_text:
  assumes "preparedStatements c sql = None" and "\<not> hasLogger c"
  shows "\<exists>c'. Conn_Exec demo_sy sql [] c = Some (([], None), c') \<and> preparedStatements c' = preparedStatements c \<and> \<not> hasLogger c'
      \<and> sent c' = sent c @ [PgExec sql]"
    and "\<exists>c'. Conn_Exec failing_sy sql [] c = Some (([], Some (ErrExt 0)), c') \<and> sent c' = sent c @ [PgExec sql]"
  using assms
  by (auto simp: Conn_Exec_def exec_def execSimpleProtocol_def drainResults.simps log_if_def shouldLog_def failing_sy_def
      demo_sy_def demo_ops_def sendPg_def onPg_unfold)

lemma demo_begin:
  "\<exists>c'. Conn_BeginTx demo_sy emptyTxOptions demo_conn = Some (Inr \<lparr>tx_savepointNum = 0, tx_closed = False\<rparr>, c')"
  using demo_exec_text(1) [of demo_conn "beginSQL emptyTxOptions"] by (auto simp: Conn_BeginTx_def demo_conn_def)

lemma demo_savepoint:
  "\<exists>c'. dbTx_Begin demo_sy \<lparr>tx_savepointNum = 0, tx_closed = False\<rparr> demo_conn
     = Some (Inr \<lparr>sp_savepointNum = 1, sp_closed = False\<rparr>, \<lparr>tx_savepointNum = 1, tx_closed = False\<rparr>, c')"
  using demo_exec_text(1) [of demo_conn "''savepoint '' @ sp_name 1"] by (auto simp: dbTx_Begin_def demo_conn_def)

subsection \<open>Properties\<close>

text \<open>
  C30. \<open>BeginTxFunc\<close> ends its transaction exactly once: when the function returns no error its
  result is that of one \<open>Commit\<close>, and when it returns an error the transaction is rolled back
  once and that error is returned; the deferred rollback then changes nothing. This holds
  whatever the function does with the transaction, committing or rolling it back included.
\<close>

theorem BeginTxFunc_once:
  assumes "Conn_BeginTx sy opts c = Some (Inr tx, c1)" and "f (tx, c1, u) = Some (fErr, tx2, c2, u2)"
  shows "Conn_BeginTxFunc sy opts f c u = (case fErr of
      None \<Rightarrow> map_option (\<lambda>(err, tx3, c3). (err, c3, u2)) (dbTx_Commit sy tx2 c2)
    | Some e \<Rightarrow> map_option (\<lambda>(_, tx3, c3). (Some e, c3, u2)) (dbTx_Rollback sy tx2 c2))"
  using assms(1) real_tx.runInTx_once [of f "(tx, c1, u)" fErr "(tx2, c2, u2)" sy, OF assms(2)]
  by (auto simp: Conn_BeginTxFunc_def tx_commit_def tx_rollback_def option.map_comp comp_def case_prod_unfold split: option.split)

theorem BeginTxFunc_once_witness:
  "\<exists>c1. Conn_BeginTx demo_sy emptyTxOptions demo_conn = Some (Inr \<lparr>tx_savepointNum = 0, tx_closed = False\<rparr>, c1) \<and>
     Conn_BeginTxFunc demo_sy emptyTxOptions (\<lambda>s. Some (None, s)) demo_conn () =
       map_option (\<lambda>(err, tx3, c3). (err, c3, ())) (dbTx_Commit demo_sy \<lparr>tx_savepointNum = 0, tx_closed = False\<rparr> c1)"
proof -
  obtain c1 where b: "Conn_BeginTx demo_sy emptyTxOptions demo_conn = Some (Inr \<lparr>tx_savepointNum = 0, tx_closed = False\<rparr>, c1)"
    using demo_begin by blast
  with BeginTxFunc_once [OF b, of "\<lambda>s. Some (None, s)" "()"] show ?thesis by simp
qed

text \<open>
  The same holds for \<open>BeginFunc\<close> on a transaction: the savepoint is released once or rolled
  back once, and the enclosing transaction goes on.
\<close>

lemma BeginFunc_once:
  assumes "\<not> tx_closed tx" and "dbTx_Begin sy tx c = Some (Inr sp, tx1, c1)"
    and "f (sp, tx1, c1, u) = Some (fErr, sp2, tx2, c2, u2)"
  shows "dbTx_BeginFunc sy f tx c u = (case fErr of
      None \<Rightarrow> map_option (\<lambda>(err, sp3, c3). (err, tx2, c3, u2)) (dbSavepoint_Commit sy sp2 tx2 c2)
    | Some e \<Rightarrow> map_option (\<lambda>(_, sp3, c3). (Some e, tx2, c3, u2)) (dbSavepoint_Rollback sy sp2 tx2 c2))"
  using assms(1,2) savepoint.runInTx_once [of f "(sp, tx1, c1, u)" fErr "(sp2, tx2, c2, u2)" sy, OF assms(3)]
  by (auto simp: dbTx_BeginFunc_def sp_commit_def sp_rollback_def option.map_comp comp_def case_prod_unfold split: option.split)

text \<open>
  C31. Savepoints of a transaction never share a name: in every session that a sequence of calls
  on a fresh transaction and its savepoints can reach, nested savepoints, released ones and
  failed attempts included, the names are pairwise different, until the 64-bit counter wraps.
\<close>

theorem savepoint_names_distinct:
  assumes "(tx_step sy)\<^sup>*\<^sup>* (\<lparr>tx_savepointNum = 0, tx_closed = False\<rparr>, [], 0, c) (tx, sps, k, c')" and "k < 2 ^ 64"
  shows "distinct (map (sp_name \<circ> sp_savepointNum) sps)"
proof -
  have "session_inv (tx, sps, k, c')" using session_inv_reachable [OF assms(1)] by (simp add: session_inv_def)
  then obtain ns where ns: "map sp_savepointNum sps = map of_nat ns" "distinct ns" "\<forall>n \<in> set ns. n \<le> k"
    by (auto simp: session_inv_def)
  have "inj_on (of_nat :: nat \<Rightarrow> 64 word) (set ns)"
  proof (rule inj_onI)
    fix x y assume "x \<in> set ns" "y \<in> set ns" and eq: "(of_nat x :: 64 word) = of_nat y"
    with ns(3) assms(2) have "x < 2 ^ 64" "y < 2 ^ 64" by fastforce+
    with eq show "x = y" by (simp add: word_of_nat_eq_iff take_bit_nat_eq_self)
  qed
  with ns(2) have "distinct (map (of_nat :: nat \<Rightarrow> 64 word) ns)" by (simp add: distinct_map)
  with ns(1) have "distinct (map sp_savepointNum sps)" by simp
  then show ?thesis by (simp add: distinct_map inj_on_def sp_name_inject)
qed

theorem savepoint_names_distinct_witness:
  "\<exists>c'. distinct (map (sp_name \<circ> sp_savepointNum) [\<lparr>sp_savepointNum = 1, sp_closed = False\<rparr>])
     \<and> tx_step demo_sy (\<lparr>tx_savepointNum = 0, tx_closed = False\<rparr>, [], 0, demo_conn)
         (\<lparr>tx_savepointNum = 1, tx_closed = False\<rparr>, [\<lparr>sp_savepointNum = 1, sp_closed = False\<rparr>], 1, c')"
proof -
  obtain c1 where b: "dbTx_Begin demo_sy \<lparr>tx_savepointNum = 0, tx_closed = False\<rparr> demo_conn
     = Some (Inr \<lparr>sp_savepointNum = 1, sp_closed = False\<rparr>, \<lparr>tx_savepointNum = 1, tx_closed = False\<rparr>, c1)"
    using demo_savepoint by blast
  then have st: "tx_step demo_sy (\<lparr>tx_savepointNum = 0, tx_closed = False\<rparr>, [], 0, demo_conn)
      (\<lparr>tx_savepointNum = 1, tx_closed = False\<rparr>, [\<lparr>sp_savepointNum = 1, sp_closed = False\<rparr>], 1, c1)"
    using tx_step.tx_begin [OF _ b, of "[]" 0] by simp
  then have "(tx_step demo_sy)\<^sup>*\<^sup>* (\<lparr>tx_savepointNum = 0, tx_closed = False\<rparr>, [], 0, demo_conn)
      (\<lparr>tx_savepointNum = 1, tx_closed = False\<rparr>, [\<lparr>sp_savepointNum = 1, sp_closed = False\<rparr>], 1, c1)" by blast
  from savepoint_names_distinct [OF this] st show ?thesis by auto
qed

text \<open>
  C32. A closed transaction is inert: every method of a \<open>dbTx\<close> except \<open>Exec\<close> reports \<open>ErrTxClosed\<close>
  and leaves the connection untouched. \<open>Exec\<close> still executes the statement, outside any
  transaction, although the documentation of \<open>dbTx\<close> says that all its methods return
  \<open>ErrTxClosed\<close>.
\<close>

theorem closed_tx_inert:
  assumes "tx_closed tx"
  shows "dbTx_Commit sy tx c = Some (Some ErrTxClosed, tx, c) \<and> dbTx_Rollback sy tx c = Some (Some ErrTxClosed, tx, c)
    \<and> dbTx_Begin sy tx c = Some (Inl ErrTxClosed, tx, c) \<and> dbTx_BeginFunc sy g tx c u = Some (Some ErrTxClosed, tx, c, u)
    \<and> dbTx_Prepare sy tx name sql c = (Inl ErrTxClosed, c)
    \<and> dbTx_Query sy tx sql args c = Some ((error_rows ErrTxClosed, Some ErrTxClosed), c)
    \<and> dbTx_QueryFunc sy tx sql args scans h c u = Some (([], Some ErrTxClosed), c, u)
    \<and> dbTx_CopyFrom sy tx iface accepts tableName columnNames rowSrc c = Some ((0, Some ErrTxClosed), rowSrc, c)
    \<and> dbTx_SendBatch iteration sy tx b c = Some (error_batch ErrTxClosed, b, c)
    \<and> dbTx_Exec sy tx sql args c = Conn_Exec sy sql args c"
  using assms
  by (simp add: dbTx_Commit_def dbTx_Rollback_def dbTx_Begin_def dbTx_BeginFunc_def dbTx_Prepare_def dbTx_Query_def
      dbTx_QueryFunc_def dbTx_CopyFrom_def dbTx_SendBatch_def dbTx_Exec_def)

theorem closed_tx_inert_witness:
  "dbTx_Commit demo_sy \<lparr>tx_savepointNum = 0, tx_closed = True\<rparr> demo_conn
     = Some (Some ErrTxClosed, \<lparr>tx_savepointNum = 0, tx_closed = True\<rparr>, demo_conn)"
  by (rule conjunct1 [OF closed_tx_inert]) simp

text \<open>
  C33. A connection whose transaction state is unknown is not used again: when \<open>begin\<close> or
  \<open>rollback\<close> fails the connection is closed, and when \<open>commit\<close> fails it is closed unless the
  server reports that it is idle.
\<close>

theorem failed_control_closes:
  assumes "closes (s_ops sy)"
  shows "(\<forall>e c'. Conn_BeginTx sy opts c = Some (Inl e, c') \<longrightarrow> IsClosed (s_ops sy) c')
    \<and> (\<forall>e tx' c'. \<not> tx_closed tx \<longrightarrow> dbTx_Rollback sy tx c = Some (Some e, tx', c') \<longrightarrow> IsClosed (s_ops sy) c')
    \<and> (\<forall>e tx' c'. \<not> tx_closed tx \<longrightarrow> dbTx_Commit sy tx c = Some (Some e, tx', c') \<longrightarrow> e \<noteq> ErrTxCommitRollback \<longrightarrow>
         IsClosed (s_ops sy) c' \<or> op_TxStatus (s_ops sy) (pgConn c') = CHR ''I'')"
  using failed_begin [OF assms] failed_rollback [OF assms] failed_commit [OF assms] by blast

theorem failed_control_closes_witness:
  "\<exists>e c'. Conn_BeginTx failing_sy emptyTxOptions demo_conn = Some (Inl e, c') \<and> IsClosed (s_ops failing_sy) c'"
proof -
  obtain e c' where "Conn_BeginTx failing_sy emptyTxOptions demo_conn = Some (Inl e, c')"
    using demo_exec_text(2) [of demo_conn "beginSQL emptyTxOptions"] by (auto simp: Conn_BeginTx_def demo_conn_def)
  with failed_control_closes [OF failing_closes, of emptyTxOptions demo_conn] show ?thesis by blast
qed

end
