(* ===== verification/Large_Objects.thy ===== *)
theory Large_Objects
  imports Tx
begin

text \<open>
  \<open>src/large_objects.go\<close>: large objects over the interface \<open>Tx\<close>, which transactions and
  savepoints implement.

  The destination of a \<open>Scan\<close> is a pointer to a variable of the method. A plan of \<open>pgtype\<close> keeps
  the type of the variable; a destination of another type does not occur and is \<open>None\<close>.
\<close>

subsection \<open>The interface\<close>

text \<open>The two methods of \<open>Tx\<close> that large objects call.\<close>

record 'pg Tx_iface =
  ti_QueryRow :: "string \<Rightarrow> goval list \<Rightarrow> 'pg Conn \<Rightarrow> (connRows \<times> 'pg Conn) option"
  ti_Exec :: "string \<Rightarrow> goval list \<Rightarrow> 'pg Conn \<Rightarrow> (exec_result \<times> 'pg Conn) option"

text \<open>\<open>tx.LargeObjects()\<close> and \<open>sp.LargeObjects()\<close>.\<close>

definition dbTx_LargeObjects :: "'pg surroundings \<Rightarrow> dbTx \<Rightarrow> 'pg Tx_iface" where
  "dbTx_LargeObjects sy tx = \<lparr>ti_QueryRow = dbTx_QueryRow sy tx, ti_Exec = dbTx_Exec sy tx\<rparr>"

definition dbSavepoint_LargeObjects :: "'pg surroundings \<Rightarrow> dbSavepoint \<Rightarrow> dbTx \<Rightarrow> 'pg Tx_iface" where
  "dbSavepoint_LargeObjects sy sp tx = \<lparr>ti_QueryRow = dbSavepoint_QueryRow sy sp tx, ti_Exec = dbSavepoint_Exec sy sp tx\<rparr>"

text \<open>\<open>tx.QueryRow(ctx, sql, args...).Scan(&x)\<close>: the error and the variable afterwards.\<close>

definition queryScan ::
  "'pg surroundings \<Rightarrow> 'pg Tx_iface \<Rightarrow> string \<Rightarrow> goval list \<Rightarrow> string \<Rightarrow> goval \<Rightarrow> 'pg Conn
     \<Rightarrow> (go_error option \<times> goval \<times> 'pg Conn) option" where
  "queryScan sy ti sql args type x c =
     Option.bind (ti_QueryRow ti sql args c) (\<lambda>(rows, c).
     Option.bind (row_Scan (s_ops sy) (s_env sy) [GPtr type (Some x)] rows c) (\<lambda>((err, dest), rows, c).
       case dest of [GPtr _ (Some x')] \<Rightarrow> Some (err, x', c) | _ \<Rightarrow> None))"

subsection \<open>Large objects\<close>

definition LargeObjectModeWrite :: "32 word" where "LargeObjectModeWrite = 0x20000"
definition LargeObjectModeRead :: "32 word" where "LargeObjectModeRead = 0x40000"

definition LargeObjects_Create ::
  "'pg surroundings \<Rightarrow> 'pg Tx_iface \<Rightarrow> 32 word \<Rightarrow> 'pg Conn \<Rightarrow> ((32 word \<times> go_error option) \<times> 'pg Conn) option" where
  "LargeObjects_Create sy tx oid c =
     Option.bind (queryScan sy tx ''select lo_create($1)'' [GUint32 oid] ''uint32'' (GUint32 oid) c) (\<lambda>(err, x, c).
       case x of GUint32 oid' \<Rightarrow> Some ((oid', err), c) | _ \<Rightarrow> None)"

record LargeObject =
  lo_fd :: "32 word"

definition LargeObjects_Open ::
  "'pg surroundings \<Rightarrow> 'pg Tx_iface \<Rightarrow> 32 word \<Rightarrow> 32 word \<Rightarrow> 'pg Conn \<Rightarrow> ((go_error + LargeObject) \<times> 'pg Conn) option" where
  "LargeObjects_Open sy tx oid mode c =
     Option.bind (queryScan sy tx ''select lo_open($1, $2)'' [GUint32 oid, GNamed ''pgx.LargeObjectMode'' (GInt32 mode)]
         ''int32'' (GInt32 0) c) (\<lambda>(err, x, c).
       case err of
         Some e \<Rightarrow> Some (Inl e, c)
       | None \<Rightarrow> (case x of GInt32 fd \<Rightarrow> Some (Inr \<lparr>lo_fd = fd\<rparr>, c) | _ \<Rightarrow> None))"

definition LargeObjects_Unlink ::
  "'pg surroundings \<Rightarrow> 'pg Tx_iface \<Rightarrow> 32 word \<Rightarrow> 'pg Conn \<Rightarrow> (go_error option \<times> 'pg Conn) option" where
  "LargeObjects_Unlink sy tx oid c =
     Option.bind (queryScan sy tx ''select lo_unlink($1)'' [GUint32 oid] ''int32'' (GInt32 0) c) (\<lambda>(err, x, c).
       case err of
         Some e \<Rightarrow> Some (Some e, c)
       | None \<Rightarrow> (case x of
           GInt32 result \<Rightarrow>
             Some (if result \<noteq> 1 then Some (Errorf ''failed to remove large object'') else None, c)
         | _ \<Rightarrow> None))"

definition LargeObject_Write ::
  "'pg surroundings \<Rightarrow> 'pg Tx_iface \<Rightarrow> LargeObject \<Rightarrow> bytes \<Rightarrow> 'pg Conn \<Rightarrow> ((64 word \<times> go_error option) \<times> 'pg Conn) option" where
  "LargeObject_Write sy tx o' p c =
     Option.bind (queryScan sy tx ''select lowrite($1, $2)'' [GInt32 (lo_fd o'), GBytes (Some p)] ''int'' (GInt 0) c) (\<lambda>(err, x, c).
       case x of
         GInt n \<Rightarrow>
           (case err of
              Some e \<Rightarrow> Some ((n, Some e), c)
            | None \<Rightarrow> if n <s 0 then Some ((0, Some (Errorf ''failed to write to large object'')), c) else Some ((n, None), c))
       | _ \<Rightarrow> None)"

text \<open>\<open>copy(p, res)\<close>, and the buffer \<open>p\<close> as \<open>Read\<close> leaves it.\<close>

definition copyBytes :: "bytes \<Rightarrow> bytes \<Rightarrow> bytes" where
  "copyBytes dst src' = take (length dst) src' @ drop (length src') dst"

definition LargeObject_Read ::
  "'pg surroundings \<Rightarrow> 'pg Tx_iface \<Rightarrow> LargeObject \<Rightarrow> bytes \<Rightarrow> 'pg Conn
     \<Rightarrow> ((nat \<times> go_error option) \<times> bytes \<times> 'pg Conn) option" where
  "LargeObject_Read sy tx o' p c =
     Option.bind (queryScan sy tx ''select loread($1, $2)'' [GInt32 (lo_fd o'), GInt (of_nat (length p))] ''[]uint8'' (GBytes None) c)
       (\<lambda>(err, x, c).
       case x of
         GBytes b \<Rightarrow>
           (let res = (case b of None \<Rightarrow> [] | Some b \<Rightarrow> b); p' = copyBytes p res in
            case err of
              Some e \<Rightarrow> Some ((length res, Some e), p', c)
            | None \<Rightarrow> Some ((length res, if length res < length p then Some EOF else None), p', c))
       | _ \<Rightarrow> None)"

definition LargeObject_Seek ::
  "'pg surroundings \<Rightarrow> 'pg Tx_iface \<Rightarrow> LargeObject \<Rightarrow> 64 word \<Rightarrow> 64 word \<Rightarrow> 'pg Conn
     \<Rightarrow> ((64 word \<times> go_error option) \<times> 'pg Conn) option" where
  "LargeObject_Seek sy tx o' offset whence c =
     Option.bind (queryScan sy tx ''select lo_lseek64($1, $2, $3)'' [GInt32 (lo_fd o'), GInt64 offset, GInt whence]
         ''int64'' (GInt64 0) c) (\<lambda>(err, x, c).
       case x of GInt64 n \<Rightarrow> Some ((n, err), c) | _ \<Rightarrow> None)"

definition LargeObject_Tell ::
  "'pg surroundings \<Rightarrow> 'pg Tx_iface \<Rightarrow> LargeObject \<Rightarrow> 'pg Conn \<Rightarrow> ((64 word \<times> go_error option) \<times> 'pg Conn) option" where
  "LargeObject_Tell sy tx o' c =
     Option.bind (queryScan sy tx ''select lo_tell64($1)'' [GInt32 (lo_fd o')] ''int64'' (GInt64 0) c) (\<lambda>(err, x, c).
       case x of GInt64 n \<Rightarrow> Some ((n, err), c) | _ \<Rightarrow> None)"

definition LargeObject_Truncate ::
  "'pg Tx_iface \<Rightarrow> LargeObject \<Rightarrow> 64 word \<Rightarrow> 'pg Conn \<Rightarrow> (go_error option \<times> 'pg Conn) option" where
  "LargeObject_Truncate tx o' size' c =
     map_option (\<lambda>((_, err), c). (err, c)) (ti_Exec tx ''select lo_truncate64($1, $2)'' [GInt32 (lo_fd o'), GInt64 size'] c)"

definition LargeObject_Close :: "'pg Tx_iface \<Rightarrow> LargeObject \<Rightarrow> 'pg Conn \<Rightarrow> (go_error option \<times> 'pg Conn) option" where
  "LargeObject_Close tx o' c =
     map_option (\<lambda>((_, err), c). (err, c)) (ti_Exec tx ''select lo_close($1)'' [GInt32 (lo_fd o')] c)"

subsection \<open>Reading to the end\<close>

text \<open>
  A server that serves an object: \<open>remaining c\<close> is what is left of it behind the descriptor, and
  \<open>loread\<close> returns as much of it as it is asked for.
\<close>

definition serves :: "'pg surroundings \<Rightarrow> 'pg Tx_iface \<Rightarrow> LargeObject \<Rightarrow> ('pg Conn \<Rightarrow> bytes) \<Rightarrow> bool" where
  "serves sy tx o' remaining \<longleftrightarrow>
     (\<forall>c k. k < 2 ^ 31 \<longrightarrow> (\<exists>c'. queryScan sy tx ''select loread($1, $2)'' [GInt32 (lo_fd o'), GInt (of_nat k)] ''[]uint8'' (GBytes None) c
         = Some (None, GBytes (Some (take k (remaining c))), c') \<and> remaining c' = drop k (remaining c)))"

text \<open>
  A client of \<open>io.Reader\<close>: it reads into the buffer \<open>p\<close> until an error, and keeps the bytes that
  each call reports.
\<close>

fun readAll ::
  "nat \<Rightarrow> 'pg surroundings \<Rightarrow> 'pg Tx_iface \<Rightarrow> LargeObject \<Rightarrow> bytes \<Rightarrow> 'pg Conn \<Rightarrow> (bytes \<times> go_error \<times> 'pg Conn) option" where
  "readAll 0 sy tx o' p c = None"
| "readAll (Suc fuel) sy tx o' p c =
     Option.bind (LargeObject_Read sy tx o' p c) (\<lambda>((n, err), p, c).
       case err of
         Some e \<Rightarrow> Some (take n p, e, c)
       | None \<Rightarrow> map_option (map_prod ((@) (take n p)) id) (readAll fuel sy tx o' p c))"

lemma length_copyBytes [simp]: "length (copyBytes dst s) = length dst"
  by (simp add: copyBytes_def)

lemma take_copyBytes: "length s \<le> length dst \<Longrightarrow> take (length s) (copyBytes dst s) = s"
  by (simp add: copyBytes_def)

lemma LargeObject_Read_serves:
  assumes "serves sy tx o' remaining" and "length p < 2 ^ 31"
  shows "\<exists>c'. LargeObject_Read sy tx o' p c
      = Some ((min (length p) (length (remaining c)), if length (remaining c) < length p then Some EOF else None),
          copyBytes p (take (length p) (remaining c)), c')
    \<and> remaining c' = drop (length p) (remaining c)"
proof -
  obtain c' where "queryScan sy tx ''select loread($1, $2)'' [GInt32 (lo_fd o'), GInt (of_nat (length p))] ''[]uint8'' (GBytes None) c
      = Some (None, GBytes (Some (take (length p) (remaining c))), c')" "remaining c' = drop (length p) (remaining c)"
    using assms unfolding serves_def by blast
  then show ?thesis by (auto simp: LargeObject_Read_def Let_def min.commute)
qed

subsection \<open>A server that serves an object\<close>

text \<open>Its state is the rest of the object and the bytes of the current row.\<close>

definition blob_ops :: "(bytes \<times> bytes) pgconn_ops" where
  "blob_ops = \<lparr>op_IsClosed = \<lambda>_. False, op_IsBusy = \<lambda>_. False, op_TxStatus = \<lambda>_. CHR ''T'', op_PID = \<lambda>_. 0,
     op_ParameterStatus = \<lambda>_ _. [], op_Close = \<lambda>_ pg. (pg, [], None), op_Prepare = \<lambda>name sql pg. (pg, [], Inr (demo_sd name sql)),
     op_Exec = \<lambda>_ pg. (pg, [], 0), op_ExecParams = \<lambda>_ _ _ _ _ pg. (pg, [], 0),
     op_ExecPrepared = \<lambda>_ _ _ _ pg. (pg, [], 0), op_ExecBatch = \<lambda>_ pg. (pg, [], 0),
     op_CopyFrom = \<lambda>_ _ pg. (pg, [], [], None), op_WaitForNotification = \<lambda>pg. (pg, [], None),
     mrr_NextResult = \<lambda>_ pg. (pg, [], False), mrr_ResultReader = \<lambda>_ _. 0,
     mrr_Close = \<lambda>_ pg. (pg, [], None), mrr_ReadAll = \<lambda>_ pg. (pg, [], None),
     rr_NextRow = \<lambda>_ pg. (pg, [], True), rr_Values = \<lambda>_ pg. [Some (snd pg)],
     rr_FieldDescriptions = \<lambda>_ _. [\<lparr>fd_Name = ''loread'', fd_DataTypeOID = 17, fd_Format = 1, fd_TypeModifier = 0\<rparr>],
     rr_Close = \<lambda>_ pg. (pg, [], ''SELECT 1'', None), rr_Read = \<lambda>_ pg. (pg, [], ''SELECT 1'', None),
     cache_New = \<lambda>_ _ pg. (pg, [], 0), cache_Get = \<lambda>_ sql pg. (pg, [], Inr (demo_sd sql sql)),
     cache_Mode = \<lambda>_ _. ModePrepare, cache_Cap = \<lambda>_ _. 512,
     cache_StatementErrored = \<lambda>_ _ _ pg. (pg, [], ()), tag_RowsAffected = \<lambda>_. 0\<rparr>"

definition blob_sy :: "(bytes \<times> bytes) surroundings" where
  "blob_sy = \<lparr>s_ops = blob_ops, s_env = bare_env\<lparr>PlanScan := \<lambda>_ _ _ _ _ v dst. Inr (GPtr ''[]uint8'' (Some (GBytes v)))\<rparr>,
     s_ff = \<lambda>_. []\<rparr>"

definition blob_tx :: "(bytes \<times> bytes) Tx_iface" where
  "blob_tx = \<lparr>ti_QueryRow = \<lambda>sql args c. Some (zero_rows\<lparr>r_resultReader := Some 0\<rparr>,
       let k = (case args of [_, GInt k] \<Rightarrow> unat k | _ \<Rightarrow> 0); rest = fst (pgConn c) in
       c\<lparr>pgConn := (drop k rest, take k rest)\<rparr>),
     ti_Exec = \<lambda>sql args c. Some (([], None), c)\<rparr>"

definition blob_conn :: "bytes \<Rightarrow> (bytes \<times> bytes) Conn" where
  "blob_conn b = \<lparr>pgConn = (b, []), cfg_PreferSimpleProtocol = False, preparedStatements = Map.empty,
     stmtcache = None, hasLogger = False, logLevel = LogLevelNone, logged = [], bufferOwn = True,
     notifications = [], preallocatedRows = 0, c_eqb = new_eqb, sent = []\<rparr>"

lemma blob_serves: "serves blob_sy blob_tx o' (\<lambda>c. fst (pgConn c))"
proof -
  have "unat (of_nat k :: 64 word) = k" if "k < 2 ^ 31" for k
    using that by (simp add: unat_of_nat take_bit_nat_eq_self)
  then show ?thesis
    by (simp add: serves_def queryScan_def blob_tx_def blob_sy_def blob_ops_def row_Scan_def rows_Next_def rows_Scan_def
        rows_FieldDescriptions_def rows_Close_def rows_closeReader_def rows_closeMulti_def rows_logClose_def zero_rows_def
        onPg_unfold Let_def)
qed

subsection \<open>Properties\<close>



end
