(* ===== verification/Pool.thy ===== *)
theory Pool
  imports Large_Objects "HOL-Library.Multiset"
begin

text \<open>
  \<open>src/pgxpool/pool.go\<close> and \<open>src/pgxpool/conn.go\<close>: the pool, acquired connections and the
  operations that acquire, run and release. The objects that hold a connection longer, rows,
  transactions and batches of a pool, are in the next theory.

  The resource pool of the package \<open>puddle\<close> is a parameter: its state is a value of an arbitrary
  type \<open>'p\<close> and resources are handles. The values of the resources, the \<open>connResource\<close>s the
  constructor makes, are kept in a heap indexed by the handles, which the calls of \<open>puddle\<close> that
  run the constructor or the destructor update. The calls that take and give back resources are
  also recorded in the state of the pool; no definition reads the record. The goroutine that
  \<open>Release\<close> starts for the \<open>AfterRelease\<close> hook is the only holder of its resource and is run at
  once.
\<close>

subsection \<open>State\<close>

text \<open>Of the preallocated slices of a \<open>connResource\<close> only the number of unused elements matters.\<close>

record 'pg connResource =
  cr_conn :: "'pg Conn"
  cr_conns :: nat
  cr_poolRows :: nat
  cr_poolRowss :: nat

type_synonym ('p, 'pg) store = "'p \<times> (nat \<Rightarrow> 'pg connResource)"

text \<open>The counters of \<open>puddle.Stat\<close>.\<close>

record puddle_stat =
  pst_AcquireCount :: "64 word"
  pst_AcquireDuration :: "64 word"
  pst_AcquiredResources :: "32 word"
  pst_CanceledAcquireCount :: "64 word"
  pst_ConstructingResources :: "32 word"
  pst_EmptyAcquireCount :: "64 word"
  pst_IdleResources :: "32 word"
  pst_MaxResources :: "32 word"
  pst_TotalResources :: "32 word"

record ('p, 'pg) puddle_ops =
  pud_NewPool :: "(nat \<Rightarrow> ((go_error \<times> 'pg Conn option) + 'pg connResource) outcome) \<Rightarrow> ('pg connResource \<Rightarrow> 'pg connResource) \<Rightarrow> 32 word
     \<Rightarrow> ('p, 'pg) store"
  pud_Acquire :: "('p, 'pg) store \<Rightarrow> (go_error + nat) \<times> ('p, 'pg) store"
  pud_AcquireAllIdle :: "('p, 'pg) store \<Rightarrow> nat list \<times> ('p, 'pg) store"
  pud_CreateResource :: "bool \<Rightarrow> ('p, 'pg) store \<Rightarrow> go_error option \<times> ('p, 'pg) store"
  pud_Close :: "('p, 'pg) store \<Rightarrow> ('p, 'pg) store"
  pud_Release :: "nat \<Rightarrow> ('p, 'pg) store \<Rightarrow> ('p, 'pg) store"
  pud_ReleaseUnused :: "nat \<Rightarrow> ('p, 'pg) store \<Rightarrow> ('p, 'pg) store"
  pud_Destroy :: "nat \<Rightarrow> ('p, 'pg) store \<Rightarrow> ('p, 'pg) store"
  pud_Age :: "nat \<Rightarrow> 'p \<Rightarrow> 64 word"
  pud_IdleDuration :: "nat \<Rightarrow> 'p \<Rightarrow> 64 word"
  pud_Stat :: "'p \<Rightarrow> puddle_stat"

datatype pud_call = PudAcquired nat | PudReleased nat | PudDestroyed nat

record ('p, 'pg) pool_state =
  ps_puddle :: 'p
  ps_heap :: "nat \<Rightarrow> 'pg connResource"
  ps_calls :: "pud_call list"
  ps_closed :: bool

type_synonym 'pg hook = "'pg Conn \<Rightarrow> bool \<times> 'pg Conn"

record 'pg Pool =
  p_beforeAcquire :: "'pg hook option"
  p_afterRelease :: "'pg hook option"
  p_minConns :: "32 word"
  p_maxConnLifetime :: "64 word"
  p_maxConnIdleTime :: "64 word"
  p_healthCheckPeriod :: "64 word"

text \<open>What the methods of a pool use: the pool, its \<open>puddle\<close> and what a connection uses.\<close>

record ('p, 'pg) pool_env =
  pe_sy :: "'pg surroundings"
  pe_pud :: "('p, 'pg) puddle_ops"
  pe_pool :: "'pg Pool"

text \<open>\<open>pgxpool.Conn\<close>: its resource, nil once it is released.\<close>

record poolConn =
  pc_res :: "nat option"

subsection \<open>Resources\<close>

definition unused :: "nat \<Rightarrow> nat" where
  "unused n = (if n = 0 then 128 else n) - 1"

definition getConn :: "nat \<Rightarrow> 'pg connResource \<Rightarrow> poolConn \<times> 'pg connResource" where
  "getConn res cr = (\<lparr>pc_res = Some res\<rparr>, cr\<lparr>cr_conns := unused (cr_conns cr)\<rparr>)"

definition setConn :: "nat \<Rightarrow> 'pg Conn \<Rightarrow> ('p, 'pg) pool_state \<Rightarrow> ('p, 'pg) pool_state" where
  "setConn n conn s = s\<lparr>ps_heap := (ps_heap s)(n := (ps_heap s n)\<lparr>cr_conn := conn\<rparr>)\<rparr>"

definition onPuddle ::
  "(('p, 'pg) store \<Rightarrow> 'r \<times> ('p, 'pg) store) \<Rightarrow> ('r \<Rightarrow> pud_call list) \<Rightarrow> ('p, 'pg) pool_state \<Rightarrow> 'r \<times> ('p, 'pg) pool_state" where
  "onPuddle f record s =
     (case f (ps_puddle s, ps_heap s) of (r, p, h) \<Rightarrow>
        (r, s\<lparr>ps_puddle := p, ps_heap := h, ps_calls := ps_calls s @ record r\<rparr>))"

definition res_Release :: "('p, 'pg) pool_env \<Rightarrow> nat \<Rightarrow> ('p, 'pg) pool_state \<Rightarrow> ('p, 'pg) pool_state" where
  "res_Release pe n s = snd (onPuddle (Pair () \<circ> pud_Release (pe_pud pe) n) (\<lambda>_. [PudReleased n]) s)"

definition res_ReleaseUnused :: "('p, 'pg) pool_env \<Rightarrow> nat \<Rightarrow> ('p, 'pg) pool_state \<Rightarrow> ('p, 'pg) pool_state" where
  "res_ReleaseUnused pe n s = snd (onPuddle (Pair () \<circ> pud_ReleaseUnused (pe_pud pe) n) (\<lambda>_. [PudReleased n]) s)"

definition res_Destroy :: "('p, 'pg) pool_env \<Rightarrow> nat \<Rightarrow> ('p, 'pg) pool_state \<Rightarrow> ('p, 'pg) pool_state" where
  "res_Destroy pe n s = snd (onPuddle (Pair () \<circ> pud_Destroy (pe_pud pe) n) (\<lambda>_. [PudDestroyed n]) s)"

definition res_Acquire :: "('p, 'pg) pool_env \<Rightarrow> ('p, 'pg) pool_state \<Rightarrow> (go_error + nat) \<times> ('p, 'pg) pool_state" where
  "res_Acquire pe = onPuddle (pud_Acquire (pe_pud pe)) (\<lambda>r. case r of Inl _ \<Rightarrow> [] | Inr n \<Rightarrow> [PudAcquired n])"

definition res_AcquireAllIdle :: "('p, 'pg) pool_env \<Rightarrow> ('p, 'pg) pool_state \<Rightarrow> nat list \<times> ('p, 'pg) pool_state" where
  "res_AcquireAllIdle pe = onPuddle (pud_AcquireAllIdle (pe_pud pe)) (map PudAcquired)"

text \<open>A call on the connection of a resource.\<close>

definition atRes ::
  "nat \<Rightarrow> ('pg Conn \<Rightarrow> ('r \<times> 'pg Conn) option) \<Rightarrow> ('p, 'pg) pool_state \<Rightarrow> ('r \<times> ('p, 'pg) pool_state) option" where
  "atRes n f s = map_option (\<lambda>(r, conn). (r, setConn n conn s)) (f (cr_conn (ps_heap s n)))"

subsection \<open>Acquired connections\<close>

text \<open>\<open>c.Conn()\<close>, which dereferences a nil resource after \<open>Release\<close>.\<close>

definition onConn ::
  "poolConn \<Rightarrow> ('pg Conn \<Rightarrow> ('r \<times> 'pg Conn) option) \<Rightarrow> ('p, 'pg) pool_state \<Rightarrow> ('r \<times> ('p, 'pg) pool_state) option" where
  "onConn c f s = (case pc_res c of None \<Rightarrow> None | Some n \<Rightarrow> atRes n f s)"

definition healthy :: "('p, 'pg) pool_env \<Rightarrow> nat \<Rightarrow> ('p, 'pg) pool_state \<Rightarrow> bool" where
  "healthy pe n s \<longleftrightarrow> (let ops = s_ops (pe_sy pe); conn = cr_conn (ps_heap s n) in
     \<not> (IsClosed ops conn \<or> op_IsBusy ops (pgConn conn) \<or> op_TxStatus ops (pgConn conn) \<noteq> CHR ''I''
       \<or> p_maxConnLifetime (pe_pool pe) <s pud_Age (pe_pud pe) n (ps_puddle s)))"

definition pconn_Release :: "('p, 'pg) pool_env \<Rightarrow> poolConn \<Rightarrow> ('p, 'pg) pool_state \<Rightarrow> poolConn \<times> ('p, 'pg) pool_state" where
  "pconn_Release pe c s =
     (case pc_res c of
        None \<Rightarrow> (c, s)
      | Some n \<Rightarrow>
          (c\<lparr>pc_res := None\<rparr>,
           if \<not> healthy pe n s then res_Destroy pe n s
           else case p_afterRelease (pe_pool pe) of
             None \<Rightarrow> res_Release pe n s
           | Some hook \<Rightarrow>
               (case hook (cr_conn (ps_heap s n)) of (ok, conn) \<Rightarrow>
                  (if ok then res_Release pe n else res_Destroy pe n) (setConn n conn s))))"

definition pconn_Exec ::
  "('p, 'pg) pool_env \<Rightarrow> string \<Rightarrow> goval list \<Rightarrow> poolConn \<Rightarrow> ('p, 'pg) pool_state \<Rightarrow> (exec_result \<times> ('p, 'pg) pool_state) option" where
  "pconn_Exec pe sql arguments c s = onConn c (Conn_Exec (pe_sy pe) sql arguments) s"

definition pconn_Query ::
  "('p, 'pg) pool_env \<Rightarrow> string \<Rightarrow> goval list \<Rightarrow> poolConn \<Rightarrow> ('p, 'pg) pool_state \<Rightarrow> ((connRows \<times> go_error option) \<times> ('p, 'pg) pool_state) option" where
  "pconn_Query pe sql args c s = onConn c (Conn_Query (pe_sy pe) sql args) s"

definition pconn_QueryRow ::
  "('p, 'pg) pool_env \<Rightarrow> string \<Rightarrow> goval list \<Rightarrow> poolConn \<Rightarrow> ('p, 'pg) pool_state \<Rightarrow> (connRows \<times> ('p, 'pg) pool_state) option" where
  "pconn_QueryRow pe sql args c s = onConn c (Conn_QueryRow (pe_sy pe) sql args) s"

definition pconn_QueryFunc ::
  "('p, 'pg) pool_env \<Rightarrow> string \<Rightarrow> goval list \<Rightarrow> goval list \<Rightarrow> 'u callback \<Rightarrow> 'u \<Rightarrow> poolConn \<Rightarrow> ('p, 'pg) pool_state
     \<Rightarrow> ((exec_result \<times> 'u) \<times> ('p, 'pg) pool_state) option" where
  "pconn_QueryFunc pe sql args scans f u c s =
     onConn c (\<lambda>conn. map_option (\<lambda>(res, rows, conn, u). ((res, u), conn)) (Conn_QueryFunc (pe_sy pe) sql args scans f conn u)) s"

definition pconn_SendBatch ::
  "(string list \<Rightarrow> string list) \<Rightarrow> ('p, 'pg) pool_env \<Rightarrow> Batch \<Rightarrow> poolConn \<Rightarrow> ('p, 'pg) pool_state
     \<Rightarrow> ((batchResults \<times> Batch) \<times> ('p, 'pg) pool_state) option" where
  "pconn_SendBatch iteration pe b c s =
     onConn c (\<lambda>conn. map_option (\<lambda>(br, b, conn). ((br, b), conn)) (SendBatch iteration (pe_sy pe) b conn)) s"

definition pconn_CopyFrom ::
  "('p, 'pg) pool_env \<Rightarrow> 's CopyFromSource \<Rightarrow> nat option \<Rightarrow> Identifier \<Rightarrow> string list \<Rightarrow> 's \<Rightarrow> poolConn \<Rightarrow> ('p, 'pg) pool_state
     \<Rightarrow> (((int \<times> go_error option) \<times> 's) \<times> ('p, 'pg) pool_state) option" where
  "pconn_CopyFrom pe iface accepts tableName columnNames rowSrc c s =
     onConn c (\<lambda>conn. map_option (\<lambda>(res, rowSrc, conn). ((res, rowSrc), conn))
       (Conn_CopyFrom (pe_sy pe) iface accepts tableName columnNames rowSrc conn)) s"

definition pconn_BeginTx ::
  "('p, 'pg) pool_env \<Rightarrow> TxOptions \<Rightarrow> poolConn \<Rightarrow> ('p, 'pg) pool_state \<Rightarrow> ((go_error + dbTx) \<times> ('p, 'pg) pool_state) option" where
  "pconn_BeginTx pe opts c s = onConn c (Conn_BeginTx (pe_sy pe) opts) s"

definition pconn_Begin ::
  "('p, 'pg) pool_env \<Rightarrow> poolConn \<Rightarrow> ('p, 'pg) pool_state \<Rightarrow> ((go_error + dbTx) \<times> ('p, 'pg) pool_state) option" where
  "pconn_Begin pe c s = onConn c (Conn_Begin (pe_sy pe)) s"

definition pconn_BeginTxFunc ::
  "('p, 'pg) pool_env \<Rightarrow> TxOptions \<Rightarrow> (('pg, 'u) tx_state \<Rightarrow> (go_error option \<times> ('pg, 'u) tx_state) option) \<Rightarrow> 'u \<Rightarrow> poolConn
     \<Rightarrow> ('p, 'pg) pool_state \<Rightarrow> ((go_error option \<times> 'u) \<times> ('p, 'pg) pool_state) option" where
  "pconn_BeginTxFunc pe opts f u c s =
     onConn c (\<lambda>conn. map_option (\<lambda>(err, conn, u). ((err, u), conn)) (Conn_BeginTxFunc (pe_sy pe) opts f conn u)) s"

definition pconn_BeginFunc ::
  "('p, 'pg) pool_env \<Rightarrow> (('pg, 'u) tx_state \<Rightarrow> (go_error option \<times> ('pg, 'u) tx_state) option) \<Rightarrow> 'u \<Rightarrow> poolConn
     \<Rightarrow> ('p, 'pg) pool_state \<Rightarrow> ((go_error option \<times> 'u) \<times> ('p, 'pg) pool_state) option" where
  "pconn_BeginFunc pe f u c s =
     onConn c (\<lambda>conn. map_option (\<lambda>(err, conn, u). ((err, u), conn)) (Conn_BeginFunc (pe_sy pe) f conn u)) s"

definition pconn_Ping :: "('p, 'pg) pool_env \<Rightarrow> poolConn \<Rightarrow> ('p, 'pg) pool_state \<Rightarrow> (go_error option \<times> ('p, 'pg) pool_state) option" where
  "pconn_Ping pe c s = onConn c (Ping (pe_sy pe)) s"

subsection \<open>Acquiring\<close>

text \<open>The test of the \<open>BeforeAcquire\<close> hook, which may use the connection.\<close>

definition admits :: "('p, 'pg) pool_env \<Rightarrow> nat \<Rightarrow> ('p, 'pg) pool_state \<Rightarrow> bool \<times> ('p, 'pg) pool_state" where
  "admits pe n s =
     (case p_beforeAcquire (pe_pool pe) of
        None \<Rightarrow> (True, s)
      | Some hook \<Rightarrow> (case hook (cr_conn (ps_heap s n)) of (ok, conn) \<Rightarrow> (ok, setConn n conn s)))"

definition takeConn :: "nat \<Rightarrow> ('p, 'pg) pool_state \<Rightarrow> poolConn \<times> ('p, 'pg) pool_state" where
  "takeConn n s = (case getConn n (ps_heap s n) of (c, cr) \<Rightarrow> (c, s\<lparr>ps_heap := (ps_heap s)(n := cr)\<rparr>))"

partial_function (option) Pool_Acquire ::
  "('p, 'pg) pool_env \<Rightarrow> ('p, 'pg) pool_state \<Rightarrow> ((go_error + poolConn) \<times> ('p, 'pg) pool_state) option" where
  "Pool_Acquire pe s =
     (case res_Acquire pe s of (r, s) \<Rightarrow>
       (case r of
          Inl err \<Rightarrow> Some (Inl err, s)
        | Inr n \<Rightarrow>
            (case admits pe n s of (ok, s) \<Rightarrow>
               if ok then (case takeConn n s of (c, s) \<Rightarrow> Some (Inr c, s))
               else Pool_Acquire pe (res_Destroy pe n s))))"

fun admitAll :: "('p, 'pg) pool_env \<Rightarrow> nat list \<Rightarrow> ('p, 'pg) pool_state \<Rightarrow> poolConn list \<times> ('p, 'pg) pool_state" where
  "admitAll pe [] s = ([], s)"
| "admitAll pe (n # ns) s =
     (case admits pe n s of (ok, s) \<Rightarrow>
        if ok then (case takeConn n s of (c, s) \<Rightarrow> map_prod ((#) c) id (admitAll pe ns s))
        else admitAll pe ns (res_Destroy pe n s))"

definition Pool_AcquireAllIdle :: "('p, 'pg) pool_env \<Rightarrow> ('p, 'pg) pool_state \<Rightarrow> poolConn list \<times> ('p, 'pg) pool_state" where
  "Pool_AcquireAllIdle pe s = (case res_AcquireAllIdle pe s of (ns, s) \<Rightarrow> admitAll pe ns s)"

text \<open>
  Acquire a connection, run a function with it and release it at the end, which is what every
  method of the pool with a deferred \<open>Release\<close> does. The function returns the connection too,
  since it may release it itself.
\<close>

definition pooled ::
  "('p, 'pg) pool_env \<Rightarrow> (go_error \<Rightarrow> 'r) \<Rightarrow> (poolConn \<Rightarrow> ('p, 'pg) pool_state \<Rightarrow> ('r \<times> poolConn \<times> ('p, 'pg) pool_state) option) \<Rightarrow> ('p, 'pg) pool_state
     \<Rightarrow> ('r \<times> ('p, 'pg) pool_state) option" where
  "pooled pe onErr f s =
     Option.bind (Pool_Acquire pe s) (\<lambda>(r, s).
       case r of
         Inl err \<Rightarrow> Some (onErr err, s)
       | Inr c \<Rightarrow> map_option (\<lambda>(res, c, s). (res, snd (pconn_Release pe c s))) (f c s))"

definition holding ::
  "(poolConn \<Rightarrow> ('p, 'pg) pool_state \<Rightarrow> ('r \<times> ('p, 'pg) pool_state) option) \<Rightarrow> poolConn \<Rightarrow> ('p, 'pg) pool_state
    \<Rightarrow> ('r \<times> poolConn \<times> ('p, 'pg) pool_state) option" where
  "holding f c s = map_option (\<lambda>(r, s). (r, c, s)) (f c s)"

definition Pool_AcquireFunc ::
  "('p, 'pg) pool_env \<Rightarrow> (poolConn \<Rightarrow> ('p, 'pg) pool_state \<Rightarrow> (go_error option \<times> poolConn \<times> ('p, 'pg) pool_state) option) \<Rightarrow> ('p, 'pg) pool_state
     \<Rightarrow> (go_error option \<times> ('p, 'pg) pool_state) option" where
  "Pool_AcquireFunc pe f s = pooled pe Some f s"

definition Pool_Exec ::
  "('p, 'pg) pool_env \<Rightarrow> string \<Rightarrow> goval list \<Rightarrow> ('p, 'pg) pool_state \<Rightarrow> (exec_result \<times> ('p, 'pg) pool_state) option" where
  "Pool_Exec pe sql arguments s = pooled pe (\<lambda>err. ([], Some err)) (holding (pconn_Exec pe sql arguments)) s"

definition Pool_QueryFunc ::
  "('p, 'pg) pool_env \<Rightarrow> string \<Rightarrow> goval list \<Rightarrow> goval list \<Rightarrow> 'u callback \<Rightarrow> 'u \<Rightarrow> ('p, 'pg) pool_state
     \<Rightarrow> ((exec_result \<times> 'u) \<times> ('p, 'pg) pool_state) option" where
  "Pool_QueryFunc pe sql args scans f u s =
     pooled pe (\<lambda>err. (([], Some err), u)) (holding (pconn_QueryFunc pe sql args scans f u)) s"

definition Pool_BeginTxFunc ::
  "('p, 'pg) pool_env \<Rightarrow> TxOptions \<Rightarrow> (('pg, 'u) tx_state \<Rightarrow> (go_error option \<times> ('pg, 'u) tx_state) option) \<Rightarrow> 'u \<Rightarrow> ('p, 'pg) pool_state
     \<Rightarrow> ((go_error option \<times> 'u) \<times> ('p, 'pg) pool_state) option" where
  "Pool_BeginTxFunc pe opts f u s = pooled pe (\<lambda>err. (Some err, u)) (holding (pconn_BeginTxFunc pe opts f u)) s"

definition Pool_BeginFunc ::
  "('p, 'pg) pool_env \<Rightarrow> (('pg, 'u) tx_state \<Rightarrow> (go_error option \<times> ('pg, 'u) tx_state) option) \<Rightarrow> 'u \<Rightarrow> ('p, 'pg) pool_state
     \<Rightarrow> ((go_error option \<times> 'u) \<times> ('p, 'pg) pool_state) option" where
  "Pool_BeginFunc pe f u s = Pool_BeginTxFunc pe emptyTxOptions f u s"

definition Pool_CopyFrom ::
  "('p, 'pg) pool_env \<Rightarrow> 's CopyFromSource \<Rightarrow> nat option \<Rightarrow> Identifier \<Rightarrow> string list \<Rightarrow> 's \<Rightarrow> ('p, 'pg) pool_state
     \<Rightarrow> (((int \<times> go_error option) \<times> 's) \<times> ('p, 'pg) pool_state) option" where
  "Pool_CopyFrom pe iface accepts tableName columnNames rowSrc s =
     pooled pe (\<lambda>err. ((0, Some err), rowSrc)) (holding (pconn_CopyFrom pe iface accepts tableName columnNames rowSrc)) s"

definition Pool_Ping :: "('p, 'pg) pool_env \<Rightarrow> ('p, 'pg) pool_state \<Rightarrow> (go_error option \<times> ('p, 'pg) pool_state) option" where
  "Pool_Ping pe s = pooled pe Some (holding (pconn_Ping pe)) s"

subsection \<open>Configuration\<close>

text \<open>
  Durations are in nanoseconds. The parser of durations, \<open>time.ParseDuration\<close>, and the number of
  processors are parameters.
\<close>

record 'pg Config =
  pcfg_ConnConfig :: ConnConfig
  pcfg_BeforeConnect :: "(ConnConfig \<Rightarrow> go_error option \<times> ConnConfig) option"
  pcfg_AfterConnect :: "('pg Conn \<Rightarrow> go_error option \<times> 'pg Conn) option"
  pcfg_BeforeAcquire :: "'pg hook option"
  pcfg_AfterRelease :: "'pg hook option"
  pcfg_MaxConnLifetime :: "64 word"
  pcfg_MaxConnIdleTime :: "64 word"
  pcfg_MaxConns :: "32 word"
  pcfg_MinConns :: "32 word"
  pcfg_HealthCheckPeriod :: "64 word"
  pcfg_LazyConnect :: bool
  pcfg_createdByParseConfig :: bool

definition second :: "64 word" where
  "second = 1000000000"

definition parseMaxConns :: "32 word \<Rightarrow> string option \<Rightarrow> go_error + 32 word" where
  "parseMaxConns numCPU s =
     (case s of
        Some s \<Rightarrow>
          (case ParseInt s 32 of
             Inl err \<Rightarrow> Inl (ErrorfW ''cannot parse pool_max_conns: %w'' err)
           | Inr n \<Rightarrow>
               if n < 1 then Inl (Errorf (''pool_max_conns too small: '' @ FormatInt n)) else Inr (word_of_int n))
      | None \<Rightarrow> Inr (if 4 <s numCPU then numCPU else 4))"

definition parseMinConns :: "string option \<Rightarrow> go_error + 32 word" where
  "parseMinConns s =
     (case s of
        Some s \<Rightarrow>
          (case ParseInt s 32 of
             Inl err \<Rightarrow> Inl (ErrorfW ''cannot parse pool_min_conns: %w'' err)
           | Inr n \<Rightarrow> Inr (word_of_int n))
      | None \<Rightarrow> Inr 0)"

definition parseDurationParam ::
  "(string \<Rightarrow> go_error + 64 word) \<Rightarrow> string \<Rightarrow> 64 word \<Rightarrow> string option \<Rightarrow> go_error + 64 word" where
  "parseDurationParam parseDuration key dflt s =
     (case s of
        Some s \<Rightarrow>
          (case parseDuration s of
             Inl err \<Rightarrow> Inl (ErrorfW (''invalid '' @ key @ '': %w'') err)
           | Inr d \<Rightarrow> Inr d)
      | None \<Rightarrow> Inr dflt)"

definition Pool_ParseConfig ::
  "(string \<Rightarrow> go_error + pg_config) \<Rightarrow> (string \<Rightarrow> go_error + 64 word) \<Rightarrow> 32 word \<Rightarrow> string \<Rightarrow> go_error + 'pg Config" where
  "Pool_ParseConfig parse parseDuration numCPU connString =
     (case ParseConfig parse connString of
        Inl err \<Rightarrow> Inl err
      | Inr connConfig \<Rightarrow>
     (case takeParam ''pool_max_conns'' (cc_Config connConfig) of (s, config) \<Rightarrow>
     (case parseMaxConns numCPU s of
        Inl err \<Rightarrow> Inl err
      | Inr maxConns \<Rightarrow>
     (case takeParam ''pool_min_conns'' config of (s, config) \<Rightarrow>
     (case parseMinConns s of
        Inl err \<Rightarrow> Inl err
      | Inr minConns \<Rightarrow>
     (case takeParam ''pool_max_conn_lifetime'' config of (s, config) \<Rightarrow>
     (case parseDurationParam parseDuration ''pool_max_conn_lifetime'' (3600 * second) s of
        Inl err \<Rightarrow> Inl err
      | Inr maxConnLifetime \<Rightarrow>
     (case takeParam ''pool_max_conn_idle_time'' config of (s, config) \<Rightarrow>
     (case parseDurationParam parseDuration ''pool_max_conn_idle_time'' (1800 * second) s of
        Inl err \<Rightarrow> Inl err
      | Inr maxConnIdleTime \<Rightarrow>
     (case takeParam ''pool_health_check_period'' config of (s, config) \<Rightarrow>
     (case parseDurationParam parseDuration ''pool_health_check_period'' (60 * second) s of
        Inl err \<Rightarrow> Inl err
      | Inr healthCheckPeriod \<Rightarrow>
          Inr \<lparr>pcfg_ConnConfig = connConfig\<lparr>cc_Config := config\<rparr>,
            pcfg_BeforeConnect = None, pcfg_AfterConnect = None, pcfg_BeforeAcquire = None, pcfg_AfterRelease = None,
            pcfg_MaxConnLifetime = maxConnLifetime, pcfg_MaxConnIdleTime = maxConnIdleTime,
            pcfg_MaxConns = maxConns, pcfg_MinConns = minConns, pcfg_HealthCheckPeriod = healthCheckPeriod,
            pcfg_LazyConnect = False, pcfg_createdByParseConfig = True\<rparr>)))))))))))"

subsection \<open>Starting and stopping\<close>

text \<open>
  The constructor and the destructor that are given to \<open>puddle\<close>. The dialler is told the number
  of the attempt, since attempts may end differently. With its error the constructor gives the
  connection that it closed, when the hook failed after connecting.
\<close>

definition construct ::
  "'pg pgconn_ops \<Rightarrow> (pg_config \<Rightarrow> go_error + ('pg \<times> notification list)) \<Rightarrow> 'pg Config
     \<Rightarrow> ((go_error \<times> 'pg Conn option) + 'pg connResource) outcome" where
  "construct ops dial config =
     (case (case pcfg_BeforeConnect config of None \<Rightarrow> (None, pcfg_ConnConfig config) | Some f \<Rightarrow> f (pcfg_ConnConfig config)) of
        (Some err, _) \<Rightarrow> Ret (Inl (err, None))
      | (None, connConfig) \<Rightarrow>
          (case connect ops dial connConfig of
             Ret (Inl err, _) \<Rightarrow> Ret (Inl (err, None))
           | Ret (Inr conn, _) \<Rightarrow>
               (case (case pcfg_AfterConnect config of None \<Rightarrow> (None, conn) | Some f \<Rightarrow> f conn) of
                  (Some err, conn) \<Rightarrow> Ret (Inl (err, Some (snd (Conn_Close ops conn))))
                | (None, conn) \<Rightarrow> Ret (Inr \<lparr>cr_conn = conn, cr_conns = 64, cr_poolRows = 64, cr_poolRowss = 64\<rparr>))
           | Err e \<Rightarrow> Err e
           | Panic \<Rightarrow> Panic))"

definition destruct :: "'pg pgconn_ops \<Rightarrow> 'pg connResource \<Rightarrow> 'pg connResource" where
  "destruct ops cr = cr\<lparr>cr_conn := snd (Conn_Close ops (cr_conn cr))\<rparr>"

definition Pool_Close :: "('p, 'pg) pool_env \<Rightarrow> ('p, 'pg) pool_state \<Rightarrow> ('p, 'pg) pool_state" where
  "Pool_Close pe s =
     (if ps_closed s then s
      else (snd (onPuddle (Pair () \<circ> pud_Close (pe_pud pe)) (\<lambda>_. []) s))\<lparr>ps_closed := True\<rparr>)"

text \<open>
  \<open>createIdleResources\<close>, its goroutines one after another: from the first error on, the context
  is cancelled. A negative size of the channel panics.
\<close>

fun createLoop ::
  "('p, 'pg) pool_env \<Rightarrow> nat \<Rightarrow> go_error option \<Rightarrow> ('p, 'pg) pool_state \<Rightarrow> go_error option \<times> ('p, 'pg) pool_state" where
  "createLoop pe 0 firstError s = (firstError, s)"
| "createLoop pe (Suc i) firstError s =
     (case onPuddle (pud_CreateResource (pe_pud pe) (firstError \<noteq> None)) (\<lambda>_. []) s of (err, s) \<Rightarrow>
        createLoop pe i (if err \<noteq> None \<and> firstError = None then err else firstError) s)"

definition createIdleResources ::
  "('p, 'pg) pool_env \<Rightarrow> int \<Rightarrow> ('p, 'pg) pool_state \<Rightarrow> (go_error option \<times> ('p, 'pg) pool_state) option" where
  "createIdleResources pe targetResources s =
     (if targetResources < 0 then None else Some (createLoop pe (nat targetResources) None s))"

definition newPool :: "'pg Config \<Rightarrow> 'pg Pool" where
  "newPool config =
     \<lparr>p_beforeAcquire = pcfg_BeforeAcquire config, p_afterRelease = pcfg_AfterRelease config,
      p_minConns = pcfg_MinConns config, p_maxConnLifetime = pcfg_MaxConnLifetime config,
      p_maxConnIdleTime = pcfg_MaxConnIdleTime config, p_healthCheckPeriod = pcfg_HealthCheckPeriod config\<rparr>"

definition Pool_ConnectConfig ::
  "'pg surroundings \<Rightarrow> ('p, 'pg) puddle_ops \<Rightarrow> (nat \<Rightarrow> pg_config \<Rightarrow> go_error + ('pg \<times> notification list)) \<Rightarrow> 'pg Config
     \<Rightarrow> ((go_error + ('p, 'pg) pool_env) \<times> ('p, 'pg) pool_state) option" where
  "Pool_ConnectConfig sy pud dial config =
     (if \<not> pcfg_createdByParseConfig config then None
      else
        let pe = \<lparr>pe_sy = sy, pe_pud = pud, pe_pool = newPool config\<rparr> in
        case pud_NewPool pud (\<lambda>k. construct (s_ops sy) (dial k) config) (destruct (s_ops sy)) (pcfg_MaxConns config) of (p, h) \<Rightarrow>
          let s = \<lparr>ps_puddle = p, ps_heap = h, ps_calls = [], ps_closed = False\<rparr> in
          if pcfg_LazyConnect config then Some (Inr pe, s)
          else
            Option.bind (createIdleResources pe (sint (p_minConns (pe_pool pe))) s) (\<lambda>(err, s).
              case err of
                Some e \<Rightarrow> Some (Inl e, Pool_Close pe s)
              | None \<Rightarrow>
                  (case res_Acquire pe s of
                     (Inl e, s) \<Rightarrow> Some (Inl e, Pool_Close pe s)
                   | (Inr n, s) \<Rightarrow> Some (Inr pe, res_Release pe n s))))"

definition Pool_Connect ::
  "'pg surroundings \<Rightarrow> ('p, 'pg) puddle_ops \<Rightarrow> (string \<Rightarrow> go_error + pg_config) \<Rightarrow> (string \<Rightarrow> go_error + 64 word) \<Rightarrow> 32 word
     \<Rightarrow> (nat \<Rightarrow> pg_config \<Rightarrow> go_error + ('pg \<times> notification list)) \<Rightarrow> string
     \<Rightarrow> ((go_error + ('p, 'pg) pool_env) \<times> ('p, 'pg) pool_state option) option" where
  "Pool_Connect sy pud parse parseDuration numCPU dial connString =
     (case Pool_ParseConfig parse parseDuration numCPU connString of
        Inl err \<Rightarrow> Some (Inl err, None)
      | Inr config \<Rightarrow> map_option (map_prod id Some) (Pool_ConnectConfig sy pud dial config))"

text \<open>The copy of a configuration; \<open>copy\<close> is \<open>pgconn.Config.Copy\<close>.\<close>

definition Config_Copy :: "(pg_config \<Rightarrow> pg_config) \<Rightarrow> 'pg Config \<Rightarrow> 'pg Config" where
  "Config_Copy copy c = (let newConfig = c in newConfig\<lparr>pcfg_ConnConfig := ConnConfig_Copy copy (pcfg_ConnConfig c)\<rparr>)"

subsection \<open>Statistics\<close>

text \<open>\<open>src/pgxpool/stat.go\<close>: a snapshot of the counters of \<open>puddle\<close> under the names of this package.\<close>

record Stat =
  stat_s :: puddle_stat

definition Pool_Stat :: "('p, 'pg) pool_env \<Rightarrow> ('p, 'pg) pool_state \<Rightarrow> Stat" where
  "Pool_Stat pe s = \<lparr>stat_s = pud_Stat (pe_pud pe) (ps_puddle s)\<rparr>"

definition AcquireCount :: "Stat \<Rightarrow> 64 word" where "AcquireCount s = pst_AcquireCount (stat_s s)"
definition AcquireDuration :: "Stat \<Rightarrow> 64 word" where "AcquireDuration s = pst_AcquireDuration (stat_s s)"
definition AcquiredConns :: "Stat \<Rightarrow> 32 word" where "AcquiredConns s = pst_AcquiredResources (stat_s s)"
definition CanceledAcquireCount :: "Stat \<Rightarrow> 64 word" where "CanceledAcquireCount s = pst_CanceledAcquireCount (stat_s s)"
definition ConstructingConns :: "Stat \<Rightarrow> 32 word" where "ConstructingConns s = pst_ConstructingResources (stat_s s)"
definition EmptyAcquireCount :: "Stat \<Rightarrow> 64 word" where "EmptyAcquireCount s = pst_EmptyAcquireCount (stat_s s)"
definition IdleConns :: "Stat \<Rightarrow> 32 word" where "IdleConns s = pst_IdleResources (stat_s s)"
definition MaxConns :: "Stat \<Rightarrow> 32 word" where "MaxConns s = pst_MaxResources (stat_s s)"
definition TotalConns :: "Stat \<Rightarrow> 32 word" where "TotalConns s = pst_TotalResources (stat_s s)"

subsection \<open>Health checks\<close>

definition checkIdle :: "('p, 'pg) pool_env \<Rightarrow> nat \<Rightarrow> ('p, 'pg) pool_state \<Rightarrow> ('p, 'pg) pool_state" where
  "checkIdle pe n s =
     (if p_maxConnLifetime (pe_pool pe) <s pud_Age (pe_pud pe) n (ps_puddle s) then res_Destroy pe n s
      else if p_maxConnIdleTime (pe_pool pe) <s pud_IdleDuration (pe_pud pe) n (ps_puddle s) then res_Destroy pe n s
      else res_ReleaseUnused pe n s)"

definition checkIdleConnsHealth :: "('p, 'pg) pool_env \<Rightarrow> ('p, 'pg) pool_state \<Rightarrow> ('p, 'pg) pool_state" where
  "checkIdleConnsHealth pe s = (case res_AcquireAllIdle pe s of (ns, s) \<Rightarrow> fold (checkIdle pe) ns s)"

text \<open>The counter of the loop is an \<open>int32\<close>.\<close>

definition checkMinConns :: "('p, 'pg) pool_env \<Rightarrow> ('p, 'pg) pool_state \<Rightarrow> ('p, 'pg) pool_state" where
  "checkMinConns pe s =
     (let i = p_minConns (pe_pool pe) - TotalConns (Pool_Stat pe s)
      in ((\<lambda>s. snd (onPuddle (pud_CreateResource (pe_pud pe) False) (\<lambda>_. []) s)) ^^ nat (sint i)) s)"

text \<open>
  \<open>backgroundHealthCheck\<close> over a number of ticks. The ticker panics unless its period is
  positive.
\<close>

fun healthTicks :: "('p, 'pg) pool_env \<Rightarrow> nat \<Rightarrow> ('p, 'pg) pool_state \<Rightarrow> ('p, 'pg) pool_state" where
  "healthTicks pe 0 s = s"
| "healthTicks pe (Suc k) s =
     (if ps_closed s then s else healthTicks pe k (checkMinConns pe (checkIdleConnsHealth pe s)))"

definition backgroundHealthCheck :: "('p, 'pg) pool_env \<Rightarrow> nat \<Rightarrow> ('p, 'pg) pool_state \<Rightarrow> ('p, 'pg) pool_state option" where
  "backgroundHealthCheck pe k s =
     (if p_healthCheckPeriod (pe_pool pe) \<le>s 0 then None else Some (healthTicks pe k s))"

subsection \<open>The resources that are held\<close>

text \<open>
  Replaying the record of calls: \<open>track\<close> fails when a resource is given back that is not held,
  so in particular when one is given back twice.
\<close>

fun track :: "nat multiset \<Rightarrow> pud_call list \<Rightarrow> nat multiset option" where
  "track H [] = Some H"
| "track H (PudAcquired n # cs) = track (add_mset n H) cs"
| "track H (PudReleased n # cs) = (if n \<in># H then track (H - {#n#}) cs else None)"
| "track H (PudDestroyed n # cs) = (if n \<in># H then track (H - {#n#}) cs else None)"

definition holds :: "nat multiset \<Rightarrow> ('p, 'pg) pool_state \<Rightarrow> bool" where
  "holds H s \<longleftrightarrow> track {#} (ps_calls s) = Some H"

lemma track_append: "track H (cs @ ds) = Option.bind (track H cs) (\<lambda>H. track H ds)"
  by (induction H cs rule: track.induct) auto

lemma onPuddle_calls [simp]: "ps_calls (snd (onPuddle f rec s)) = ps_calls s @ rec (fst (onPuddle f rec s))"
  by (simp add: onPuddle_def split: prod.split)

lemma setConn_frame [simp]:
  "ps_calls (setConn n conn s) = ps_calls s" "ps_puddle (setConn n conn s) = ps_puddle s"
  "ps_closed (setConn n conn s) = ps_closed s" "cr_conn (ps_heap (setConn n conn s) n) = conn"
  by (simp_all add: setConn_def)

lemma setConn_same [simp]: "setConn n (cr_conn (ps_heap s n)) s = s"
  by (simp add: setConn_def)

lemma give_back_calls [simp]:
  "ps_calls (res_Release pe n s) = ps_calls s @ [PudReleased n]"
  "ps_calls (res_ReleaseUnused pe n s) = ps_calls s @ [PudReleased n]"
  "ps_calls (res_Destroy pe n s) = ps_calls s @ [PudDestroyed n]"
  by (simp_all add: res_Release_def res_ReleaseUnused_def res_Destroy_def)

lemma holds_give_back:
  assumes "holds (add_mset n H) s"
  shows "holds H (res_Release pe n s)" "holds H (res_ReleaseUnused pe n s)" "holds H (res_Destroy pe n s)"
  using assms by (simp_all add: holds_def track_append)

lemma holds_res_Acquire:
  assumes "holds H s" "res_Acquire pe s = (r, s')"
  shows "holds (case r of Inl _ \<Rightarrow> H | Inr n \<Rightarrow> add_mset n H) s'"
proof -
  have "ps_calls s' = ps_calls s @ (case r of Inl _ \<Rightarrow> [] | Inr n \<Rightarrow> [PudAcquired n])"
    using arg_cong [OF assms(2), of "ps_calls \<circ> snd"] arg_cong [OF assms(2), of fst] by (simp add: res_Acquire_def)
  with assms(1) show ?thesis by (simp add: holds_def track_append split: sum.split)
qed

lemma track_acquire_all: "track H (map PudAcquired ns) = Some (mset ns + H)"
  by (induction ns arbitrary: H) simp_all

lemma holds_res_AcquireAllIdle:
  assumes "holds H s" "res_AcquireAllIdle pe s = (ns, s')"
  shows "holds (mset ns + H) s'"
proof -
  have "ps_calls s' = ps_calls s @ map PudAcquired ns"
    using arg_cong [OF assms(2), of "ps_calls \<circ> snd"] arg_cong [OF assms(2), of fst] by (simp add: res_AcquireAllIdle_def)
  with assms(1) show ?thesis by (simp add: holds_def track_append track_acquire_all)
qed

text \<open>The resources behind a \<open>Conn\<close> that may have been released, and those that an \<open>Acquire\<close> has taken.\<close>

definition held_by :: "poolConn \<Rightarrow> nat multiset" where
  "held_by c = (case pc_res c of None \<Rightarrow> {#} | Some n \<Rightarrow> {#n#})"

definition acquired :: "(go_error + poolConn) \<times> ('p, 'pg) pool_state \<Rightarrow> nat multiset" where
  "acquired out = (case fst out of Inl _ \<Rightarrow> {#} | Inr c \<Rightarrow> held_by c)"

lemma acquired_simps [simp]: "acquired (Inl e, s) = {#}" "acquired (Inr c, s) = held_by c"
  by (simp_all add: acquired_def)

lemma Release_released: "pc_res (fst (pconn_Release pe c s)) = None"
  by (simp add: pconn_Release_def split: option.split)

lemma Release_idem: "pconn_Release pe (fst (pconn_Release pe c s)) s' = (fst (pconn_Release pe c s), s')"
  by (simp add: pconn_Release_def split: option.split)

lemma takeConn_result: "takeConn n s = (c, s') \<Longrightarrow> c = \<lparr>pc_res = Some n\<rparr>"
  by (auto simp: takeConn_def getConn_def)

subsection \<open>Ledgers\<close>

text \<open>
  A ledger is a relation between the state of a pool and the resources that are held, which the
  calls of \<open>puddle\<close> keep in balance: taking a resource adds it and giving it back removes it. What
  the methods of a pool do to the balance follows from these laws alone. The record of calls is
  one ledger; what \<open>puddle\<close> itself has lent is another, in a later theory.
\<close>

locale ledger =
  fixes pe :: "('p, 'pg) pool_env" and balance :: "nat multiset \<Rightarrow> ('p, 'pg) pool_state \<Rightarrow> bool"
  assumes heap [simp]: "balance H (s\<lparr>ps_heap := h\<rparr>) = balance H s"
    and closed [simp]: "balance H (s\<lparr>ps_closed := b\<rparr>) = balance H s"
    and Release: "balance (add_mset n H) s \<Longrightarrow> balance H (res_Release pe n s)"
    and ReleaseUnused: "balance (add_mset n H) s \<Longrightarrow> balance H (res_ReleaseUnused pe n s)"
    and Destroy: "balance (add_mset n H) s \<Longrightarrow> balance H (res_Destroy pe n s)"
    and Acquire: "balance H s \<Longrightarrow> res_Acquire pe s = (r, s')
      \<Longrightarrow> balance (case r of Inl _ \<Rightarrow> H | Inr n \<Rightarrow> add_mset n H) s'"
    and AcquireAllIdle: "balance H s \<Longrightarrow> res_AcquireAllIdle pe s = (ns, s') \<Longrightarrow> balance (mset ns + H) s'"
    and CreateResource: "balance H s \<Longrightarrow> balance H (snd (onPuddle (pud_CreateResource (pe_pud pe) b) (\<lambda>_. []) s))"
    and Close: "balance H s \<Longrightarrow> balance H (snd (onPuddle (Pair () \<circ> pud_Close (pe_pud pe)) (\<lambda>_. []) s))"
begin

lemmas give_back = Release ReleaseUnused Destroy

lemma balance_setConn [simp]: "balance H (setConn n conn s) = balance H s"
  by (simp add: setConn_def)

lemma balance_Release:
  assumes "balance (held_by c + H) s"
  shows "balance H (snd (pconn_Release pe c s))"
  using assms by (auto simp: pconn_Release_def held_by_def give_back split: option.split prod.split)

lemma balance_admits: "admits pe n s = (ok, s') \<Longrightarrow> balance H s' = balance H s"
  by (auto simp: admits_def split: option.splits prod.splits)

lemma balance_takeConn: "takeConn n s = (c, s') \<Longrightarrow> balance H s' = balance H s"
  by (auto simp: takeConn_def getConn_def)

lemma balance_Acquire_step:
  assumes IH: "\<And>s out. self pe s = Some out \<Longrightarrow> \<forall>H. balance H s \<longrightarrow> balance (acquired out + H) (snd out)"
    and step: "(case res_Acquire pe s of (r, s) \<Rightarrow>
         (case r of
            Inl err \<Rightarrow> Some (Inl err, s)
          | Inr n \<Rightarrow>
              (case admits pe n s of (ok, s) \<Rightarrow>
                 if ok then (case takeConn n s of (c, s) \<Rightarrow> Some (Inr c, s))
                 else self pe (res_Destroy pe n s)))) = Some out"
    and H: "balance H s"
  shows "balance (acquired out + H) (snd out)"
proof -
  obtain r1 s1 where acq: "res_Acquire pe s = (r1, s1)" by (cases "res_Acquire pe s")
  note H1 = Acquire [OF H acq]
  show ?thesis
  proof (cases r1)
    case (Inl e)
    with H1 step acq show ?thesis by auto
  next
    case (Inr n)
    obtain ok s2 where adm: "admits pe n s1 = (ok, s2)" by (cases "admits pe n s1")
    have H2: "balance (add_mset n H) s2" using H1 Inr balance_admits [OF adm] by simp
    show ?thesis
    proof (cases ok)
      case True
      obtain c s3 where take: "takeConn n s2 = (c, s3)" by (cases "takeConn n s2")
      have "balance (add_mset n H) s3" using H2 balance_takeConn [OF take] by simp
      with True step acq Inr adm take takeConn_result [OF take] show ?thesis by (auto simp: held_by_def)
    next
      case False
      with step acq Inr adm have "self pe (res_Destroy pe n s2) = Some out" by simp
      from IH [OF this] Destroy [OF H2] show ?thesis by blast
    qed
  qed
qed

lemma balance_Acquire:
  assumes "Pool_Acquire pe s = Some out" "balance H s"
  shows "balance (acquired out + H) (snd out)"
proof -
  have "\<forall>H. pe' = pe \<longrightarrow> balance H s \<longrightarrow> balance (acquired out + H) (snd out)" if "Pool_Acquire pe' s = Some out" for pe'
    using that
  proof (rule Pool_Acquire.raw_induct [rotated])
    fix self :: "('p, 'pg) pool_env \<Rightarrow> ('p, 'pg) pool_state \<Rightarrow> ((go_error + poolConn) \<times> ('p, 'pg) pool_state) option" and pe' s out
    assume "\<And>pe' s out. self pe' s = Some out \<Longrightarrow> \<forall>H. pe' = pe \<longrightarrow> balance H s \<longrightarrow> balance (acquired out + H) (snd out)"
      and "(case res_Acquire pe' s of (r, s) \<Rightarrow>
         (case r of
            Inl err \<Rightarrow> Some (Inl err, s)
          | Inr n \<Rightarrow>
              (case admits pe' n s of (ok, s) \<Rightarrow>
                 if ok then (case takeConn n s of (c, s) \<Rightarrow> Some (Inr c, s))
                 else self pe' (res_Destroy pe' n s)))) = Some out"
    note step = this
    show "\<forall>H. pe' = pe \<longrightarrow> balance H s \<longrightarrow> balance (acquired out + H) (snd out)"
      by (intro allI impI, rule balance_Acquire_step [where self = self]) (use step in blast)+
  qed
  with assms show ?thesis by blast
qed

text \<open>A call on a connection neither takes nor gives back a resource.\<close>

lemma balance_onConn: "onConn c f s = Some (r, s') \<Longrightarrow> balance H s' = balance H s"
  by (auto simp: onConn_def atRes_def split: option.splits)

lemma balance_pooled:
  assumes "pooled pe onErr f s = Some (res, s')" "balance H s"
    and "\<And>c s r c' s'. f c s = Some (r, c', s') \<Longrightarrow> balance (held_by c + H) s \<Longrightarrow> balance (held_by c' + H) s'"
  shows "balance H s'"
proof -
  from assms(1) obtain r s1 where acq: "Pool_Acquire pe s = Some (r, s1)"
    by (auto simp: pooled_def Option.bind_eq_Some_conv)
  note H1 = balance_Acquire [OF acq assms(2)]
  show ?thesis
  proof (cases r)
    case (Inl e)
    with H1 acq assms(1) show ?thesis by (simp add: pooled_def)
  next
    case (Inr c)
    with acq assms(1) obtain c' s2 where "f c s1 = Some (res, c', s2)" "s' = snd (pconn_Release pe c' s2)"
      by (auto simp: pooled_def)
    with assms(3) H1 Inr show ?thesis by (auto intro!: balance_Release)
  qed
qed

lemma balance_pooled_call:
  assumes "pooled pe onErr (holding f) s = Some (res, s')" "balance H s" and "\<And>c. f c = onConn c g"
  shows "balance H s'"
  by (rule balance_pooled [OF assms(1,2)]) (auto simp: holding_def assms(3) balance_onConn)

text \<open>The methods that acquire, run and release leave the balance as it was.\<close>

lemma balance_calls:
  assumes "balance H s"
  shows "Pool_Exec pe sql args s = Some (res1, s') \<Longrightarrow> balance H s'"
    and "Pool_QueryFunc pe sql args scans g u s = Some (res2, s') \<Longrightarrow> balance H s'"
    and "Pool_BeginTxFunc pe opts f u s = Some (res3, s') \<Longrightarrow> balance H s'"
    and "Pool_CopyFrom pe iface accepts table columns rowSrc s = Some (res4, s') \<Longrightarrow> balance H s'"
    and "Pool_Ping pe s = Some (res5, s') \<Longrightarrow> balance H s'"
  unfolding Pool_Exec_def Pool_QueryFunc_def Pool_BeginTxFunc_def Pool_CopyFrom_def Pool_Ping_def
    pconn_Exec_def [abs_def] pconn_QueryFunc_def [abs_def] pconn_BeginTxFunc_def [abs_def]
    pconn_CopyFrom_def [abs_def] pconn_Ping_def [abs_def]
  by (erule balance_pooled_call [OF _ assms], rule ext, simp)+

lemma balance_checkIdle: "balance (add_mset n H) s \<Longrightarrow> balance H (checkIdle pe n s)"
  by (simp add: checkIdle_def give_back)

lemma balance_checkIdle_all: "balance (mset ns + H) s \<Longrightarrow> balance H (fold (checkIdle pe) ns s)"
  by (induction ns arbitrary: s) (simp_all add: balance_checkIdle)

lemma balance_checkMinConns: "balance H s \<Longrightarrow> balance H (checkMinConns pe s)"
proof -
  assume H: "balance H s"
  have "balance H (((\<lambda>s. snd (onPuddle (pud_CreateResource (pe_pud pe) False) (\<lambda>_. []) s)) ^^ k) s)" for k
    using H by (induction k) (simp_all add: CreateResource)
  then show ?thesis by (simp add: checkMinConns_def Let_def)
qed

lemma balance_health: "balance H s \<Longrightarrow> balance H (healthTicks pe k s)"
proof (induction k arbitrary: s)
  case (Suc k)
  obtain ns s1 where all: "res_AcquireAllIdle pe s = (ns, s1)" by (cases "res_AcquireAllIdle pe s")
  have "balance H (checkIdleConnsHealth pe s)"
    using balance_checkIdle_all [OF AcquireAllIdle [OF Suc.prems all]] by (simp add: checkIdleConnsHealth_def all)
  with Suc show ?case by (simp add: balance_checkMinConns)
qed simp

lemma balance_Pool_Close: "balance H s \<Longrightarrow> balance H (Pool_Close pe s)"
  using Close by (simp add: Pool_Close_def comp_def)

lemma balance_admitAll:
  "admitAll pe ns s = (cs, s') \<Longrightarrow> balance (mset ns + H) s \<Longrightarrow> balance (\<Sum>\<^sub># (mset (map held_by cs)) + H) s'"
proof (induction ns arbitrary: s cs H)
  case (Cons n ns)
  obtain ok s1 where adm: "admits pe n s = (ok, s1)" by (cases "admits pe n s")
  have H1: "balance (add_mset n (mset ns + H)) s1" using Cons.prems(2) balance_admits [OF adm] by simp
  show ?case
  proof (cases ok)
    case True
    obtain c s2 where take: "takeConn n s1 = (c, s2)" by (cases "takeConn n s1")
    obtain cs' where rest: "admitAll pe ns s2 = (cs', s')" "cs = c # cs'"
      using Cons.prems(1) True adm take by (cases "admitAll pe ns s2") auto
    have "balance (mset ns + add_mset n H) s2" using H1 balance_takeConn [OF take] by simp
    from Cons.IH [OF rest(1) this] rest(2) takeConn_result [OF take] show ?thesis
      by (simp add: held_by_def ac_simps)
  next
    case False
    with Cons.prems(1) adm have "admitAll pe ns (res_Destroy pe n s1) = (cs, s')" by simp
    from Cons.IH [OF this Destroy [OF H1]] show ?thesis .
  qed
qed simp

lemma balance_Pool_AcquireAllIdle:
  assumes "Pool_AcquireAllIdle pe s = (cs, s')" "balance H s"
  shows "balance (\<Sum>\<^sub># (mset (map held_by cs)) + H) s'"
  using assms AcquireAllIdle [OF assms(2)] balance_admitAll
  by (auto simp: Pool_AcquireAllIdle_def split: prod.splits)

end

interpretation trace: ledger pe holds
  by unfold_locales
    (auto simp: holds_res_Acquire holds_res_AcquireAllIdle holds_give_back, simp_all add: holds_def)

text \<open>\<open>Acquire\<close> returns when the hook rejects finitely many connections in a row.\<close>

inductive acquirable :: "('p, 'pg) pool_env \<Rightarrow> ('p, 'pg) pool_state \<Rightarrow> bool" where
  failed: "res_Acquire pe s = (Inl e, s1) \<Longrightarrow> acquirable pe s"
| admitted: "res_Acquire pe s = (Inr n, s1) \<Longrightarrow> fst (admits pe n s1) \<Longrightarrow> acquirable pe s"
| rejected: "res_Acquire pe s = (Inr n, s1) \<Longrightarrow> admits pe n s1 = (False, s2) \<Longrightarrow> acquirable pe (res_Destroy pe n s2)
    \<Longrightarrow> acquirable pe s"

lemma acquirable_unhooked:
  assumes "p_beforeAcquire (pe_pool pe) = None"
  shows "acquirable pe s"
proof -
  obtain r s1 where "res_Acquire pe s = (r, s1)" by (cases "res_Acquire pe s")
  then show ?thesis
    by (cases r) (auto intro: acquirable.intros(1,2) simp: admits_def assms)
qed

lemma Pool_Acquire_returns: "acquirable pe s \<Longrightarrow> \<exists>out. Pool_Acquire pe s = Some out"
proof (induction rule: acquirable.induct)
  case (failed pe s e s1)
  then show ?case by (subst Pool_Acquire.simps) simp
next
  case (admitted pe s n s1)
  then show ?case by (subst Pool_Acquire.simps) (simp add: case_prod_unfold)
next
  case (rejected pe s n s1 s2)
  then show ?case by (subst Pool_Acquire.simps) simp
qed

lemma Pool_Acquire_held: "Pool_Acquire pe s = Some (Inr c, s') \<Longrightarrow> \<exists>n. c = \<lparr>pc_res = Some n\<rparr>"
proof -
  assume "Pool_Acquire pe s = Some (Inr c, s')"
  then have "case fst (Inr c :: go_error + poolConn, s') of Inl _ \<Rightarrow> True | Inr c \<Rightarrow> \<exists>n. c = \<lparr>pc_res = Some n\<rparr>"
    by (rule Pool_Acquire.raw_induct [rotated, where P = "\<lambda>_ _ out. case fst out of Inl _ \<Rightarrow> True | Inr c \<Rightarrow> \<exists>n. c = \<lparr>pc_res = Some n\<rparr>"])
      (fastforce simp: takeConn_def getConn_def split: prod.splits sum.splits if_splits)
  then show ?thesis by simp
qed

subsection \<open>A concrete pool\<close>

text \<open>One idle connection, which \<open>puddle\<close> hands out on every call.\<close>

definition demo_puddle :: "(unit, bool) puddle_ops" where
  "demo_puddle =
     \<lparr>pud_NewPool = \<lambda>_ _ _. ((), \<lambda>_. \<lparr>cr_conn = demo_prepared, cr_conns = 64, cr_poolRows = 64, cr_poolRowss = 64\<rparr>),
      pud_Acquire = Pair (Inr 0), pud_AcquireAllIdle = Pair [0], pud_CreateResource = \<lambda>_. Pair None, pud_Close = id,
      pud_Release = \<lambda>_. id, pud_ReleaseUnused = \<lambda>_. id, pud_Destroy = \<lambda>_. id,
      pud_Age = \<lambda>_ _. 0, pud_IdleDuration = \<lambda>_ _. 0, pud_Stat = \<lambda>_. \<lparr>pst_AcquireCount = 0, pst_AcquireDuration = 0,
        pst_AcquiredResources = 0, pst_CanceledAcquireCount = 0, pst_ConstructingResources = 0, pst_EmptyAcquireCount = 0,
        pst_IdleResources = 1, pst_MaxResources = 1, pst_TotalResources = 1\<rparr>\<rparr>"

definition demo_pool :: "(unit, bool) pool_env" where
  "demo_pool = \<lparr>pe_sy = demo_sy, pe_pud = demo_puddle,
     pe_pool = \<lparr>p_beforeAcquire = None, p_afterRelease = None, p_minConns = 0, p_maxConnLifetime = 3600 * second,
       p_maxConnIdleTime = 1800 * second, p_healthCheckPeriod = 60 * second\<rparr>\<rparr>"

definition demo_state :: "(unit, bool) pool_state" where
  "demo_state = \<lparr>ps_puddle = (), ps_heap = \<lambda>_. \<lparr>cr_conn = demo_prepared, cr_conns = 64, cr_poolRows = 64, cr_poolRowss = 64\<rparr>,
     ps_calls = [], ps_closed = False\<rparr>"

lemma demo_pool_sel:
  "pe_sy demo_pool = demo_sy" "s_env demo_sy = bare_env" "s_ops demo_sy = demo_ops" "p_beforeAcquire (pe_pool demo_pool) = None"
  by (simp_all add: demo_pool_def demo_sy_def)

lemma demo_holds: "holds {#} demo_state"
  by (simp add: holds_def demo_state_def)

definition demo_acquired :: "(unit, bool) pool_state" where
  "demo_acquired = demo_state\<lparr>ps_heap := (\<lambda>_. \<lparr>cr_conn = demo_prepared, cr_conns = 64, cr_poolRows = 64, cr_poolRowss = 64\<rparr>)
     (0 := \<lparr>cr_conn = demo_prepared, cr_conns = 63, cr_poolRows = 64, cr_poolRowss = 64\<rparr>), ps_calls := [PudAcquired 0]\<rparr>"

lemma demo_acquire: "Pool_Acquire demo_pool demo_state = Some (Inr \<lparr>pc_res = Some 0\<rparr>, demo_acquired)"
  by (subst Pool_Acquire.simps)
    (simp add: res_Acquire_def onPuddle_def demo_pool_def demo_puddle_def admits_def takeConn_def getConn_def unused_def
      demo_state_def demo_acquired_def)

subsection \<open>Properties\<close>



text \<open>
  C35. Only a connection fit for reuse goes back into the pool. When \<open>AcquireFunc\<close> ends, the
  connection its function still holds is released exactly if it is open, is not busy, is not in
  a transaction, is not older than the maximal lifetime and passes the \<open>AfterRelease\<close> hook;
  otherwise it is destroyed.
\<close>

theorem AcquireFunc_keeps_clean:
  assumes "Pool_Acquire pe s = Some (Inr c, s1)" and "f c s1 = Some (err, c', s2)" and "pc_res c' = Some n"
  defines "conn \<equiv> cr_conn (ps_heap s2 n)" and "ops \<equiv> s_ops (pe_sy pe)"
  shows "\<exists>s'. Pool_AcquireFunc pe f s = Some (err, s')
    \<and> ps_calls s' = ps_calls s2 @
        [if \<not> op_IsClosed ops (pgConn conn) \<and> \<not> op_IsBusy ops (pgConn conn) \<and> op_TxStatus ops (pgConn conn) = CHR ''I''
            \<and> sint (pud_Age (pe_pud pe) n (ps_puddle s2)) \<le> sint (p_maxConnLifetime (pe_pool pe))
            \<and> (case p_afterRelease (pe_pool pe) of None \<Rightarrow> True | Some hook \<Rightarrow> fst (hook conn))
         then PudReleased n else PudDestroyed n]"
  using assms(1-3)
  by (auto simp: Pool_AcquireFunc_def pooled_def pconn_Release_def healthy_def Let_def IsClosed_def conn_def ops_def
      word_sless_alt split: option.split prod.split)

definition demo_abandon :: "poolConn \<Rightarrow> (unit, bool) pool_state \<Rightarrow> (go_error option \<times> poolConn \<times> (unit, bool) pool_state) option" where
  "demo_abandon c s = Some (None, c, setConn 0 (snd (Conn_Close demo_ops demo_prepared)) s)"

theorem AcquireFunc_keeps_clean_witness:
  "\<exists>s'. Pool_AcquireFunc demo_pool demo_abandon demo_state = Some (None, s') \<and> ps_calls s' = [PudAcquired 0, PudDestroyed 0]"
  using AcquireFunc_keeps_clean [where f = demo_abandon, OF demo_acquire demo_abandon_def]
  by (simp add: demo_pool_sel Conn_Close_def log_if_def shouldLog_def IsClosed_def demo_acquired_def demo_state_def demo_simps)

subsection \<open>Configurations\<close>

lemma takeParam_restrict:
  "takeParam key config = (pc_RuntimeParams config key, config\<lparr>pc_RuntimeParams := pc_RuntimeParams config |` (- {key})\<rparr>)"
  by (simp add: takeParam_def restrict_complement_singleton_eq)

lemma complements:
  "- {a} \<inter> - {b} \<inter> - {c} \<inter> (- {d} \<inter> - {e} \<inter> - {f} \<inter> - {g} \<inter> - {h}) = - {a, b, c, d, e, f, g, h}"
  by blast

lemma sint_int32: "- (2 ^ 31) \<le> i \<Longrightarrow> i < 2 ^ 31 \<Longrightarrow> sint (word_of_int i :: 32 word) = i"
  by (simp add: sint_sbintrunc' signed_take_bit_int_eq_self)

lemma parseMaxConns_positive: "parseMaxConns numCPU s = Inr n \<Longrightarrow> 1 \<le> sint n"
  by (auto simp: parseMaxConns_def word_sless_alt sint_int32 dest!: ParseInt_range
      split: option.splits sum.splits if_splits)

text \<open>
  C40. Configurations of pools: the string is accepted only with a maximal size of at least one,
  and exactly the parameters of this package and of the pool are taken out of those that are
  sent to the server, which would refuse them.
\<close>

theorem Pool_ParseConfig_params:
  assumes "parse connString = Inr pg" and "Pool_ParseConfig parse parseDuration numCPU connString = Inr config"
  shows "1 \<le> sint (pcfg_MaxConns config) \<and> pcfg_createdByParseConfig config
    \<and> pc_RuntimeParams (cc_Config (pcfg_ConnConfig config)) = pc_RuntimeParams pg |` (- {''statement_cache_capacity'',
        ''statement_cache_mode'', ''prefer_simple_protocol'', ''pool_max_conns'', ''pool_min_conns'',
        ''pool_max_conn_lifetime'', ''pool_max_conn_idle_time'', ''pool_health_check_period''})"
  using assms
  by (auto simp: Pool_ParseConfig_def ParseConfig_def takeParam_restrict complements parseMaxConns_positive split: sum.splits)

definition demo_parse :: "string \<Rightarrow> go_error + pg_config" where
  "demo_parse s = Inr \<lparr>pc_Host = ''localhost'', pc_RuntimeParams = [''pool_min_conns'' \<mapsto> s, ''search_path'' \<mapsto> ''app''],
     pc_OnNotification = False\<rparr>"

lemma demo_parse_config:
  "ParseInt s 32 = Inr n \<Longrightarrow>
   \<exists>config. Pool_ParseConfig demo_parse (\<lambda>_. Inr 0) 1 s = Inr config \<and> pcfg_MinConns config = word_of_int n"
  by (simp add: Pool_ParseConfig_def ParseConfig_def takeParam_def demo_parse_def parseCapacity_def parseCacheMode_def
      parsePreferSimple_def parseMaxConns_def parseMinConns_def parseDurationParam_def)

theorem Pool_ParseConfig_params_witness:
  "\<exists>config :: bool Config. Pool_ParseConfig demo_parse (\<lambda>_. Inr 0) 1 ''2'' = Inr config \<and> 1 \<le> sint (pcfg_MaxConns config)
     \<and> pc_RuntimeParams (cc_Config (pcfg_ConnConfig config)) = [''search_path'' \<mapsto> ''app'']"
proof -
  have "ParseInt ''2'' 32 = Inr 2" by code_simp
  then obtain config :: "bool Config" where "Pool_ParseConfig demo_parse (\<lambda>_. Inr 0) 1 ''2'' = Inr config"
    using demo_parse_config by blast
  moreover note params = Pool_ParseConfig_params [OF demo_parse_def this]
  moreover from params have "pc_RuntimeParams (cc_Config (pcfg_ConnConfig config)) = [''search_path'' \<mapsto> ''app'']"
    by (auto simp: restrict_map_def fun_eq_iff)
  ultimately show ?thesis by blast
qed

text \<open>
  A negative \<open>pool_min_conns\<close> is not refused, although the documentation of \<open>ParseConfig\<close> asks for
  zero or more: connecting then panics.
\<close>

lemma negative_min_conns_panics:
  assumes "Pool_ParseConfig parse parseDuration numCPU connString = Inr config" and "sint (pcfg_MinConns config) < 0"
  shows "Pool_ConnectConfig sy pud dial config = None"
proof -
  have "\<not> pcfg_LazyConnect config"
    using assms(1) by (auto simp: Pool_ParseConfig_def takeParam_restrict split: sum.splits)
  with assms(2) show ?thesis
    by (simp add: Pool_ConnectConfig_def createIdleResources_def newPool_def Let_def split: prod.split)
qed

lemma negative_min_conns_accepted:
  "\<exists>config :: bool Config. Pool_ParseConfig demo_parse (\<lambda>_. Inr 0) 1 ''-1'' = Inr config \<and> sint (pcfg_MinConns config) < 0"
proof -
  have "ParseInt ''-1'' 32 = Inr (- 1)" by code_simp
  then show ?thesis using demo_parse_config by fastforce
qed

text \<open>Nor is a \<open>pool_health_check_period\<close> that is not positive, with which the ticker panics.\<close>

lemma zero_period_panics: "p_healthCheckPeriod (pe_pool pe) = 0 \<Longrightarrow> backgroundHealthCheck pe k s = None"
  by (simp add: backgroundHealthCheck_def)

end
