(* ===== verification/Pool_Objects.thy ===== *)
theory Pool_Objects
  imports Pool
begin

text \<open>
  \<open>src/pgxpool/rows.go\<close>, \<open>src/pgxpool/tx.go\<close> and \<open>src/pgxpool/batch_results.go\<close>, with the methods of
  \<open>Pool\<close> that make such objects: rows, transactions and batches that keep a connection of the pool
  until they end. Each holds the object of the package \<open>pgx\<close> and the \<open>Conn\<close> to release; the object
  of \<open>pgx\<close> uses the connection of a resource, whose handle the model keeps with it.
\<close>

subsection \<open>Rows\<close>

record poolRows =
  pr_r :: connRows
  pr_on :: nat
  pr_c :: "poolConn option"
  pr_err :: "go_error option"

record poolRow =
  pw_r :: connRows
  pw_on :: nat
  pw_c :: "poolConn option"
  pw_err :: "go_error option"

text \<open>The values of the interfaces \<open>pgx.Rows\<close> and \<open>pgx.Row\<close> that a pool returns.\<close>

datatype pool_Rows = ErrRows go_error | PoolRows poolRows
datatype pool_Row = ErrRow go_error | PoolRow poolRow

definition getPoolRow :: "poolConn \<Rightarrow> nat \<Rightarrow> connRows \<Rightarrow> 'pg connResource \<Rightarrow> poolRow \<times> 'pg connResource" where
  "getPoolRow c n r cr = (\<lparr>pw_r = r, pw_on = n, pw_c = Some c, pw_err = None\<rparr>, cr\<lparr>cr_poolRows := unused (cr_poolRows cr)\<rparr>)"

definition getPoolRows :: "poolConn \<Rightarrow> nat \<Rightarrow> connRows \<Rightarrow> 'pg connResource \<Rightarrow> poolRows \<times> 'pg connResource" where
  "getPoolRows c n r cr = (\<lparr>pr_r = r, pr_on = n, pr_c = Some c, pr_err = None\<rparr>, cr\<lparr>cr_poolRowss := unused (cr_poolRowss cr)\<rparr>)"

definition Pool_Query ::
  "('p, 'pg) pool_env \<Rightarrow> string \<Rightarrow> goval list \<Rightarrow> ('p, 'pg) pool_state
     \<Rightarrow> ((pool_Rows \<times> go_error option) \<times> ('p, 'pg) pool_state) option" where
  "Pool_Query pe sql args s =
     Option.bind (Pool_Acquire pe s) (\<lambda>(r, s).
       case r of
         Inl err \<Rightarrow> Some ((ErrRows err, Some err), s)
       | Inr c \<Rightarrow>
           Option.bind (pconn_Query pe sql args c s) (\<lambda>((rows, err), s).
             case err of
               Some e \<Rightarrow> Some ((ErrRows e, Some e), snd (pconn_Release pe c s))
             | None \<Rightarrow>
                 (case pc_res c of
                    None \<Rightarrow> None
                  | Some n \<Rightarrow>
                      (case getPoolRows c n rows (ps_heap s n) of (pr, cr) \<Rightarrow>
                         Some ((PoolRows pr, None), s\<lparr>ps_heap := (ps_heap s)(n := cr)\<rparr>)))))"

definition Pool_QueryRow ::
  "('p, 'pg) pool_env \<Rightarrow> string \<Rightarrow> goval list \<Rightarrow> ('p, 'pg) pool_state \<Rightarrow> (pool_Row \<times> ('p, 'pg) pool_state) option" where
  "Pool_QueryRow pe sql args s =
     Option.bind (Pool_Acquire pe s) (\<lambda>(r, s).
       case r of
         Inl err \<Rightarrow> Some (ErrRow err, s)
       | Inr c \<Rightarrow>
           Option.bind (pconn_QueryRow pe sql args c s) (\<lambda>(row, s).
             case pc_res c of
               None \<Rightarrow> None
             | Some n \<Rightarrow>
                 (case getPoolRow c n row (ps_heap s n) of (pw, cr) \<Rightarrow>
                    Some (PoolRow pw, s\<lparr>ps_heap := (ps_heap s)(n := cr)\<rparr>))))"

text \<open>A method of an object that uses the connection of a resource.\<close>

definition withRes ::
  "nat \<Rightarrow> ('pg Conn \<Rightarrow> ('r \<times> 'o \<times> 'pg Conn) option) \<Rightarrow> ('p, 'pg) pool_state \<Rightarrow> ('r \<times> 'o \<times> ('p, 'pg) pool_state) option" where
  "withRes n f s =
     map_option (\<lambda>((r, obj), s). (r, obj, s)) (atRes n (\<lambda>conn. map_option (\<lambda>(r, obj, conn). ((r, obj), conn)) (f conn)) s)"

text \<open>\<open>if x.c != nil { x.c.Release(); x.c = nil }\<close>, which leaves \<open>x.c\<close> nil.\<close>

definition releaseField :: "('p, 'pg) pool_env \<Rightarrow> poolConn option \<Rightarrow> ('p, 'pg) pool_state \<Rightarrow> ('p, 'pg) pool_state" where
  "releaseField pe c s = (case c of None \<Rightarrow> s | Some c \<Rightarrow> snd (pconn_Release pe c s))"

definition poolRows_Close :: "('p, 'pg) pool_env \<Rightarrow> poolRows \<Rightarrow> ('p, 'pg) pool_state \<Rightarrow> poolRows \<times> ('p, 'pg) pool_state" where
  "poolRows_Close pe rows s =
     (case rows_Close (s_ops (pe_sy pe)) (pr_r rows) (cr_conn (ps_heap s (pr_on rows))) of (r, conn) \<Rightarrow>
        (rows\<lparr>pr_r := r, pr_c := None\<rparr>, releaseField pe (pr_c rows) (setConn (pr_on rows) conn s)))"

definition poolRows_Err :: "poolRows \<Rightarrow> go_error option" where
  "poolRows_Err rows = (case pr_err rows of Some e \<Rightarrow> Some e | None \<Rightarrow> r_err (pr_r rows))"

definition poolRows_CommandTag :: "poolRows \<Rightarrow> command_tag" where
  "poolRows_CommandTag rows = r_commandTag (pr_r rows)"

definition poolRows_FieldDescriptions ::
  "('p, 'pg) pool_env \<Rightarrow> poolRows \<Rightarrow> ('p, 'pg) pool_state \<Rightarrow> field_description list option" where
  "poolRows_FieldDescriptions pe rows s = rows_FieldDescriptions (s_ops (pe_sy pe)) (pr_r rows) (cr_conn (ps_heap s (pr_on rows)))"

definition poolRows_Next ::
  "('p, 'pg) pool_env \<Rightarrow> poolRows \<Rightarrow> ('p, 'pg) pool_state \<Rightarrow> (bool \<times> poolRows \<times> ('p, 'pg) pool_state) option" where
  "poolRows_Next pe rows s =
     (if pr_err rows \<noteq> None then Some (False, rows, s)
      else map_option (\<lambda>(n, r, s).
          let rows = rows\<lparr>pr_r := r\<rparr> in
          (n, if \<not> n then poolRows_Close pe rows s else (rows, s)))
        (withRes (pr_on rows) (rows_Next (s_ops (pe_sy pe)) (pr_r rows)) s))"

definition poolRows_Scan ::
  "('p, 'pg) pool_env \<Rightarrow> goval list \<Rightarrow> poolRows \<Rightarrow> ('p, 'pg) pool_state
     \<Rightarrow> ((go_error option \<times> goval list) \<times> poolRows \<times> ('p, 'pg) pool_state) option" where
  "poolRows_Scan pe dest rows s =
     map_option (\<lambda>((err, dest), r, s).
         let rows = rows\<lparr>pr_r := r\<rparr> in
         ((err, dest), if err \<noteq> None then poolRows_Close pe rows s else (rows, s)))
       (withRes (pr_on rows) (rows_Scan (s_ops (pe_sy pe)) (s_env (pe_sy pe)) dest (pr_r rows)) s)"

definition poolRows_Values ::
  "('p, 'pg) pool_env \<Rightarrow> poolRows \<Rightarrow> ('p, 'pg) pool_state \<Rightarrow> ((go_error + goval list) \<times> poolRows \<times> ('p, 'pg) pool_state) option" where
  "poolRows_Values pe rows s =
     map_option (\<lambda>(res, r, s).
         let rows = rows\<lparr>pr_r := r\<rparr> in
         (res, if isl res then poolRows_Close pe rows s else (rows, s)))
       (withRes (pr_on rows) (rows_Values (s_ops (pe_sy pe)) (s_env (pe_sy pe)) (pr_r rows)) s)"

definition poolRows_RawValues :: "poolRows \<Rightarrow> bytes option list" where
  "poolRows_RawValues rows = r_values (pr_r rows)"

text \<open>\<open>poolRow.Scan\<close> releases the connection and keeps the pointer to it.\<close>

definition poolRow_Scan ::
  "('p, 'pg) pool_env \<Rightarrow> goval list \<Rightarrow> poolRow \<Rightarrow> ('p, 'pg) pool_state
     \<Rightarrow> ((go_error option \<times> goval list) \<times> poolRow \<times> ('p, 'pg) pool_state) option" where
  "poolRow_Scan pe dest row s =
     (if pw_err row \<noteq> None then Some ((pw_err row, dest), row, s)
      else map_option (\<lambda>(res, r, s).
          case pw_c row of
            None \<Rightarrow> (res, row\<lparr>pw_r := r\<rparr>, s)
          | Some c \<Rightarrow> (case pconn_Release pe c s of (c, s) \<Rightarrow> (res, row\<lparr>pw_r := r, pw_c := Some c\<rparr>, s)))
        (withRes (pw_on row) (row_Scan (s_ops (pe_sy pe)) (s_env (pe_sy pe)) dest (pw_r row)) s))"

text \<open>The methods through the interface; an error value answers every one with its error.\<close>

fun Rows_Err :: "pool_Rows \<Rightarrow> go_error option" where
  "Rows_Err (ErrRows err) = Some err"
| "Rows_Err (PoolRows rows) = poolRows_Err rows"

fun Rows_Close :: "('p, 'pg) pool_env \<Rightarrow> pool_Rows \<Rightarrow> ('p, 'pg) pool_state \<Rightarrow> pool_Rows \<times> ('p, 'pg) pool_state" where
  "Rows_Close pe (ErrRows err) s = (ErrRows err, s)"
| "Rows_Close pe (PoolRows rows) s = map_prod PoolRows id (poolRows_Close pe rows s)"

fun Rows_Next :: "('p, 'pg) pool_env \<Rightarrow> pool_Rows \<Rightarrow> ('p, 'pg) pool_state \<Rightarrow> (bool \<times> pool_Rows \<times> ('p, 'pg) pool_state) option" where
  "Rows_Next pe (ErrRows err) s = Some (False, ErrRows err, s)"
| "Rows_Next pe (PoolRows rows) s = map_option (map_prod id (map_prod PoolRows id)) (poolRows_Next pe rows s)"

fun Rows_Scan ::
  "('p, 'pg) pool_env \<Rightarrow> goval list \<Rightarrow> pool_Rows \<Rightarrow> ('p, 'pg) pool_state
     \<Rightarrow> ((go_error option \<times> goval list) \<times> pool_Rows \<times> ('p, 'pg) pool_state) option" where
  "Rows_Scan pe dest (ErrRows err) s = Some ((Some err, dest), ErrRows err, s)"
| "Rows_Scan pe dest (PoolRows rows) s = map_option (map_prod id (map_prod PoolRows id)) (poolRows_Scan pe dest rows s)"

fun Rows_Values ::
  "('p, 'pg) pool_env \<Rightarrow> pool_Rows \<Rightarrow> ('p, 'pg) pool_state \<Rightarrow> ((go_error + goval list) \<times> pool_Rows \<times> ('p, 'pg) pool_state) option" where
  "Rows_Values pe (ErrRows err) s = Some (Inl err, ErrRows err, s)"
| "Rows_Values pe (PoolRows rows) s = map_option (map_prod id (map_prod PoolRows id)) (poolRows_Values pe rows s)"

fun Row_Scan ::
  "('p, 'pg) pool_env \<Rightarrow> goval list \<Rightarrow> pool_Row \<Rightarrow> ('p, 'pg) pool_state
     \<Rightarrow> ((go_error option \<times> goval list) \<times> pool_Row \<times> ('p, 'pg) pool_state) option" where
  "Row_Scan pe dest (ErrRow err) s = Some ((Some err, dest), ErrRow err, s)"
| "Row_Scan pe dest (PoolRow row) s = map_option (map_prod id (map_prod PoolRow id)) (poolRow_Scan pe dest row s)"

subsection \<open>Transactions\<close>

record poolTx =
  pt_t :: dbTx
  pt_on :: nat
  pt_c :: "poolConn option"

definition Pool_BeginTx ::
  "('p, 'pg) pool_env \<Rightarrow> TxOptions \<Rightarrow> ('p, 'pg) pool_state \<Rightarrow> ((go_error + poolTx) \<times> ('p, 'pg) pool_state) option" where
  "Pool_BeginTx pe txOptions s =
     Option.bind (Pool_Acquire pe s) (\<lambda>(r, s).
       case r of
         Inl err \<Rightarrow> Some (Inl err, s)
       | Inr c \<Rightarrow>
           Option.bind (pconn_BeginTx pe txOptions c s) (\<lambda>(t, s).
             case t of
               Inl err \<Rightarrow> Some (Inl err, snd (pconn_Release pe c s))
             | Inr t \<Rightarrow> (case pc_res c of None \<Rightarrow> None | Some n \<Rightarrow> Some (Inr \<lparr>pt_t = t, pt_on = n, pt_c = Some c\<rparr>, s))))"

definition Pool_Begin ::
  "('p, 'pg) pool_env \<Rightarrow> ('p, 'pg) pool_state \<Rightarrow> ((go_error + poolTx) \<times> ('p, 'pg) pool_state) option" where
  "Pool_Begin pe s = Pool_BeginTx pe emptyTxOptions s"

definition poolTx_Commit ::
  "('p, 'pg) pool_env \<Rightarrow> poolTx \<Rightarrow> ('p, 'pg) pool_state \<Rightarrow> (go_error option \<times> poolTx \<times> ('p, 'pg) pool_state) option" where
  "poolTx_Commit pe tx s =
     map_option (\<lambda>(err, t, s). (err, tx\<lparr>pt_t := t, pt_c := None\<rparr>, releaseField pe (pt_c tx) s))
       (withRes (pt_on tx) (dbTx_Commit (pe_sy pe) (pt_t tx)) s)"

definition poolTx_Rollback ::
  "('p, 'pg) pool_env \<Rightarrow> poolTx \<Rightarrow> ('p, 'pg) pool_state \<Rightarrow> (go_error option \<times> poolTx \<times> ('p, 'pg) pool_state) option" where
  "poolTx_Rollback pe tx s =
     map_option (\<lambda>(err, t, s). (err, tx\<lparr>pt_t := t, pt_c := None\<rparr>, releaseField pe (pt_c tx) s))
       (withRes (pt_on tx) (dbTx_Rollback (pe_sy pe) (pt_t tx)) s)"

definition poolTx_Begin ::
  "('p, 'pg) pool_env \<Rightarrow> poolTx \<Rightarrow> ('p, 'pg) pool_state \<Rightarrow> ((go_error + dbSavepoint) \<times> poolTx \<times> ('p, 'pg) pool_state) option" where
  "poolTx_Begin pe tx s = map_option (\<lambda>(r, t, s). (r, tx\<lparr>pt_t := t\<rparr>, s)) (withRes (pt_on tx) (dbTx_Begin (pe_sy pe) (pt_t tx)) s)"

definition poolTx_BeginFunc ::
  "('p, 'pg) pool_env \<Rightarrow> (('pg, 'u) sp_state \<Rightarrow> (go_error option \<times> ('pg, 'u) sp_state) option) \<Rightarrow> 'u \<Rightarrow> poolTx \<Rightarrow> ('p, 'pg) pool_state
     \<Rightarrow> ((go_error option \<times> 'u) \<times> poolTx \<times> ('p, 'pg) pool_state) option" where
  "poolTx_BeginFunc pe f u tx s =
     map_option (\<lambda>(r, t, s). (r, tx\<lparr>pt_t := t\<rparr>, s))
       (withRes (pt_on tx) (\<lambda>conn. map_option (\<lambda>(err, t, conn, u). ((err, u), t, conn)) (dbTx_BeginFunc (pe_sy pe) f (pt_t tx) conn u)) s)"

definition poolTx_Exec ::
  "('p, 'pg) pool_env \<Rightarrow> string \<Rightarrow> goval list \<Rightarrow> poolTx \<Rightarrow> ('p, 'pg) pool_state \<Rightarrow> (exec_result \<times> ('p, 'pg) pool_state) option" where
  "poolTx_Exec pe sql arguments tx s = atRes (pt_on tx) (dbTx_Exec (pe_sy pe) (pt_t tx) sql arguments) s"

definition poolTx_Prepare ::
  "('p, 'pg) pool_env \<Rightarrow> string \<Rightarrow> string \<Rightarrow> poolTx \<Rightarrow> ('p, 'pg) pool_state
     \<Rightarrow> ((go_error + statement_description) \<times> ('p, 'pg) pool_state) option" where
  "poolTx_Prepare pe name sql tx s = atRes (pt_on tx) (Some \<circ> dbTx_Prepare (pe_sy pe) (pt_t tx) name sql) s"

definition poolTx_Query ::
  "('p, 'pg) pool_env \<Rightarrow> string \<Rightarrow> goval list \<Rightarrow> poolTx \<Rightarrow> ('p, 'pg) pool_state
     \<Rightarrow> ((connRows \<times> go_error option) \<times> ('p, 'pg) pool_state) option" where
  "poolTx_Query pe sql args tx s = atRes (pt_on tx) (dbTx_Query (pe_sy pe) (pt_t tx) sql args) s"

definition poolTx_QueryRow ::
  "('p, 'pg) pool_env \<Rightarrow> string \<Rightarrow> goval list \<Rightarrow> poolTx \<Rightarrow> ('p, 'pg) pool_state \<Rightarrow> (connRows \<times> ('p, 'pg) pool_state) option" where
  "poolTx_QueryRow pe sql args tx s = atRes (pt_on tx) (dbTx_QueryRow (pe_sy pe) (pt_t tx) sql args) s"

definition poolTx_QueryFunc ::
  "('p, 'pg) pool_env \<Rightarrow> string \<Rightarrow> goval list \<Rightarrow> goval list \<Rightarrow> 'u callback \<Rightarrow> 'u \<Rightarrow> poolTx \<Rightarrow> ('p, 'pg) pool_state
     \<Rightarrow> ((exec_result \<times> 'u) \<times> ('p, 'pg) pool_state) option" where
  "poolTx_QueryFunc pe sql args scans f u tx s =
     atRes (pt_on tx) (\<lambda>conn. map_option (\<lambda>(res, conn, u). ((res, u), conn)) (dbTx_QueryFunc (pe_sy pe) (pt_t tx) sql args scans f conn u)) s"

definition poolTx_CopyFrom ::
  "('p, 'pg) pool_env \<Rightarrow> 's CopyFromSource \<Rightarrow> nat option \<Rightarrow> Identifier \<Rightarrow> string list \<Rightarrow> 's \<Rightarrow> poolTx \<Rightarrow> ('p, 'pg) pool_state
     \<Rightarrow> (((int \<times> go_error option) \<times> 's) \<times> ('p, 'pg) pool_state) option" where
  "poolTx_CopyFrom pe iface accepts tableName columnNames rowSrc tx s =
     atRes (pt_on tx) (\<lambda>conn. map_option (\<lambda>(res, rowSrc, conn). ((res, rowSrc), conn))
       (dbTx_CopyFrom (pe_sy pe) (pt_t tx) iface accepts tableName columnNames rowSrc conn)) s"

definition poolTx_SendBatch ::
  "(string list \<Rightarrow> string list) \<Rightarrow> ('p, 'pg) pool_env \<Rightarrow> Batch \<Rightarrow> poolTx \<Rightarrow> ('p, 'pg) pool_state
     \<Rightarrow> ((batchResults \<times> Batch) \<times> ('p, 'pg) pool_state) option" where
  "poolTx_SendBatch iteration pe b tx s =
     atRes (pt_on tx) (\<lambda>conn. map_option (\<lambda>(br, b, conn). ((br, b), conn)) (dbTx_SendBatch iteration (pe_sy pe) (pt_t tx) b conn)) s"

definition poolTx_LargeObjects :: "('p, 'pg) pool_env \<Rightarrow> poolTx \<Rightarrow> 'pg Tx_iface" where
  "poolTx_LargeObjects pe tx = dbTx_LargeObjects (pe_sy pe) (pt_t tx)"

subsection \<open>Batches\<close>

record poolBatchResults =
  pb_br :: batchResults
  pb_on :: nat
  pb_c :: "poolConn option"

datatype pool_BatchResults = ErrBatchResults go_error | PoolBatchResults poolBatchResults

definition Pool_SendBatch ::
  "(string list \<Rightarrow> string list) \<Rightarrow> ('p, 'pg) pool_env \<Rightarrow> Batch \<Rightarrow> ('p, 'pg) pool_state
     \<Rightarrow> ((pool_BatchResults \<times> Batch) \<times> ('p, 'pg) pool_state) option" where
  "Pool_SendBatch iteration pe b s =
     Option.bind (Pool_Acquire pe s) (\<lambda>(r, s).
       case r of
         Inl err \<Rightarrow> Some ((ErrBatchResults err, b), s)
       | Inr c \<Rightarrow>
           Option.bind (pconn_SendBatch iteration pe b c s) (\<lambda>((br, b), s).
             case pc_res c of
               None \<Rightarrow> None
             | Some n \<Rightarrow> Some ((PoolBatchResults \<lparr>pb_br = br, pb_on = n, pb_c = Some c\<rparr>, b), s)))"

text \<open>The methods but \<open>Close\<close>, for an error value and for a batch that holds a connection.\<close>

definition onBatch ::
  "(go_error \<Rightarrow> 'r) \<Rightarrow> (batchResults \<Rightarrow> 'pg Conn \<Rightarrow> ('r \<times> batchResults \<times> 'pg Conn) option) \<Rightarrow> pool_BatchResults \<Rightarrow> ('p, 'pg) pool_state
     \<Rightarrow> ('r \<times> pool_BatchResults \<times> ('p, 'pg) pool_state) option" where
  "onBatch onErr f br s =
     (case br of
        ErrBatchResults err \<Rightarrow> Some (onErr err, br, s)
      | PoolBatchResults pb \<Rightarrow>
          map_option (\<lambda>(r, br, s). (r, PoolBatchResults (pb\<lparr>pb_br := br\<rparr>), s)) (withRes (pb_on pb) (f (pb_br pb)) s))"

definition poolBatch_Exec ::
  "('p, 'pg) pool_env \<Rightarrow> pool_BatchResults \<Rightarrow> ('p, 'pg) pool_state \<Rightarrow> (exec_result \<times> pool_BatchResults \<times> ('p, 'pg) pool_state) option" where
  "poolBatch_Exec pe br s = onBatch (\<lambda>err. ([], Some err)) (br_Exec (s_ops (pe_sy pe))) br s"

definition poolBatch_Query ::
  "('p, 'pg) pool_env \<Rightarrow> pool_BatchResults \<Rightarrow> ('p, 'pg) pool_state
     \<Rightarrow> (((go_error + connRows) \<times> go_error option) \<times> pool_BatchResults \<times> ('p, 'pg) pool_state) option" where
  "poolBatch_Query pe br s =
     onBatch (\<lambda>err. (Inl err, Some err))
       (\<lambda>br conn. map_option (\<lambda>((rows, err), br, conn). ((Inr rows, err), br, conn)) (br_Query (s_ops (pe_sy pe)) br conn)) br s"

definition poolBatch_QueryFunc ::
  "('p, 'pg) pool_env \<Rightarrow> goval list \<Rightarrow> 'u callback \<Rightarrow> 'u \<Rightarrow> pool_BatchResults \<Rightarrow> ('p, 'pg) pool_state
     \<Rightarrow> ((exec_result \<times> 'u) \<times> pool_BatchResults \<times> ('p, 'pg) pool_state) option" where
  "poolBatch_QueryFunc pe scans f u br s =
     onBatch (\<lambda>err. (([], Some err), u))
       (\<lambda>br conn. map_option (\<lambda>(res, rows, br, conn, u). ((res, u), br, conn)) (br_QueryFunc (pe_sy pe) scans f br conn u)) br s"

definition poolBatch_QueryRow ::
  "('p, 'pg) pool_env \<Rightarrow> pool_BatchResults \<Rightarrow> ('p, 'pg) pool_state
     \<Rightarrow> ((go_error + connRows) \<times> pool_BatchResults \<times> ('p, 'pg) pool_state) option" where
  "poolBatch_QueryRow pe br s =
     onBatch Inl (\<lambda>br conn. map_option (\<lambda>(rows, br, conn). (Inr rows, br, conn)) (br_QueryRow (s_ops (pe_sy pe)) br conn)) br s"

definition poolBatch_Close ::
  "('p, 'pg) pool_env \<Rightarrow> pool_BatchResults \<Rightarrow> ('p, 'pg) pool_state \<Rightarrow> (go_error option \<times> pool_BatchResults \<times> ('p, 'pg) pool_state) option" where
  "poolBatch_Close pe br s =
     (case br of
        ErrBatchResults err \<Rightarrow> Some (Some err, br, s)
      | PoolBatchResults pb \<Rightarrow>
          map_option (\<lambda>(err, br, s). (err, PoolBatchResults (pb\<lparr>pb_br := br, pb_c := None\<rparr>), releaseField pe (pb_c pb) s))
            (withRes (pb_on pb) (br_Close (s_ops (pe_sy pe)) (pb_br pb)) s))"

subsection \<open>What an object holds\<close>

definition held :: "poolConn option \<Rightarrow> nat multiset" where
  "held c = (case c of None \<Rightarrow> {#} | Some c \<Rightarrow> held_by c)"

lemma held_simps [simp]: "held None = {#}" "held (Some c) = held_by c"
  by (simp_all add: held_def)

lemma withRes_result: "withRes n f s = Some (r, obj, s') \<Longrightarrow> \<exists>conn. f (cr_conn (ps_heap s n)) = Some (r, obj, conn)"
  by (auto simp: withRes_def atRes_def)

lemma withRes_same: "f (cr_conn (ps_heap s n)) = Some (r, obj, cr_conn (ps_heap s n)) \<Longrightarrow> withRes n f s = Some (r, obj, s)"
  by (simp add: withRes_def atRes_def)

subsection \<open>The rows of a pool\<close>

lemma poolRows_Close_released:
  "pr_c (fst (poolRows_Close pe rows s)) = None \<and> pr_err (fst (poolRows_Close pe rows s)) = pr_err rows"
  by (simp add: poolRows_Close_def split: prod.split)

text \<open>The invariant of rows in use, over the resources that others hold.\<close>

definition rows_inv :: "(nat multiset \<Rightarrow> ('p, 'pg) pool_state \<Rightarrow> bool) \<Rightarrow> nat multiset \<Rightarrow> poolRows \<times> ('p, 'pg) pool_state \<Rightarrow> bool" where
  "rows_inv balance H x \<longleftrightarrow> (case x of (rows, s) \<Rightarrow> pr_err rows = None \<and> balance (held (pr_c rows) + H) s)"

text \<open>What a client may do with rows: any sequence of calls.\<close>

inductive rows_step :: "('p, 'pg) pool_env \<Rightarrow> poolRows \<times> ('p, 'pg) pool_state \<Rightarrow> poolRows \<times> ('p, 'pg) pool_state \<Rightarrow> bool"
  for pe where
  Next: "poolRows_Next pe rows s = Some (n, rows', s') \<Longrightarrow> rows_step pe (rows, s) (rows', s')"
| Scan: "poolRows_Scan pe dest rows s = Some (res, rows', s') \<Longrightarrow> rows_step pe (rows, s) (rows', s')"
| Values: "poolRows_Values pe rows s = Some (res, rows', s') \<Longrightarrow> rows_step pe (rows, s) (rows', s')"
| Close: "poolRows_Close pe rows s = (rows', s') \<Longrightarrow> rows_step pe (rows, s) (rows', s')"

subsection \<open>The transactions of a pool\<close>

text \<open>A transaction of a pool is closed once its transaction is and its connection is released.\<close>

definition pool_tx_closed :: "poolTx \<times> ('p, 'pg) pool_state \<Rightarrow> bool" where
  "pool_tx_closed x \<longleftrightarrow> tx_closed (pt_t (fst x)) \<and> pt_c (fst x) = None"

definition pool_commit ::
  "('p, 'pg) pool_env \<Rightarrow> poolTx \<times> ('p, 'pg) pool_state \<Rightarrow> (go_error option \<times> poolTx \<times> ('p, 'pg) pool_state) option" where
  "pool_commit pe x = poolTx_Commit pe (fst x) (snd x)"

definition pool_rollback ::
  "('p, 'pg) pool_env \<Rightarrow> poolTx \<times> ('p, 'pg) pool_state \<Rightarrow> (go_error option \<times> poolTx \<times> ('p, 'pg) pool_state) option" where
  "pool_rollback pe x = poolTx_Rollback pe (fst x) (snd x)"

lemma poolTx_closed_again:
  assumes "pool_tx_closed (tx, s)"
  shows "poolTx_Commit pe tx s = Some (Some ErrTxClosed, tx, s)" "poolTx_Rollback pe tx s = Some (Some ErrTxClosed, tx, s)"
  using assms withRes_same [of "dbTx_Commit (pe_sy pe) (pt_t tx)" s "pt_on tx" "Some ErrTxClosed" "pt_t tx"]
    withRes_same [of "dbTx_Rollback (pe_sy pe) (pt_t tx)" s "pt_on tx" "Some ErrTxClosed" "pt_t tx"]
  by (simp_all add: poolTx_Commit_def poolTx_Rollback_def pool_tx_closed_def dbTx_Commit_closed dbTx_Rollback_closed
      releaseField_def)

lemma poolTx_closes:
  "poolTx_Commit pe tx s = Some (e, tx', s') \<Longrightarrow> pool_tx_closed (tx', s')"
  "poolTx_Rollback pe tx s = Some (e, tx', s') \<Longrightarrow> pool_tx_closed (tx', s')"
  by (auto simp: poolTx_Commit_def poolTx_Rollback_def pool_tx_closed_def dest!: withRes_result
      intro: dbTx_Commit_closes dbTx_Rollback_closes)

interpretation pool_tx: tx_control "pool_commit pe" "pool_rollback pe" pool_tx_closed
  by unfold_locales (auto simp: pool_commit_def pool_rollback_def poolTx_closed_again dest: poolTx_closes)

text \<open>The connection of the transaction, over the resources that others hold.\<close>

definition tx_inv :: "(nat multiset \<Rightarrow> ('p, 'pg) pool_state \<Rightarrow> bool) \<Rightarrow> nat multiset \<Rightarrow> poolTx \<times> ('p, 'pg) pool_state \<Rightarrow> bool" where
  "tx_inv balance H x \<longleftrightarrow> balance (held (pt_c (fst x)) + H) (snd x)"

subsection \<open>Objects in the ledger\<close>

text \<open>
  What the methods of the objects do to a ledger, over the resources that others hold: an object
  has one connection in it from its making to its end.
\<close>

context ledger
begin

lemma balance_releaseField: "balance (held c + H) s \<Longrightarrow> balance H (releaseField pe c s)"
  by (auto simp: releaseField_def held_def intro: balance_Release split: option.splits)

lemma balance_withRes: "withRes n f s = Some (r, obj, s') \<Longrightarrow> balance H s' = balance H s"
  by (auto simp: withRes_def atRes_def)

lemma pconn_frame:
  assumes "onConn c f s = Some (r, s1)" "balance (held_by c + H) s"
  shows "balance (held_by c + H) s1" "balance H (snd (pconn_Release pe c s1))"
  using balance_onConn [OF assms(1)] assms(2) by (auto intro: balance_Release)

lemma balance_poolRows_Close: "balance (held (pr_c rows) + H) s \<Longrightarrow> balance H (snd (poolRows_Close pe rows s))"
  by (auto simp: poolRows_Close_def intro: balance_releaseField split: prod.split)

lemma rows_inv_Close:
  "rows_inv balance H (rows, s) \<Longrightarrow> poolRows_Close pe rows s = (rows', s') \<Longrightarrow> rows_inv balance H (rows', s') \<and> pr_c rows' = None"
  using poolRows_Close_released [of pe rows s] balance_poolRows_Close [of rows H s] by (simp add: rows_inv_def)

text \<open>The common shape of \<open>Next\<close>, \<open>Scan\<close> and \<open>Values\<close>: read, and close when the reading fails.\<close>

lemma rows_inv_read:
  assumes inv: "rows_inv balance H (rows, s)" and read: "withRes (pr_on rows) f s = Some (r, obj, s1)"
    and out: "(rows', s') = (if bad then poolRows_Close pe (rows\<lparr>pr_r := obj\<rparr>) s1 else (rows\<lparr>pr_r := obj\<rparr>, s1))"
  shows "rows_inv balance H (rows', s') \<and> (bad \<longrightarrow> pr_c rows' = None)"
proof -
  have "rows_inv balance H (rows\<lparr>pr_r := obj\<rparr>, s1)" using inv balance_withRes [OF read] by (simp add: rows_inv_def)
  from rows_inv_Close [OF this, of rows' s'] this out show ?thesis by (cases bad) simp_all
qed

lemma rows_inv_Next:
  assumes "rows_inv balance H (rows, s)" "poolRows_Next pe rows s = Some (n, rows', s')"
  shows "rows_inv balance H (rows', s') \<and> (\<not> n \<longrightarrow> pr_c rows' = None)"
proof -
  from assms obtain r s1 where "withRes (pr_on rows) (rows_Next (s_ops (pe_sy pe)) (pr_r rows)) s = Some (n, r, s1)"
    "(rows', s') = (if \<not> n then poolRows_Close pe (rows\<lparr>pr_r := r\<rparr>) s1 else (rows\<lparr>pr_r := r\<rparr>, s1))"
    by (auto simp: poolRows_Next_def rows_inv_def Let_def)
  from rows_inv_read [OF assms(1) this] show ?thesis .
qed

lemma rows_inv_Scan:
  assumes "rows_inv balance H (rows, s)" "poolRows_Scan pe dest rows s = Some (res, rows', s')"
  shows "rows_inv balance H (rows', s') \<and> (fst res \<noteq> None \<longrightarrow> pr_c rows' = None)"
proof -
  from assms obtain r s1 where "withRes (pr_on rows) (rows_Scan (s_ops (pe_sy pe)) (s_env (pe_sy pe)) dest (pr_r rows)) s = Some (res, r, s1)"
    "(rows', s') = (if fst res \<noteq> None then poolRows_Close pe (rows\<lparr>pr_r := r\<rparr>) s1 else (rows\<lparr>pr_r := r\<rparr>, s1))"
    by (auto simp: poolRows_Scan_def Let_def)
  from rows_inv_read [OF assms(1) this] show ?thesis .
qed

lemma rows_inv_Values:
  assumes "rows_inv balance H (rows, s)" "poolRows_Values pe rows s = Some (res, rows', s')"
  shows "rows_inv balance H (rows', s') \<and> (isl res \<longrightarrow> pr_c rows' = None)"
proof -
  from assms obtain r s1 where "withRes (pr_on rows) (rows_Values (s_ops (pe_sy pe)) (s_env (pe_sy pe)) (pr_r rows)) s = Some (res, r, s1)"
    "(rows', s') = (if isl res then poolRows_Close pe (rows\<lparr>pr_r := r\<rparr>) s1 else (rows\<lparr>pr_r := r\<rparr>, s1))"
    by (auto simp: poolRows_Values_def Let_def)
  from rows_inv_read [OF assms(1) this] show ?thesis .
qed

lemma rows_inv_step: "rows_step pe x y \<Longrightarrow> rows_inv balance H x \<Longrightarrow> rows_inv balance H y"
  by (induction rule: rows_step.induct) (blast dest: rows_inv_Next rows_inv_Scan rows_inv_Values rows_inv_Close)+

lemma rows_inv_steps: "(rows_step pe)\<^sup>*\<^sup>* x y \<Longrightarrow> rows_inv balance H x \<Longrightarrow> rows_inv balance H y"
  by (induction rule: rtranclp_induct) (auto dest: rows_inv_step)

lemma Pool_Query_inv:
  assumes "Pool_Query pe sql args s = Some ((rows, err), s')" "balance H s"
  shows "case rows of ErrRows e \<Rightarrow> err = Some e \<and> balance H s' | PoolRows pr \<Rightarrow> err = None \<and> rows_inv balance H (pr, s')"
proof -
  from assms(1) obtain r s1 where acq: "Pool_Acquire pe s = Some (r, s1)"
    by (auto simp: Pool_Query_def Option.bind_eq_Some_conv)
  note H1 = balance_Acquire [OF acq assms(2)]
  show ?thesis
  proof (cases r)
    case (Inl e)
    with H1 acq assms(1) show ?thesis by (auto simp: Pool_Query_def)
  next
    case (Inr c)
    with acq assms(1) obtain q e s2 where q: "pconn_Query pe sql args c s1 = Some ((q, e), s2)"
      by (auto simp: Pool_Query_def Option.bind_eq_Some_conv)
    have "balance (held_by c + H) s2" "balance H (snd (pconn_Release pe c s2))"
      using pconn_frame [OF q [unfolded pconn_Query_def]] H1 Inr by auto
    with acq assms(1) Inr q show ?thesis
      by (auto simp: Pool_Query_def getPoolRows_def rows_inv_def split: option.splits)
  qed
qed

lemma tx_inv_finish:
  "pool_commit pe x = Some (e, y) \<Longrightarrow> tx_inv balance H x \<Longrightarrow> tx_inv balance H y"
  "pool_rollback pe x = Some (e, y) \<Longrightarrow> tx_inv balance H x \<Longrightarrow> tx_inv balance H y"
  by (auto simp: pool_commit_def pool_rollback_def poolTx_Commit_def poolTx_Rollback_def tx_inv_def balance_withRes
      intro!: balance_releaseField)

lemma Pool_BeginTx_inv:
  assumes "Pool_BeginTx pe opts s = Some (r, s')" "balance H s"
  shows "case r of Inl _ \<Rightarrow> balance H s' | Inr tx \<Rightarrow> tx_inv balance H (tx, s')"
proof -
  from assms(1) obtain a s1 where acq: "Pool_Acquire pe s = Some (a, s1)"
    by (auto simp: Pool_BeginTx_def Option.bind_eq_Some_conv)
  note H1 = balance_Acquire [OF acq assms(2)]
  show ?thesis
  proof (cases a)
    case (Inl e)
    with H1 acq assms(1) show ?thesis by (auto simp: Pool_BeginTx_def)
  next
    case (Inr c)
    with acq assms(1) obtain t s2 where t: "pconn_BeginTx pe opts c s1 = Some (t, s2)"
      by (auto simp: Pool_BeginTx_def Option.bind_eq_Some_conv)
    have "balance (held_by c + H) s2" "balance H (snd (pconn_Release pe c s2))"
      using pconn_frame [OF t [unfolded pconn_BeginTx_def]] H1 Inr by auto
    with acq assms(1) Inr t show ?thesis
      by (auto simp: Pool_BeginTx_def tx_inv_def split: option.splits sum.splits)
  qed
qed

lemma Pool_SendBatch_inv:
  assumes "Pool_SendBatch iteration pe b s = Some ((br, b'), s')" "balance H s"
  shows "case br of ErrBatchResults _ \<Rightarrow> balance H s' | PoolBatchResults pb \<Rightarrow> balance (held (pb_c pb) + H) s'"
proof -
  from assms(1) obtain a s1 where acq: "Pool_Acquire pe s = Some (a, s1)"
    by (auto simp: Pool_SendBatch_def Option.bind_eq_Some_conv)
  note H1 = balance_Acquire [OF acq assms(2)]
  show ?thesis
  proof (cases a)
    case (Inl e)
    with H1 acq assms(1) show ?thesis by (auto simp: Pool_SendBatch_def)
  next
    case (Inr c)
    with acq assms(1) obtain r s2 where t: "pconn_SendBatch iteration pe b c s1 = Some (r, s2)"
      by (auto simp: Pool_SendBatch_def Option.bind_eq_Some_conv)
    have "balance (held_by c + H) s2"
      using pconn_frame(1) [OF t [unfolded pconn_SendBatch_def]] H1 Inr by auto
    with acq assms(1) Inr t show ?thesis by (auto simp: Pool_SendBatch_def split: option.splits prod.splits)
  qed
qed

lemma poolBatch_Close_inv:
  assumes "poolBatch_Close pe (PoolBatchResults pb) s = Some (err, br, s')" "balance (held (pb_c pb) + H) s"
  shows "balance H s' \<and> (\<exists>pb'. br = PoolBatchResults pb' \<and> pb_c pb' = None)"
  using assms by (auto simp: poolBatch_Close_def balance_withRes intro!: balance_releaseField)

lemma onBatch_inv:
  assumes "onBatch onErr f (PoolBatchResults pb) s = Some (r, br, s')"
  shows "\<exists>pb'. br = PoolBatchResults pb' \<and> pb_c pb' = pb_c pb \<and> balance H s' = balance H s"
  using assms by (auto simp: onBatch_def balance_withRes)

end

subsection \<open>Properties\<close>

text \<open>
  C37. Deferring \<open>Rollback\<close> on a transaction of a pool is safe. A client that begins a transaction,
  works with it, commits it or, on an error, rolls it back, and runs a deferred \<open>Rollback\<close> at the
  end has ended the transaction once: the result is that of the one \<open>Commit\<close> or the error of the
  client, and the connection has gone back to the pool exactly once.
\<close>

theorem pool_tx_defer_rollback:
  assumes "holds H s" and "Pool_BeginTx pe opts s = Some (Inr tx, s1)"
    and "f (tx, s1) = Some (fErr, x)" and "tx_inv holds H (tx, s1) \<Longrightarrow> tx_inv holds H x"
  shows "runInTx (pool_commit pe) (pool_rollback pe) f (tx, s1) =
      (case fErr of None \<Rightarrow> pool_commit pe x | Some e \<Rightarrow> map_option (\<lambda>(_, y). (Some e, y)) (pool_rollback pe x))
    \<and> (\<forall>err tx' s'. runInTx (pool_commit pe) (pool_rollback pe) f (tx, s1) = Some (err, tx', s') \<longrightarrow>
        tx_closed (pt_t tx') \<and> pt_c tx' = None \<and> holds H s')"
proof -
  note once = pool_tx.runInTx_once [of f "(tx, s1)", OF assms(3), of pe]
  have x: "tx_inv holds H x" using trace.Pool_BeginTx_inv [OF assms(2,1)] assms(4) by simp
  have "tx_closed (pt_t tx') \<and> pt_c tx' = None \<and> holds H s'"
    if "runInTx (pool_commit pe) (pool_rollback pe) f (tx, s1) = Some (err, tx', s')" for err tx' s'
  proof -
    have "pool_tx_closed (tx', s')" by (rule pool_tx.runInTx_closes [OF that])
    moreover have "tx_inv holds H (tx', s')"
      using that once x by (auto dest: trace.tx_inv_finish split: option.splits)
    ultimately show ?thesis by (simp add: pool_tx_closed_def tx_inv_def)
  qed
  with once show ?thesis by blast
qed

lemma demo_pool_begin: "\<exists>tx s1. Pool_BeginTx demo_pool emptyTxOptions demo_state = Some (Inr tx, s1)
    \<and> preparedStatements (cr_conn (ps_heap s1 (pt_on tx))) ''commit'' = None
    \<and> \<not> hasLogger (cr_conn (ps_heap s1 (pt_on tx))) \<and> \<not> tx_closed (pt_t tx)"
proof -
  have fresh: "preparedStatements demo_prepared (beginSQL emptyTxOptions) = None" "\<not> hasLogger demo_prepared"
    "preparedStatements demo_prepared ''commit'' = None"
    by (simp_all add: demo_prepared_def demo_conn_def beginSQL_def emptyTxOptions_def)
  with demo_exec_text(1) [OF fresh(1,2)] demo_acquire show ?thesis
    by (auto simp: Pool_BeginTx_def pconn_BeginTx_def onConn_def atRes_def demo_pool_sel demo_acquired_def Conn_BeginTx_def)
qed

theorem pool_tx_defer_rollback_witness:
  "\<exists>tx s1 tx' s'. Pool_BeginTx demo_pool emptyTxOptions demo_state = Some (Inr tx, s1)
     \<and> runInTx (pool_commit demo_pool) (pool_rollback demo_pool) (\<lambda>x. Some (None, x)) (tx, s1) = Some (None, tx', s')
     \<and> pt_c tx' = None \<and> holds {#} s'"
proof -
  obtain tx s1 where b: "Pool_BeginTx demo_pool emptyTxOptions demo_state = Some (Inr tx, s1)"
    and fresh: "preparedStatements (cr_conn (ps_heap s1 (pt_on tx))) ''commit'' = None"
      "\<not> hasLogger (cr_conn (ps_heap s1 (pt_on tx)))" "\<not> tx_closed (pt_t tx)"
    using demo_pool_begin by blast
  note safe = pool_tx_defer_rollback [where f = "\<lambda>x. Some (None, x)", OF demo_holds b refl]
  obtain c' where "Conn_Exec demo_sy ''commit'' [] (cr_conn (ps_heap s1 (pt_on tx))) = Some (([], None), c')"
    using demo_exec_text(1) [OF fresh(1,2)] by blast
  then have "\<exists>tx' s'. pool_commit demo_pool (tx, s1) = Some (None, tx', s')"
    using fresh(3) by (simp add: pool_commit_def poolTx_Commit_def withRes_def atRes_def dbTx_Commit_def demo_pool_sel)
  with safe b show ?thesis by auto
qed

end
