(* ===== verification/Pool_Session.thy ===== *)
theory Pool_Session
  imports Pool_Objects
begin

text \<open>
  A client of a pool (\<open>src/pgxpool\<close>) over time: a step relation in which any number of acquired
  connections, rows, transactions and batches are in use at once, their calls interleaved with
  those of the pool and with its health checks. Two ledgers are kept along every run: the record
  of calls, and the resources that \<open>puddle\<close> has lent.
\<close>

subsection \<open>The objects of a client\<close>

datatype pool_object = OConn poolConn | ORows poolRows | ORow poolRow | OTx poolTx | OBatch poolBatchResults

fun object_holds :: "pool_object \<Rightarrow> nat multiset" where
  "object_holds (OConn c) = held_by c"
| "object_holds (ORows rows) = held (pr_c rows)"
| "object_holds (ORow row) = held (pw_c row)"
| "object_holds (OTx tx) = held (pt_c tx)"
| "object_holds (OBatch pb) = held (pb_c pb)"

fun object_ok :: "pool_object \<Rightarrow> bool" where
  "object_ok (ORows rows) \<longleftrightarrow> pr_err rows = None"
| "object_ok (ORow row) \<longleftrightarrow> pw_err row = None"
| "object_ok _ \<longleftrightarrow> True"

text \<open>
  The calls of one object. The client has a memory of its own, which it may change with every
  call; a call that only uses the connection is any function on it whose result is the new
  memory. So the methods \<open>pconn_Exec\<close> to \<open>pconn_Ping\<close> are such uses of a connection, \<open>poolTx_Begin\<close> to
  \<open>poolTx_SendBatch\<close> of a transaction, and \<open>poolBatch_Exec\<close> to \<open>poolBatch_QueryRow\<close> of a batch.
\<close>

inductive object_step ::
  "('p, 'pg) pool_env \<Rightarrow> pool_object \<times> 'u \<times> ('p, 'pg) pool_state \<Rightarrow> pool_object \<times> 'u \<times> ('p, 'pg) pool_state \<Rightarrow> bool"
  for pe where
  conn_use: "onConn c f s = Some (u', s') \<Longrightarrow> object_step pe (OConn c, u, s) (OConn c, u', s')"
| conn_Release: "pconn_Release pe c s = (c', s') \<Longrightarrow> object_step pe (OConn c, u, s) (OConn c', u', s')"
| rows_call: "rows_step pe (rows, s) (rows', s') \<Longrightarrow> object_step pe (ORows rows, u, s) (ORows rows', u', s')"
| row_Scan: "poolRow_Scan pe dest row s = Some (res, row', s') \<Longrightarrow> object_step pe (ORow row, u, s) (ORow row', u', s')"
| tx_use: "withRes (pt_on tx) f s = Some (u', t, s') \<Longrightarrow> object_step pe (OTx tx, u, s) (OTx (tx\<lparr>pt_t := t\<rparr>), u', s')"
| tx_Commit: "poolTx_Commit pe tx s = Some (err, tx', s') \<Longrightarrow> object_step pe (OTx tx, u, s) (OTx tx', u', s')"
| tx_Rollback: "poolTx_Rollback pe tx s = Some (err, tx', s') \<Longrightarrow> object_step pe (OTx tx, u, s) (OTx tx', u', s')"
| batch_use: "withRes (pb_on pb) f s = Some (u', br, s') \<Longrightarrow> object_step pe (OBatch pb, u, s) (OBatch (pb\<lparr>pb_br := br\<rparr>), u', s')"
| batch_Close: "poolBatch_Close pe (PoolBatchResults pb) s = Some (err, PoolBatchResults pb', s')
    \<Longrightarrow> object_step pe (OBatch pb, u, s) (OBatch pb', u', s')"

text \<open>The calls that end an object: after each of them it holds no connection.\<close>

inductive object_end ::
  "('p, 'pg) pool_env \<Rightarrow> pool_object \<times> ('p, 'pg) pool_state \<Rightarrow> pool_object \<times> ('p, 'pg) pool_state \<Rightarrow> bool"
  for pe where
  "pconn_Release pe c s = (c', s') \<Longrightarrow> object_end pe (OConn c, s) (OConn c', s')"
| "poolRows_Close pe rows s = (rows', s') \<Longrightarrow> object_end pe (ORows rows, s) (ORows rows', s')"
| "poolRows_Next pe rows s = Some (False, rows', s') \<Longrightarrow> object_end pe (ORows rows, s) (ORows rows', s')"
| "poolRows_Scan pe dest rows s = Some ((Some e, dest'), rows', s') \<Longrightarrow> object_end pe (ORows rows, s) (ORows rows', s')"
| "poolRows_Values pe rows s = Some (Inl e, rows', s') \<Longrightarrow> object_end pe (ORows rows, s) (ORows rows', s')"
| "poolRow_Scan pe dest row s = Some (res, row', s') \<Longrightarrow> object_end pe (ORow row, s) (ORow row', s')"
| "poolTx_Commit pe tx s = Some (err, tx', s') \<Longrightarrow> object_end pe (OTx tx, s) (OTx tx', s')"
| "poolTx_Rollback pe tx s = Some (err, tx', s') \<Longrightarrow> object_end pe (OTx tx, s) (OTx tx', s')"
| "poolBatch_Close pe (PoolBatchResults pb) s = Some (err, PoolBatchResults pb', s')
    \<Longrightarrow> object_end pe (OBatch pb, s) (OBatch pb', s')"

subsection \<open>Runs of a client\<close>

text \<open>
  A step of a client: a call of the pool, which may make an object, a call of one of its objects,
  or a round of the health check in the background.
\<close>

type_synonym ('p, 'pg, 'u) client = "pool_object list \<times> 'u \<times> ('p, 'pg) pool_state"

inductive client_step :: "('p, 'pg) pool_env \<Rightarrow> ('p, 'pg, 'u) client \<Rightarrow> ('p, 'pg, 'u) client \<Rightarrow> bool"
  for pe where
  Acquire_fails: "Pool_Acquire pe s = Some (Inl err, s') \<Longrightarrow> client_step pe (objs, u, s) (objs, u', s')"
| Acquire: "Pool_Acquire pe s = Some (Inr c, s') \<Longrightarrow> client_step pe (objs, u, s) (objs @ [OConn c], u', s')"
| AcquireAllIdle: "Pool_AcquireAllIdle pe s = (cs, s') \<Longrightarrow> client_step pe (objs, u, s) (objs @ map OConn cs, u', s')"
| AcquireFunc: "\<lbrakk>Pool_AcquireFunc pe f s = Some (err, s');
      \<And>c s e c' s'. f c s = Some (e, c', s') \<Longrightarrow> (object_step pe)\<^sup>*\<^sup>* (OConn c, u, s) (OConn c', u', s')\<rbrakk>
    \<Longrightarrow> client_step pe (objs, u, s) (objs, u', s')"
| Query_fails: "Pool_Query pe sql args s = Some ((ErrRows e, err), s') \<Longrightarrow> client_step pe (objs, u, s) (objs, u', s')"
| Query: "Pool_Query pe sql args s = Some ((PoolRows rows, err), s') \<Longrightarrow> client_step pe (objs, u, s) (objs @ [ORows rows], u', s')"
| QueryRow_fails: "Pool_QueryRow pe sql args s = Some (ErrRow e, s') \<Longrightarrow> client_step pe (objs, u, s) (objs, u', s')"
| QueryRow: "Pool_QueryRow pe sql args s = Some (PoolRow row, s') \<Longrightarrow> client_step pe (objs, u, s) (objs @ [ORow row], u', s')"
| BeginTx_fails: "Pool_BeginTx pe opts s = Some (Inl err, s') \<Longrightarrow> client_step pe (objs, u, s) (objs, u', s')"
| BeginTx: "Pool_BeginTx pe opts s = Some (Inr tx, s') \<Longrightarrow> client_step pe (objs, u, s) (objs @ [OTx tx], u', s')"
| SendBatch_fails: "Pool_SendBatch iteration pe b s = Some ((ErrBatchResults e, b'), s') \<Longrightarrow> client_step pe (objs, u, s) (objs, u', s')"
| SendBatch: "Pool_SendBatch iteration pe b s = Some ((PoolBatchResults pb, b'), s')
    \<Longrightarrow> client_step pe (objs, u, s) (objs @ [OBatch pb], u', s')"
| Exec: "Pool_Exec pe sql args s = Some (res, s') \<Longrightarrow> client_step pe (objs, u, s) (objs, u', s')"
| QueryFunc: "Pool_QueryFunc pe sql args scans g u s = Some ((res, u'), s') \<Longrightarrow> client_step pe (objs, u, s) (objs, u', s')"
| BeginTxFunc: "Pool_BeginTxFunc pe opts f u s = Some ((err, u'), s') \<Longrightarrow> client_step pe (objs, u, s) (objs, u', s')"
| CopyFrom: "Pool_CopyFrom pe iface accepts table columns u s = Some ((res, u'), s') \<Longrightarrow> client_step pe (objs, u, s) (objs, u', s')"
| Ping: "Pool_Ping pe s = Some (err, s') \<Longrightarrow> client_step pe (objs, u, s) (objs, u', s')"
| call: "object_step pe (obj, u, s) (obj', u', s') \<Longrightarrow> client_step pe (xs @ obj # ys, u, s) (xs @ obj' # ys, u', s')"
| health: "backgroundHealthCheck pe k s = Some s' \<Longrightarrow> client_step pe (objs, u, s) (objs, u, s')"
| Close: "client_step pe (objs, u, s) (objs, u', Pool_Close pe s)"

subsection \<open>The ledger of a run\<close>

definition all_held :: "pool_object list \<Rightarrow> nat multiset" where
  "all_held objs = \<Sum>\<^sub># (mset (map object_holds objs))"

lemma all_held_simps [simp]:
  "all_held [] = {#}" "all_held (obj # objs) = object_holds obj + all_held objs"
  "all_held (xs @ ys) = all_held xs + all_held ys"
  by (simp_all add: all_held_def)

lemma all_held_conns: "all_held (map OConn cs) = \<Sum>\<^sub># (mset (map held_by cs))"
  by (simp add: all_held_def comp_def)

lemma all_held_nth:
  assumes "i < length objs" "n \<in># object_holds (objs ! i)"
  shows "1 \<le> count (all_held objs) n"
proof -
  have "all_held objs = all_held (take i objs) + (object_holds (objs ! i) + all_held (drop (Suc i) objs))"
    by (metis all_held_simps(2,3) assms(1) id_take_nth_drop)
  with assms(2) show ?thesis by (simp add: Suc_le_eq)
qed

lemma all_held_twice:
  assumes "i < j" "j < length objs" "n \<in># object_holds (objs ! i)" "n \<in># object_holds (objs ! j)"
  shows "2 \<le> count (all_held objs) n"
proof -
  have "1 \<le> count (all_held (take j objs)) n" using all_held_nth [of i "take j objs" n] assms by simp
  moreover have "1 \<le> count (all_held (drop j objs)) n" using all_held_nth [of 0 "drop j objs" n] assms by simp
  moreover have "count (all_held objs) n = count (all_held (take j objs)) n + count (all_held (drop j objs)) n"
    by (metis all_held_simps(3) append_take_drop_id count_union)
  ultimately show ?thesis by linarith
qed

definition client_inv ::
  "(nat multiset \<Rightarrow> ('p, 'pg) pool_state \<Rightarrow> bool) \<Rightarrow> nat multiset \<Rightarrow> ('p, 'pg, 'u) client \<Rightarrow> bool" where
  "client_inv balance H x \<longleftrightarrow> (case x of (objs, u, s) \<Rightarrow>
     list_all object_ok objs \<and> balance (all_held objs + H) s)"

lemma poolRow_Scan_cases:
  assumes "poolRow_Scan pe dest row s = Some (res, row', s')" "pw_err row = None"
  obtains f r s1 where "withRes (pw_on row) f s = Some (res, r, s1)" "s' = releaseField pe (pw_c row) s1"
    and "row' = row\<lparr>pw_r := r, pw_c := map_option (\<lambda>c. fst (pconn_Release pe c s1)) (pw_c row)\<rparr>"
proof -
  let ?f = "row_Scan (s_ops (pe_sy pe)) (s_env (pe_sy pe)) dest (pw_r row)"
  from assms obtain r s1 where w: "withRes (pw_on row) ?f s = Some (res, r, s1)"
    and out: "(case pw_c row of None \<Rightarrow> (res, row\<lparr>pw_r := r\<rparr>, s1)
      | Some c \<Rightarrow> (case pconn_Release pe c s1 of (c, s) \<Rightarrow> (res, row\<lparr>pw_r := r, pw_c := Some c\<rparr>, s))) = (res, row', s')"
    by (cases "pw_c row") (auto simp: poolRow_Scan_def case_prod_unfold)
  show ?thesis
    by (rule that [OF w]; cases row; cases "pw_c row") (use out in \<open>auto simp: releaseField_def case_prod_unfold\<close>)
qed

lemma poolRow_Scan_released:
  assumes "poolRow_Scan pe dest row s = Some (res, row', s')" "pw_err row = None"
  shows "pw_err row' = None \<and> held (pw_c row') = {#}"
  by (rule poolRow_Scan_cases [OF assms])
    (use assms(2) in \<open>simp add: held_def held_by_def Release_released split: option.split\<close>)

lemma object_end_released:
  assumes "object_end pe (obj, s) (obj', s')" "object_ok obj"
  shows "object_holds obj' = {#}"
  using assms
proof (cases rule: object_end.cases)
  case (1 c c')
  then show ?thesis using Release_released [of pe c s] by (simp add: held_by_def)
next
  case (2 rows rows')
  then show ?thesis using poolRows_Close_released [of pe rows s] by simp
next
  case (6 dest row res row')
  then show ?thesis using assms(2) by (simp add: poolRow_Scan_released)
next
  case (7 tx err tx')
  then show ?thesis using poolTx_closes(1) by (fastforce simp: pool_tx_closed_def)
next
  case (8 tx err tx')
  then show ?thesis using poolTx_closes(2) by (fastforce simp: pool_tx_closed_def)
next
  case (9 pb err pb')
  then show ?thesis by (auto simp: poolBatch_Close_def)
qed (use assms(2) in \<open>auto simp: poolRows_Next_def poolRows_Scan_def poolRows_Values_def Let_def poolRows_Close_def
    case_prod_unfold split: if_splits\<close>)

lemma object_end_step: "object_end pe (obj, s) (obj', s') \<Longrightarrow> object_step pe (obj, u, s) (obj', u', s')"
  by (cases rule: object_end.cases, assumption) (auto intro: object_step.intros rows_step.intros)

context ledger
begin

lemma balance_poolRow_Scan:
  assumes "poolRow_Scan pe dest row s = Some (res, row', s')" "balance (held (pw_c row) + H) s" "pw_err row = None"
  shows "balance H s'"
  by (rule poolRow_Scan_cases [OF assms(1,3)]) (use assms(2) in \<open>simp add: balance_withRes balance_releaseField\<close>)

lemma balance_QueryRow:
  assumes "Pool_QueryRow pe sql args s = Some (row, s')" "balance H s"
  shows "case row of ErrRow e \<Rightarrow> balance H s' | PoolRow pw \<Rightarrow> pw_err pw = None \<and> balance (held (pw_c pw) + H) s'"
proof -
  from assms(1) obtain a s1 where acq: "Pool_Acquire pe s = Some (a, s1)"
    by (auto simp: Pool_QueryRow_def Option.bind_eq_Some_conv)
  note H1 = balance_Acquire [OF acq assms(2)]
  show ?thesis
  proof (cases a)
    case (Inl e)
    with H1 acq assms(1) show ?thesis by (auto simp: Pool_QueryRow_def)
  next
    case (Inr c)
    with acq assms(1) obtain q s2 where q: "pconn_QueryRow pe sql args c s1 = Some (q, s2)"
      by (auto simp: Pool_QueryRow_def Option.bind_eq_Some_conv)
    have "balance (held_by c + H) s2"
      using pconn_frame(1) [OF q [unfolded pconn_QueryRow_def]] H1 Inr by auto
    with acq assms(1) Inr q show ?thesis
      by (auto simp: Pool_QueryRow_def getPoolRow_def split: option.splits)
  qed
qed

lemma balance_object_step:
  assumes "object_step pe (obj, u, s) (obj', u', s')" "object_ok obj" "balance (object_holds obj + H) s"
  shows "object_ok obj' \<and> balance (object_holds obj' + H) s'"
  using assms
proof (cases rule: object_step.cases)
  case (conn_use c f)
  then show ?thesis using assms(3) by (simp add: balance_onConn)
next
  case (conn_Release c c')
  then show ?thesis using assms(3) balance_Release [of c H s] Release_released [of pe c s] by (simp add: held_by_def)
next
  case (rows_call rows rows')
  then show ?thesis using assms(2,3) rows_inv_step [of "(rows, s)" "(rows', s')" H] by (simp add: rows_inv_def)
next
  case (row_Scan dest row res row')
  then show ?thesis using assms(2,3) poolRow_Scan_released [OF row_Scan(3)] balance_poolRow_Scan [OF row_Scan(3)] by simp
next
  case (tx_use tx f t)
  then show ?thesis using assms(3) by (simp add: balance_withRes)
next
  case (tx_Commit tx err tx')
  then show ?thesis using assms(3) tx_inv_finish(1) [of "(tx, s)" err "(tx', s')" H] by (simp add: tx_inv_def pool_commit_def)
next
  case (tx_Rollback tx err tx')
  then show ?thesis using assms(3) tx_inv_finish(2) [of "(tx, s)" err "(tx', s')" H] by (simp add: tx_inv_def pool_rollback_def)
next
  case (batch_use pb f br)
  then show ?thesis using assms(3) by (simp add: balance_withRes)
next
  case (batch_Close pb err pb')
  then show ?thesis using assms(3) poolBatch_Close_inv [of pb s err "PoolBatchResults pb'" s' H] by auto
qed

lemma balance_object_steps:
  assumes "(object_step pe)\<^sup>*\<^sup>* x y" "object_ok (fst x)" "balance (object_holds (fst x) + H) (snd (snd x))"
  shows "object_ok (fst y) \<and> balance (object_holds (fst y) + H) (snd (snd y))"
  using assms by (induction rule: rtranclp_induct) (auto dest: balance_object_step)

lemma balance_AcquireFunc:
  assumes "Pool_AcquireFunc pe f s = Some (err, s')" "balance H s"
    and "\<And>c s e c' s'. f c s = Some (e, c', s') \<Longrightarrow> (object_step pe)\<^sup>*\<^sup>* (OConn c, u, s) (OConn c', u', s')"
  shows "balance H s'"
  using assms(1) unfolding Pool_AcquireFunc_def
  by (rule balance_pooled [OF _ assms(2)]) (use balance_object_steps [OF assms(3)] in fastforce)

lemma client_inv_step:
  assumes "client_step pe x y" "client_inv balance H x"
  shows "client_inv balance H y"
  using assms
proof (induction rule: client_step.induct)
  case (Query sql args s rows err s' objs u u')
  then show ?case using Pool_Query_inv [OF Query(1), of "all_held objs + H"]
    by (simp add: client_inv_def rows_inv_def ac_simps)
next
  case (call obj u s obj' u' s' xs ys)
  then show ?case using balance_object_step [OF call(1), of "all_held xs + all_held ys + H"]
    by (auto simp: client_inv_def ac_simps)
next
  case (Acquire s c s' objs u u')
  then show ?case using balance_Acquire [OF Acquire(1), of "all_held objs + H"] by (simp add: client_inv_def ac_simps)
next
  case (Acquire_fails s err s' objs u u')
  then show ?case using balance_Acquire [OF Acquire_fails(1), of "all_held objs + H"] by (simp add: client_inv_def)
next
  case (AcquireAllIdle s cs s' objs u u')
  then show ?case using balance_Pool_AcquireAllIdle [OF AcquireAllIdle(1), of "all_held objs + H"]
    by (auto simp: client_inv_def all_held_conns list_all_iff ac_simps)
next
  case (AcquireFunc f s err s' u u' objs)
  then show ?case using balance_AcquireFunc [OF AcquireFunc(1) _ AcquireFunc(2), of "all_held objs + H"]
    by (simp add: client_inv_def)
next
  case (QueryRow sql args s row s' objs u u')
  then show ?case using balance_QueryRow [OF QueryRow(1), of "all_held objs + H"] by (simp add: client_inv_def ac_simps)
next
  case (BeginTx opts s tx s' objs u u')
  then show ?case using Pool_BeginTx_inv [OF BeginTx(1), of "all_held objs + H"]
    by (simp add: client_inv_def tx_inv_def ac_simps)
next
  case (SendBatch iteration b s pb b' s' objs u u')
  then show ?case using Pool_SendBatch_inv [OF SendBatch(1), of "all_held objs + H"] by (simp add: client_inv_def ac_simps)
next
  case (health k s s' objs u)
  then show ?case using balance_health [of "all_held objs + H" s k]
    by (auto simp: client_inv_def backgroundHealthCheck_def split: if_splits)
next
  case (Close objs u s u')
  then show ?case by (simp add: client_inv_def balance_Pool_Close)
qed (auto simp: client_inv_def dest: Pool_Query_inv balance_QueryRow Pool_BeginTx_inv Pool_SendBatch_inv balance_calls)

lemma client_inv_steps:
  "(client_step pe)\<^sup>*\<^sup>* x y \<Longrightarrow> client_inv balance H x \<Longrightarrow> client_inv balance H y"
  by (induction rule: rtranclp_induct) (auto dest: client_inv_step)

end

subsection \<open>What \<open>puddle\<close> has lent\<close>

text \<open>
  What is documented of \<open>puddle\<close>: a resource that is lent is not lent again before it is given back,
  and the statistics count those that are lent. \<open>lent\<close> are the resources that a state has lent.
\<close>

definition lends :: "('p, 'pg) puddle_ops \<Rightarrow> ('p \<Rightarrow> nat set) \<Rightarrow> bool" where
  "lends pud lent \<longleftrightarrow>
     (\<forall>st e st'. pud_Acquire pud st = (Inl e, st') \<longrightarrow> lent (fst st') = lent (fst st))
     \<and> (\<forall>st n st'. pud_Acquire pud st = (Inr n, st') \<longrightarrow> n \<notin> lent (fst st) \<and> lent (fst st') = insert n (lent (fst st)))
     \<and> (\<forall>st ns st'. pud_AcquireAllIdle pud st = (ns, st') \<longrightarrow>
          distinct ns \<and> set ns \<inter> lent (fst st) = {} \<and> lent (fst st') = set ns \<union> lent (fst st))
     \<and> (\<forall>st n. lent (fst (pud_Release pud n st)) = lent (fst st) - {n})
     \<and> (\<forall>st n. lent (fst (pud_ReleaseUnused pud n st)) = lent (fst st) - {n})
     \<and> (\<forall>st n. lent (fst (pud_Destroy pud n st)) = lent (fst st) - {n})
     \<and> (\<forall>st b. lent (fst (snd (pud_CreateResource pud b st))) = lent (fst st))
     \<and> (\<forall>st. lent (fst (pud_Close pud st)) = lent (fst st))
     \<and> (\<forall>p. pst_AcquiredResources (pud_Stat pud p) = of_nat (card (lent p)))"

definition lent_out :: "('p \<Rightarrow> nat set) \<Rightarrow> nat multiset \<Rightarrow> ('p, 'pg) pool_state \<Rightarrow> bool" where
  "lent_out lent H s \<longleftrightarrow> finite (lent (ps_puddle s)) \<and> H = mset_set (lent (ps_puddle s))"

lemma ps_puddle_onPuddle [simp]: "ps_puddle (snd (onPuddle f rec s)) = fst (snd (f (ps_puddle s, ps_heap s)))"
  by (simp add: onPuddle_def case_prod_unfold)

lemma lent_remove:
  assumes "finite A" "add_mset n H = mset_set A"
  shows "H = mset_set (A - {n})"
proof -
  have "n \<in># mset_set A" by (metis assms(2) union_single_eq_member)
  then have "n \<in> A" using assms(1) by simp
  then have "mset_set A = add_mset n (mset_set (A - {n}))" by (rule mset_set.remove [OF assms(1)])
  with assms(2) show ?thesis by simp
qed

lemma lent_append: "finite A \<Longrightarrow> distinct ns \<Longrightarrow> set ns \<inter> A = {} \<Longrightarrow> mset_set (set ns \<union> A) = mset ns + mset_set A"
  by (simp add: mset_set_Union mset_set_set)

lemma lent_give_back:
  assumes "lends (pe_pud pe) lent"
  shows "lent (ps_puddle (res_Release pe n s)) = lent (ps_puddle s) - {n}"
    and "lent (ps_puddle (res_ReleaseUnused pe n s)) = lent (ps_puddle s) - {n}"
    and "lent (ps_puddle (res_Destroy pe n s)) = lent (ps_puddle s) - {n}"
  using assms by (simp_all add: lends_def res_Release_def res_ReleaseUnused_def res_Destroy_def)

lemma lent_take:
  assumes "lends (pe_pud pe) lent"
  shows "res_Acquire pe s = (Inl e, s') \<Longrightarrow> lent (ps_puddle s') = lent (ps_puddle s)"
    and "res_Acquire pe s = (Inr n, s') \<Longrightarrow> n \<notin> lent (ps_puddle s) \<and> lent (ps_puddle s') = insert n (lent (ps_puddle s))"
    and "res_AcquireAllIdle pe s = (ns, s') \<Longrightarrow> distinct ns \<and> set ns \<inter> lent (ps_puddle s) = {}
      \<and> lent (ps_puddle s') = set ns \<union> lent (ps_puddle s)"
proof -
  let ?st = "(ps_puddle s, ps_heap s)"
  show "lent (ps_puddle s') = lent (ps_puddle s)" if acq: "res_Acquire pe s = (Inl e, s')"
  proof -
    obtain st' where "pud_Acquire (pe_pud pe) ?st = (Inl e, st')" "ps_puddle s' = fst st'"
      using acq by (auto simp: res_Acquire_def onPuddle_def split: prod.splits)
    with assms show ?thesis unfolding lends_def by (metis fst_conv)
  qed
  show "n \<notin> lent (ps_puddle s) \<and> lent (ps_puddle s') = insert n (lent (ps_puddle s))" if acq: "res_Acquire pe s = (Inr n, s')"
  proof -
    obtain st' where "pud_Acquire (pe_pud pe) ?st = (Inr n, st')" "ps_puddle s' = fst st'"
      using acq by (auto simp: res_Acquire_def onPuddle_def split: prod.splits)
    with assms show ?thesis unfolding lends_def by (metis fst_conv)
  qed
  show "distinct ns \<and> set ns \<inter> lent (ps_puddle s) = {} \<and> lent (ps_puddle s') = set ns \<union> lent (ps_puddle s)"
    if acq: "res_AcquireAllIdle pe s = (ns, s')"
  proof -
    obtain st' where "pud_AcquireAllIdle (pe_pud pe) ?st = (ns, st')" "ps_puddle s' = fst st'"
      using acq by (auto simp: res_AcquireAllIdle_def onPuddle_def split: prod.splits)
    with assms show ?thesis unfolding lends_def by (metis fst_conv)
  qed
qed

lemma lent_ledger:
  assumes "lends (pe_pud pe) lent"
  shows "ledger pe (lent_out lent)"
proof
  fix H :: "nat multiset" and s s' :: "('a, 'b) pool_state" and n ns r b
  show "lent_out lent (add_mset n H) s \<Longrightarrow> lent_out lent H (res_Release pe n s)"
    "lent_out lent (add_mset n H) s \<Longrightarrow> lent_out lent H (res_ReleaseUnused pe n s)"
    "lent_out lent (add_mset n H) s \<Longrightarrow> lent_out lent H (res_Destroy pe n s)"
    by (simp_all add: lent_out_def lent_give_back [OF assms] lent_remove)
  show "lent_out lent H s \<Longrightarrow> res_Acquire pe s = (r, s') \<Longrightarrow> lent_out lent (case r of Inl _ \<Rightarrow> H | Inr n \<Rightarrow> add_mset n H) s'"
    using lent_take(1,2) [OF assms] by (cases r) (auto simp: lent_out_def)
  show "lent_out lent H s \<Longrightarrow> res_AcquireAllIdle pe s = (ns, s') \<Longrightarrow> lent_out lent (mset ns + H) s'"
    using lent_take(3) [OF assms] by (auto simp: lent_out_def lent_append)
qed (use assms in \<open>simp_all add: lent_out_def lends_def\<close>)

subsection \<open>A pool that makes a connection for every call\<close>

definition fresh_puddle :: "(nat list, bool) puddle_ops" where
  "fresh_puddle =
     \<lparr>pud_NewPool = \<lambda>_ _ _. ([], \<lambda>_. \<lparr>cr_conn = demo_prepared, cr_conns = 64, cr_poolRows = 64, cr_poolRowss = 64\<rparr>),
      pud_Acquire = \<lambda>(p, h). (Inr (Suc (sum_list p)), Suc (sum_list p) # p, h), pud_AcquireAllIdle = Pair [],
      pud_CreateResource = \<lambda>_. Pair None, pud_Close = id,
      pud_Release = \<lambda>n. map_prod (removeAll n) id, pud_ReleaseUnused = \<lambda>n. map_prod (removeAll n) id,
      pud_Destroy = \<lambda>n. map_prod (removeAll n) id, pud_Age = \<lambda>_ _. 0, pud_IdleDuration = \<lambda>_ _. 0,
      pud_Stat = \<lambda>p. \<lparr>pst_AcquireCount = 0, pst_AcquireDuration = 0, pst_AcquiredResources = of_nat (card (set p)),
        pst_CanceledAcquireCount = 0, pst_ConstructingResources = 0, pst_EmptyAcquireCount = 0, pst_IdleResources = 0,
        pst_MaxResources = 0, pst_TotalResources = of_nat (card (set p))\<rparr>\<rparr>"

definition fresh_pool :: "(nat list, bool) pool_env" where
  "fresh_pool = \<lparr>pe_sy = demo_sy, pe_pud = fresh_puddle, pe_pool = pe_pool demo_pool\<rparr>"

definition fresh_state :: "(nat list, bool) pool_state" where
  "fresh_state = \<lparr>ps_puddle = [], ps_heap = ps_heap demo_state, ps_calls = [], ps_closed = False\<rparr>"

lemma fresh_lends: "lends (pe_pud fresh_pool) set"
  using member_le_sum_list by (fastforce simp: lends_def fresh_pool_def fresh_puddle_def)

lemma fresh_acquire:
  "\<exists>s'. Pool_Acquire fresh_pool s = Some (Inr \<lparr>pc_res = Some (Suc (sum_list (ps_puddle s)))\<rparr>, s')
     \<and> ps_puddle s' = Suc (sum_list (ps_puddle s)) # ps_puddle s"
  by (subst Pool_Acquire.simps)
    (simp add: res_Acquire_def onPuddle_def fresh_pool_def fresh_puddle_def admits_def demo_pool_def takeConn_def getConn_def)

lemma fresh_run:
  "\<exists>s. (client_step fresh_pool)\<^sup>*\<^sup>* ([], (), fresh_state) ([OConn \<lparr>pc_res = Some 1\<rparr>, OConn \<lparr>pc_res = Some 2\<rparr>], (), s)"
proof -
  obtain s1 where s1: "Pool_Acquire fresh_pool fresh_state = Some (Inr \<lparr>pc_res = Some 1\<rparr>, s1)" "ps_puddle s1 = [1]"
    using fresh_acquire [of fresh_state] by (auto simp: fresh_state_def)
  obtain s2 where s2: "Pool_Acquire fresh_pool s1 = Some (Inr \<lparr>pc_res = Some 2\<rparr>, s2)"
    using fresh_acquire [of s1] s1(2) by (auto simp: eval_nat_numeral)
  have "client_step fresh_pool ([], (), fresh_state) ([OConn \<lparr>pc_res = Some 1\<rparr>], (), s1)"
    using client_step.Acquire [OF s1(1), of "[]"] by simp
  moreover have "client_step fresh_pool ([OConn \<lparr>pc_res = Some 1\<rparr>], (), s1) ([OConn \<lparr>pc_res = Some 1\<rparr>, OConn \<lparr>pc_res = Some 2\<rparr>], (), s2)"
    using client_step.Acquire [OF s2, of "[OConn \<lparr>pc_res = Some 1\<rparr>]"] by simp
  ultimately show ?thesis by (meson rtranclp.rtrancl_refl rtranclp.rtrancl_into_rtrancl)
qed

subsection \<open>Properties\<close>

text \<open>
  C3. No connection is leaked and none is given back twice, however a client interleaves its calls.
  At every moment of a run the pool has out exactly the connections of the objects the client has
  made, and those that were out before. Each call that ends an object (\<open>Release\<close>, \<open>Close\<close>, the last
  \<open>Next\<close>, a failing \<open>Scan\<close> or \<open>Values\<close>, \<open>Scan\<close> of a row, \<open>Commit\<close>, \<open>Rollback\<close>) gives back its connection
  and no other, also when it is not the first such call.
\<close>

theorem pool_session_balanced:
  assumes "holds H s" and "(client_step pe)\<^sup>*\<^sup>* ([], u, s) (objs, u', s')"
  shows "holds (all_held objs + H) s'
    \<and> (\<forall>xs obj ys obj' s''. objs = xs @ obj # ys \<longrightarrow> object_end pe (obj, s') (obj', s'') \<longrightarrow>
        object_holds obj' = {#} \<and> holds (all_held (xs @ ys) + H) s'')"
proof -
  have inv: "client_inv holds H (objs, u', s')"
    using trace.client_inv_steps [OF assms(2)] assms(1) by (simp add: client_inv_def)
  have "object_holds obj' = {#} \<and> holds (all_held (xs @ ys) + H) s''"
    if objs: "objs = xs @ obj # ys" and ending: "object_end pe (obj, s') (obj', s'')" for xs obj ys obj' s''
  proof -
    have ok: "object_ok obj" using inv objs by (simp add: client_inv_def)
    have "client_step pe (objs, u', s') (xs @ obj' # ys, u', s'')"
      using client_step.call [OF object_end_step [OF ending]] objs by simp
    from trace.client_inv_step [OF this inv] object_end_released [OF ending ok] show ?thesis
      by (simp add: client_inv_def)
  qed
  with inv show ?thesis by (auto simp: client_inv_def)
qed


theorem pool_session_balanced_witness:
  "\<exists>s. (client_step fresh_pool)\<^sup>*\<^sup>* ([], (), fresh_state) ([OConn \<lparr>pc_res = Some 1\<rparr>, OConn \<lparr>pc_res = Some 2\<rparr>], (), s)
     \<and> holds {#1, 2#} s \<and> holds {#2#} (snd (pconn_Release fresh_pool \<lparr>pc_res = Some 1\<rparr> s))"
proof -
  obtain s where run: "(client_step fresh_pool)\<^sup>*\<^sup>* ([], (), fresh_state) ([OConn \<lparr>pc_res = Some 1\<rparr>, OConn \<lparr>pc_res = Some 2\<rparr>], (), s)"
    using fresh_run by blast
  have start: "holds {#} fresh_state" by (simp add: holds_def fresh_state_def)
  note bal = pool_session_balanced [OF start run]
  have "object_end fresh_pool (OConn \<lparr>pc_res = Some 1\<rparr>, s)
      (OConn (fst (pconn_Release fresh_pool \<lparr>pc_res = Some 1\<rparr> s)), snd (pconn_Release fresh_pool \<lparr>pc_res = Some 1\<rparr> s))"
    by (rule object_end.intros(1)) simp
  with conjunct2 [OF bal, rule_format, of "[]" "OConn \<lparr>pc_res = Some 1\<rparr>" "[OConn \<lparr>pc_res = Some 2\<rparr>]"]
  have "holds {#2#} (snd (pconn_Release fresh_pool \<lparr>pc_res = Some 1\<rparr> s))" by (simp add: held_by_def)
  with run conjunct1 [OF bal] show ?thesis by (auto simp: held_by_def add_mset_commute)
qed


end
