(* ===== verification/Stdlib.thy ===== *)
theory Stdlib
  imports Tx "HOL-Library.Multiset"
begin

text \<open>
  \<open>src/stdlib/sql.go\<close>: the driver of the package \<open>database/sql\<close>.

  The constants for the OIDs of types, the zero values of the types of \<open>pgtype\<close> and
  \<open>pgconn.SafeToRetry\<close> are parameters. Of \<open>database/sql\<close> the driver calls only \<open>BeginTx\<close> of a
  \<open>sql.DB\<close> and \<open>Rollback\<close> of a \<open>sql.Tx\<close>, in \<open>AcquireConn\<close> and \<open>ReleaseConn\<close>: they are operations
  on an arbitrary state, with handles for connections and transactions.
\<close>

unbundle bit_operations_syntax

subsection \<open>Parameters\<close>

record pgtype_oids =
  BoolOID :: oid
  ByteaOID :: oid
  CIDOID :: oid
  DateOID :: oid
  Float4OID :: oid
  Float8OID :: oid
  Int2OID :: oid
  Int4OID :: oid
  Int8OID :: oid
  JSONOID :: oid
  JSONBOID :: oid
  OIDOID :: oid
  TimestampOID :: oid
  TimestamptzOID :: oid
  XIDOID :: oid
  TextOID :: oid
  VarcharOID :: oid
  BPCharArrayOID :: oid
  NumericOID :: oid

record 'pg std_env =
  se_sy :: "'pg surroundings"
  se_oids :: pgtype_oids
  se_SafeToRetry :: "go_error \<Rightarrow> bool"
  se_zero :: "string \<Rightarrow> goval"

text \<open>
  What the driver reads of a context: whether it is nil, the text of its value for the key
  \<open>appID\<close>, and whether it has the key that marks a call of \<open>AcquireConn\<close>.
\<close>

record go_context =
  ctx_nil :: bool
  ctx_appID :: "string option"
  ctx_fakeTx :: bool

definition background :: go_context where
  "background = \<lparr>ctx_nil = False, ctx_appID = None, ctx_fakeTx = False\<rparr>"

definition databaseSQLResultFormats :: "pgtype_oids \<Rightarrow> goval" where
  "databaseSQLResultFormats os =
     GQueryResultFormatsByOID (Some (map (\<lambda>oid. (oid, 1))
       [BoolOID os, ByteaOID os, CIDOID os, DateOID os, Float4OID os, Float8OID os, Int2OID os, Int4OID os, Int8OID os, OIDOID os,
        TimestampOID os, TimestamptzOID os, XIDOID os]))"

subsection \<open>Hosts\<close>

text \<open>The TLS configuration of a host is a handle.\<close>

record hostConfig =
  hc_Host :: string
  hc_Port :: "16 word"
  hc_TLSConfig :: "nat option"

record hostsConfig =
  hs_primary :: hostConfig
  hs_Fallbacks :: "hostConfig list"

text \<open>\<open>rand.Shuffle\<close>, over the random numbers it draws for each index.\<close>

fun shuffle :: "(nat \<Rightarrow> nat) \<Rightarrow> nat \<Rightarrow> 'a list \<Rightarrow> 'a list" where
  "shuffle draw 0 xs = xs"
| "shuffle draw (Suc i) xs =
     (let j = draw (Suc i) mod (i + 2) in shuffle draw i (xs[Suc i := xs ! j, j := xs ! Suc i]))"

definition RandomizeHostOrderFunc :: "(nat \<Rightarrow> nat) \<Rightarrow> hostsConfig \<Rightarrow> hostsConfig" where
  "RandomizeHostOrderFunc draw connConfig =
     (if hs_Fallbacks connConfig = [] then connConfig
      else
        let newFallbacks = hs_primary connConfig # hs_Fallbacks connConfig;
            newFallbacks = shuffle draw (length newFallbacks - 1) newFallbacks
        in connConfig\<lparr>hs_primary := last newFallbacks, hs_Fallbacks := butlast newFallbacks\<rparr>)"

subsection \<open>Connecting\<close>

record 'pg stdConn =
  sc_conn :: "'pg Conn"
  sc_psCount :: "64 word"
  sc_resetSessionFunc :: "'pg Conn \<Rightarrow> go_error option \<times> 'pg Conn"

record 'pg connector =
  cn_ConnConfig :: ConnConfig
  cn_BeforeConnect :: "ConnConfig \<Rightarrow> go_error option \<times> ConnConfig"
  cn_AfterConnect :: "'pg Conn \<Rightarrow> go_error option \<times> 'pg Conn"
  cn_ResetSession :: "'pg Conn \<Rightarrow> go_error option \<times> 'pg Conn"

definition OptionBeforeConnect :: "(ConnConfig \<Rightarrow> go_error option \<times> ConnConfig) \<Rightarrow> 'pg connector \<Rightarrow> 'pg connector" where
  "OptionBeforeConnect bc dc = dc\<lparr>cn_BeforeConnect := bc\<rparr>"

definition OptionAfterConnect :: "('pg Conn \<Rightarrow> go_error option \<times> 'pg Conn) \<Rightarrow> 'pg connector \<Rightarrow> 'pg connector" where
  "OptionAfterConnect ac dc = dc\<lparr>cn_AfterConnect := ac\<rparr>"

definition OptionResetSession :: "('pg Conn \<Rightarrow> go_error option \<times> 'pg Conn) \<Rightarrow> 'pg connector \<Rightarrow> 'pg connector" where
  "OptionResetSession rs dc = dc\<lparr>cn_ResetSession := rs\<rparr>"

definition OpenDB :: "ConnConfig \<Rightarrow> ('pg connector \<Rightarrow> 'pg connector) list \<Rightarrow> 'pg connector" where
  "OpenDB config opts =
     fold (\<lambda>opt c. opt c) opts
       \<lparr>cn_ConnConfig = config, cn_BeforeConnect = Pair None, cn_AfterConnect = Pair None, cn_ResetSession = Pair None\<rparr>"

text \<open>With its error, \<open>Connect\<close> gives the connection that it had opened.\<close>

definition connector_Connect ::
  "'pg pgconn_ops \<Rightarrow> (pg_config \<Rightarrow> go_error + ('pg \<times> notification list)) \<Rightarrow> 'pg connector
     \<Rightarrow> ((go_error \<times> 'pg Conn option) + 'pg stdConn) outcome" where
  "connector_Connect ops dial c =
     (case cn_BeforeConnect c (cn_ConnConfig c) of
        (Some err, _) \<Rightarrow> Ret (Inl (err, None))
      | (None, connConfig) \<Rightarrow>
          (case connect ops dial connConfig of
             Ret (Inl err, _) \<Rightarrow> Ret (Inl (err, None))
           | Ret (Inr conn, _) \<Rightarrow>
               (case cn_AfterConnect c conn of
                  (Some err, conn) \<Rightarrow> Ret (Inl (err, Some conn))
                | (None, conn) \<Rightarrow> Ret (Inr \<lparr>sc_conn = conn, sc_psCount = 0, sc_resetSessionFunc = cn_ResetSession c\<rparr>))
           | Err e \<Rightarrow> Err e
           | Panic \<Rightarrow> Panic))"

record Driver =
  d_configs :: "string \<rightharpoonup> ConnConfig"
  d_sequence :: "64 word"

definition registerConnConfig :: "ConnConfig \<Rightarrow> Driver \<Rightarrow> string \<times> Driver" where
  "registerConnConfig c d =
     (let connStr = ''registeredConnConfig'' @ FormatInt (sint (d_sequence d))
      in (connStr, d\<lparr>d_sequence := d_sequence d + 1, d_configs := (d_configs d)(connStr \<mapsto> c)\<rparr>))"

definition unregisterConnConfig :: "string \<Rightarrow> Driver \<Rightarrow> Driver" where
  "unregisterConnConfig connStr d = d\<lparr>d_configs := (d_configs d)(connStr := None)\<rparr>"

text \<open>\<open>RegisterConnConfig\<close> and \<open>UnregisterConnConfig\<close> on the driver of the package, \<open>pgxDriver\<close>.\<close>

definition RegisterConnConfig :: "ConnConfig \<Rightarrow> Driver \<Rightarrow> string \<times> Driver" where
  "RegisterConnConfig c pgxDriver = registerConnConfig c pgxDriver"

definition UnregisterConnConfig :: "string \<Rightarrow> Driver \<Rightarrow> Driver" where
  "UnregisterConnConfig connStr pgxDriver = unregisterConnConfig connStr pgxDriver"

definition connConfigFor :: "(string \<Rightarrow> go_error + pg_config) \<Rightarrow> Driver \<Rightarrow> string \<Rightarrow> go_error + ConnConfig" where
  "connConfigFor parse d name = (case d_configs d name of Some c \<Rightarrow> Inr c | None \<Rightarrow> ParseConfig parse name)"

definition driverConnector_Connect ::
  "'pg pgconn_ops \<Rightarrow> (string \<Rightarrow> go_error + pg_config) \<Rightarrow> (pg_config \<Rightarrow> go_error + ('pg \<times> notification list)) \<Rightarrow> Driver \<Rightarrow> string
     \<Rightarrow> (go_error + 'pg stdConn) outcome" where
  "driverConnector_Connect ops parse dial d name =
     (case connConfigFor parse d name of
        Inl err \<Rightarrow> Ret (Inl err)
      | Inr connConfig \<Rightarrow>
          (case connect ops dial connConfig of
             Ret (Inl err, _) \<Rightarrow> Ret (Inl err)
           | Ret (Inr conn, _) \<Rightarrow> Ret (Inr \<lparr>sc_conn = conn, sc_psCount = 0, sc_resetSessionFunc = Pair None\<rparr>)
           | Err e \<Rightarrow> Err e
           | Panic \<Rightarrow> Panic))"

definition Driver_Open ::
  "'pg pgconn_ops \<Rightarrow> (string \<Rightarrow> go_error + pg_config) \<Rightarrow> (pg_config \<Rightarrow> go_error + ('pg \<times> notification list)) \<Rightarrow> string \<Rightarrow> Driver
     \<Rightarrow> (go_error + 'pg stdConn) outcome" where
  "Driver_Open ops parse dial name d = driverConnector_Connect ops parse dial d name"

subsection \<open>Statements and transactions\<close>

record Stmt =
  st_sd :: statement_description

definition std_PrepareContext :: "'pg std_env \<Rightarrow> string \<Rightarrow> 'pg stdConn \<Rightarrow> (go_error + Stmt) \<times> 'pg stdConn" where
  "std_PrepareContext se query c =
     (let ops = s_ops (se_sy se) in
      if IsClosed ops (sc_conn c) then (Inl ErrBadConn, c)
      else
        let name = ''pgx_'' @ FormatInt (sint (sc_psCount c)); c = c\<lparr>sc_psCount := sc_psCount c + 1\<rparr> in
        case Conn_Prepare ops name query (sc_conn c) of
          (Inl err, conn) \<Rightarrow> (Inl err, c\<lparr>sc_conn := conn\<rparr>)
        | (Inr sd, conn) \<Rightarrow> (Inr \<lparr>st_sd = sd\<rparr>, c\<lparr>sc_conn := conn\<rparr>))"

definition std_Close :: "'pg std_env \<Rightarrow> 'pg stdConn \<Rightarrow> go_error option \<times> 'pg stdConn" where
  "std_Close se c = (case Conn_Close (s_ops (se_sy se)) (sc_conn c) of (err, conn) \<Rightarrow> (err, c\<lparr>sc_conn := conn\<rparr>))"

definition std_Prepare :: "'pg std_env \<Rightarrow> string \<Rightarrow> 'pg stdConn \<Rightarrow> (go_error + Stmt) \<times> 'pg stdConn" where
  "std_Prepare se query c = std_PrepareContext se query c"

text \<open>Every argument is passed through; the old methods of a statement are refused.\<close>

definition CheckNamedValue :: "goval \<Rightarrow> go_error option" where
  "CheckNamedValue v = None"

definition Stmt_Exec :: "Stmt \<Rightarrow> goval list \<Rightarrow> int option \<times> go_error option" where
  "Stmt_Exec s argsV = (None, Some (Errorf ''Stmt.Exec deprecated and not implemented''))"

definition Stmt_Query :: "Stmt \<Rightarrow> goval list \<Rightarrow> connRows option \<times> go_error option" where
  "Stmt_Query s argsV = (None, Some (Errorf ''Stmt.Query deprecated and not implemented''))"

text \<open>The levels of \<open>database/sql\<close>, in its order from \<open>LevelDefault\<close> to \<open>LevelLinearizable\<close>.\<close>

record driver_TxOptions =
  Isolation :: int
  ReadOnly :: bool

definition isoLevel :: "int \<Rightarrow> string option" where
  "isoLevel isolation =
     (if isolation = 0 then Some []
      else if isolation = 1 then Some ReadUncommitted
      else if isolation = 2 then Some ReadCommitted
      else if isolation = 4 \<or> isolation = 5 then Some RepeatableRead
      else if isolation = 6 then Some Serializable
      else None)"

text \<open>For a context of \<open>AcquireConn\<close> the transaction is a fake, and the caller gets the connection.\<close>

datatype std_Tx = WrapTx dbTx | FakeTx

definition std_BeginTx ::
  "'pg std_env \<Rightarrow> go_context \<Rightarrow> driver_TxOptions \<Rightarrow> 'pg stdConn \<Rightarrow> ((go_error + std_Tx) \<times> 'pg stdConn) option" where
  "std_BeginTx se ctx opts c =
     (if IsClosed (s_ops (se_sy se)) (sc_conn c) then Some (Inl ErrBadConn, c)
      else if ctx_fakeTx ctx then Some (Inr FakeTx, c)
      else case isoLevel (Isolation opts) of
        None \<Rightarrow> Some (Inl (Errorf (''unsupported isolation: '' @ FormatInt (Isolation opts))), c)
      | Some level \<Rightarrow>
          let pgxOpts = emptyTxOptions\<lparr>IsoLevel := level\<rparr>;
              pgxOpts = (if ReadOnly opts then pgxOpts\<lparr>AccessMode := Tx.ReadOnly\<rparr> else pgxOpts)
          in map_option (\<lambda>(r, conn).
               (case r of Inl err \<Rightarrow> Inl err | Inr tx \<Rightarrow> Inr (WrapTx tx), c\<lparr>sc_conn := conn\<rparr>))
             (Conn_BeginTx (se_sy se) pgxOpts (sc_conn c)))"

definition std_Begin :: "'pg std_env \<Rightarrow> 'pg stdConn \<Rightarrow> ((go_error + std_Tx) \<times> 'pg stdConn) option" where
  "std_Begin se c = std_BeginTx se background \<lparr>Isolation = 0, ReadOnly = False\<rparr> c"

fun std_Commit :: "'pg std_env \<Rightarrow> std_Tx \<Rightarrow> 'pg stdConn \<Rightarrow> (go_error option \<times> std_Tx \<times> 'pg stdConn) option" where
  "std_Commit se (WrapTx tx) c =
     map_option (\<lambda>(err, tx, conn). (err, WrapTx tx, c\<lparr>sc_conn := conn\<rparr>)) (dbTx_Commit (se_sy se) tx (sc_conn c))"
| "std_Commit se FakeTx c = Some (None, FakeTx, c)"

fun std_Rollback :: "'pg std_env \<Rightarrow> std_Tx \<Rightarrow> 'pg stdConn \<Rightarrow> (go_error option \<times> std_Tx \<times> 'pg stdConn) option" where
  "std_Rollback se (WrapTx tx) c =
     map_option (\<lambda>(err, tx, conn). (err, WrapTx tx, c\<lparr>sc_conn := conn\<rparr>)) (dbTx_Rollback (se_sy se) tx (sc_conn c))"
| "std_Rollback se FakeTx c = Some (None, FakeTx, c)"

subsection \<open>Executing\<close>

definition namedValueToInterface :: "goval list \<Rightarrow> goval list" where
  "namedValueToInterface argsV = map (\<lambda>v. if v \<noteq> GNil then v else GNil) argsV"

definition valueToInterface :: "goval list \<Rightarrow> goval list" where
  "valueToInterface argsV = map (\<lambda>v. if v \<noteq> GNil then v else GNil) argsV"

definition setSchema :: "string \<Rightarrow> string" where
  "setSchema appID = ''set schema '' @ [CHR 0x27] @ appID @ [CHR 0x27, CHR '';'']"

text \<open>
  \<open>ExecContext\<close> and \<open>CheckSetSchemaCtx\<close> call each other. The equation of \<open>ExecContext\<close> has the body
  of \<open>CheckSetSchemaCtx\<close> in it; \<open>ExecContext_check\<close> below restores the call. The number of rows is
  \<open>None\<close> for a nil result.
\<close>

type_synonym std_result = "int option \<times> go_error option"

partial_function (option) std_ExecContext ::
  "'pg std_env \<Rightarrow> go_context \<Rightarrow> string \<Rightarrow> goval list \<Rightarrow> 'pg stdConn \<Rightarrow> (std_result \<times> 'pg stdConn) option" where
  "std_ExecContext se ctx query argsV c =
     (if IsClosed (s_ops (se_sy se)) (sc_conn c) then Some ((None, Some ErrBadConn), c)
      else
        Option.bind
          (if \<not> ctx_nil ctx \<and> take 11 query = ''set schema '' then
             (case ctx_appID ctx of
                None \<Rightarrow> Some (None, c)
              | Some appID \<Rightarrow>
                  Option.bind (std_ExecContext se ctx (setSchema appID) [] c) (\<lambda>((_, err), c).
                    Some (case err of None \<Rightarrow> None | Some e \<Rightarrow> Some (if se_SafeToRetry se e then ErrBadConn else e), c)))
           else Some (None, c))
          (\<lambda>(err, c).
             case err of
               Some e \<Rightarrow> Some ((None, Some e), c)
             | None \<Rightarrow>
                 Option.bind (Conn_Exec (se_sy se) query (namedValueToInterface argsV) (sc_conn c)) (\<lambda>((commandTag, err), conn).
                   Some (case err of
                       Some e \<Rightarrow>
                         if se_SafeToRetry se e then (None, Some ErrBadConn)
                         else (Some (tag_RowsAffected (s_ops (se_sy se)) commandTag), Some e)
                     | None \<Rightarrow> (Some (tag_RowsAffected (s_ops (se_sy se)) commandTag), None),
                     c\<lparr>sc_conn := conn\<rparr>))))"

definition CheckSetSchemaCtx ::
  "'pg std_env \<Rightarrow> go_context \<Rightarrow> string \<Rightarrow> 'pg stdConn \<Rightarrow> (go_error option \<times> 'pg stdConn) option" where
  "CheckSetSchemaCtx se ctx query c =
     (if \<not> ctx_nil ctx \<and> take 11 query = ''set schema '' then
        (case ctx_appID ctx of
           None \<Rightarrow> Some (None, c)
         | Some appID \<Rightarrow>
             Option.bind (std_ExecContext se ctx (setSchema appID) [] c) (\<lambda>((_, err), c).
               Some (case err of None \<Rightarrow> None | Some e \<Rightarrow> Some (if se_SafeToRetry se e then ErrBadConn else e), c)))
      else Some (None, c))"

lemma ExecContext_check:
  "std_ExecContext se ctx query argsV c =
     (if IsClosed (s_ops (se_sy se)) (sc_conn c) then Some ((None, Some ErrBadConn), c)
      else Option.bind (CheckSetSchemaCtx se ctx query c) (\<lambda>(err, c).
        case err of
          Some e \<Rightarrow> Some ((None, Some e), c)
        | None \<Rightarrow>
            Option.bind (Conn_Exec (se_sy se) query (namedValueToInterface argsV) (sc_conn c)) (\<lambda>((commandTag, err), conn).
              Some (case err of
                  Some e \<Rightarrow>
                    if se_SafeToRetry se e then (None, Some ErrBadConn)
                    else (Some (tag_RowsAffected (s_ops (se_sy se)) commandTag), Some e)
                | None \<Rightarrow> (Some (tag_RowsAffected (s_ops (se_sy se)) commandTag), None),
                c\<lparr>sc_conn := conn\<rparr>))))"
  unfolding CheckSetSchemaCtx_def by (rule std_ExecContext.simps)

definition std_Ping :: "'pg std_env \<Rightarrow> 'pg stdConn \<Rightarrow> (go_error option \<times> 'pg stdConn) option" where
  "std_Ping se c =
     (if IsClosed (s_ops (se_sy se)) (sc_conn c) then Some (Some ErrBadConn, c)
      else map_option (\<lambda>(err, conn).
          let c = c\<lparr>sc_conn := conn\<rparr> in
          if err \<noteq> None then (Some ErrBadConn, snd (std_Close se c)) else (None, c))
        (Ping (se_sy se) (sc_conn c)))"

definition std_ResetSession :: "'pg std_env \<Rightarrow> 'pg stdConn \<Rightarrow> go_error option \<times> 'pg stdConn" where
  "std_ResetSession se c =
     (if IsClosed (s_ops (se_sy se)) (sc_conn c) then (Some ErrBadConn, c)
      else case sc_resetSessionFunc c (sc_conn c) of (err, conn) \<Rightarrow> (err, c\<lparr>sc_conn := conn\<rparr>))"

definition Stmt_Close :: "'pg std_env \<Rightarrow> Stmt \<Rightarrow> 'pg stdConn \<Rightarrow> go_error option \<times> 'pg stdConn" where
  "Stmt_Close se s c =
     (case Deallocate (s_ops (se_sy se)) (sd_Name (st_sd s)) (sc_conn c) of (err, conn) \<Rightarrow> (err, c\<lparr>sc_conn := conn\<rparr>))"

definition Stmt_NumInput :: "Stmt \<Rightarrow> nat" where
  "Stmt_NumInput s = length (sd_ParamOIDs (st_sd s))"

definition Stmt_ExecContext ::
  "'pg std_env \<Rightarrow> go_context \<Rightarrow> Stmt \<Rightarrow> goval list \<Rightarrow> 'pg stdConn \<Rightarrow> (std_result \<times> 'pg stdConn) option" where
  "Stmt_ExecContext se ctx s argsV c = std_ExecContext se ctx (sd_Name (st_sd s)) argsV c"

subsection \<open>Rows\<close>

text \<open>
  A \<open>rowValueFunc\<close> by what its closure captures: the scan plan, the variable \<open>d\<close>, which lasts
  from row to row, with its type, and how the value is made from the variable.
\<close>

datatype conversion = Same | ToInt64 | ToFloat64 | ByValue

record valueFunc =
  vf_oid :: oid
  vf_format :: format
  vf_type :: string
  vf_d :: goval
  vf_conversion :: conversion
  vf_plan :: scan_plan

record stdRows =
  sr_rows :: connRows
  sr_valueFuncs :: "valueFunc list option"
  sr_skipNext :: bool
  sr_skipNextMore :: bool
  sr_columnNames :: "string list option"

text \<open>The cases of the switch in \<open>Next\<close>: the type and the zero value of \<open>d\<close>, and the conversion.\<close>

definition variableFor :: "'pg std_env \<Rightarrow> oid \<Rightarrow> string \<times> goval \<times> conversion" where
  "variableFor se oid =
     (let os = se_oids se; valued = (\<lambda>type. (type, se_zero se type, ByValue)) in
      if oid = BoolOID os then (''bool'', GBool False, Same)
      else if oid = ByteaOID os then (''[]uint8'', GBytes None, Same)
      else if oid = CIDOID os then valued ''pgtype.CID''
      else if oid = DateOID os then valued ''pgtype.Date''
      else if oid = Float4OID os then (''float32'', GFloat32 (FDyadic 0 0), ToFloat64)
      else if oid = Float8OID os then (''float64'', GFloat64 (FDyadic 0 0), Same)
      else if oid = Int2OID os then (''int16'', GInt16 0, ToInt64)
      else if oid = Int4OID os then (''int32'', GInt32 0, ToInt64)
      else if oid = Int8OID os then (''int64'', GInt64 0, Same)
      else if oid = JSONOID os then valued ''pgtype.JSON''
      else if oid = JSONBOID os then valued ''pgtype.JSONB''
      else if oid = OIDOID os then valued ''pgtype.OIDValue''
      else if oid = TimestampOID os then valued ''pgtype.Timestamp''
      else if oid = TimestamptzOID os then valued ''pgtype.Timestamptz''
      else if oid = XIDOID os then valued ''pgtype.XID''
      else (''string'', GString [], Same))"

definition newValueFunc :: "'pg std_env \<Rightarrow> field_description \<Rightarrow> valueFunc" where
  "newValueFunc se fd =
     (case variableFor se (fd_DataTypeOID fd) of (type, d, conversion) \<Rightarrow>
        \<lparr>vf_oid = fd_DataTypeOID fd, vf_format = fd_Format fd, vf_type = type, vf_d = d, vf_conversion = conversion,
         vf_plan = PlanScan (s_env (se_sy se)) (fd_DataTypeOID fd) (fd_Format fd) (GPtr type (Some d))\<rparr>)"

text \<open>\<open>float64(d)\<close> and \<open>int64(d)\<close>; a variable of another type does not occur.\<close>

fun toFloat64 :: "goval \<Rightarrow> goval option" where
  "toFloat64 (GFloat32 f) = Some (GFloat64 f)"
| "toFloat64 _ = None"

fun toInt64 :: "goval \<Rightarrow> goval option" where
  "toInt64 (GInt16 w) = Some (GInt64 (scast w))"
| "toInt64 (GInt32 w) = Some (GInt64 (scast w))"
| "toInt64 _ = None"

definition convertValue :: "pgtype_env \<Rightarrow> conversion \<Rightarrow> go_error option \<Rightarrow> goval \<Rightarrow> (goval \<times> go_error option) option" where
  "convertValue env conversion err d =
     (case conversion of
        Same \<Rightarrow> Some (d, err)
      | ToFloat64 \<Rightarrow> map_option (\<lambda>v. (v, err)) (toFloat64 d)
      | ToInt64 \<Rightarrow> map_option (\<lambda>v. (v, err)) (toInt64 d)
      | ByValue \<Rightarrow>
          if err \<noteq> None then Some (GNil, err)
          else map_option (\<lambda>r. case r of Inl e \<Rightarrow> (GNil, Some e) | Inr v \<Rightarrow> (v, None)) (Valuer_Value env d))"

definition callValueFunc :: "pgtype_env \<Rightarrow> valueFunc \<Rightarrow> bytes \<Rightarrow> ((goval \<times> go_error option) \<times> valueFunc) option" where
  "callValueFunc env vf b =
     (case vf_plan vf (vf_oid vf) (vf_format vf) (Some b) (GPtr (vf_type vf) (Some (vf_d vf))) of
        Inl err \<Rightarrow> map_option (\<lambda>r. (r, vf)) (convertValue env (vf_conversion vf) (Some err) (vf_d vf))
      | Inr (GPtr _ (Some d)) \<Rightarrow> map_option (\<lambda>r. (r, vf\<lparr>vf_d := d\<rparr>)) (convertValue env (vf_conversion vf) None d)
      | Inr _ \<Rightarrow> None)"

fun convertRow ::
  "pgtype_env \<Rightarrow> nat \<Rightarrow> bytes option list \<Rightarrow> valueFunc list \<Rightarrow> goval list \<Rightarrow> (go_error option \<times> valueFunc list \<times> goval list) option" where
  "convertRow env i [] vfs dest = Some (None, vfs, dest)"
| "convertRow env i (None # rvs) vfs (d # dest) =
     map_option (\<lambda>(err, vfs', dest). (err, take 1 vfs @ vfs', GNil # dest)) (convertRow env (i + 1) rvs (drop 1 vfs) dest)"
| "convertRow env i (Some rv # rvs) (vf # vfs) (d # dest) =
     Option.bind (callValueFunc env vf rv) (\<lambda>((v, err), vf).
       case err of
         Some e \<Rightarrow> Some (Some (ErrorfV (''convert field '' @ FormatInt (int i) @ '' failed: %v'') e), vf # vfs, v # dest)
       | None \<Rightarrow> map_option (\<lambda>(err, vfs, dest). (err, vf # vfs, v # dest)) (convertRow env (i + 1) rvs vfs dest))"
| "convertRow env i _ _ _ = None"

text \<open>The row read ahead, or the next one; and what the end of the rows is reported as.\<close>

definition stdRows_advance :: "'pg std_env \<Rightarrow> stdRows \<Rightarrow> 'pg Conn \<Rightarrow> (bool \<times> connRows \<times> 'pg Conn) option" where
  "stdRows_advance se r c =
     (if sr_skipNext r then Some (sr_skipNextMore r, sr_rows r, c) else rows_Next (s_ops (se_sy se)) (sr_rows r) c)"

definition rowsEnd :: "connRows \<Rightarrow> go_error" where
  "rowsEnd rows = (case r_err rows of None \<Rightarrow> EOF | Some e \<Rightarrow> e)"

definition stdRows_Next ::
  "'pg std_env \<Rightarrow> goval list \<Rightarrow> stdRows \<Rightarrow> 'pg Conn \<Rightarrow> ((go_error option \<times> goval list) \<times> stdRows \<times> 'pg Conn) option" where
  "stdRows_Next se dest r c =
     Option.bind (rows_FieldDescriptions (s_ops (se_sy se)) (sr_rows r) c) (\<lambda>fieldDescriptions.
       let vfs = (case sr_valueFuncs r of Some vfs \<Rightarrow> vfs | None \<Rightarrow> map (newValueFunc se) fieldDescriptions) in
       Option.bind (stdRows_advance se r c)
         (\<lambda>(has, rows, c).
            let r = r\<lparr>sr_valueFuncs := Some vfs, sr_skipNext := False, sr_rows := rows\<rparr> in
            if \<not> has then Some ((Some (rowsEnd rows), dest), r, c)
            else map_option (\<lambda>(err, vfs, dest). ((err, dest), r\<lparr>sr_valueFuncs := Some vfs\<rparr>, c))
              (convertRow (s_env (se_sy se)) 0 (r_values rows) vfs dest)))"

definition stdRows_Close :: "'pg std_env \<Rightarrow> stdRows \<Rightarrow> 'pg Conn \<Rightarrow> go_error option \<times> stdRows \<times> 'pg Conn" where
  "stdRows_Close se r c =
     (case rows_Close (s_ops (se_sy se)) (sr_rows r) c of (rows, c) \<Rightarrow> (r_err rows, r\<lparr>sr_rows := rows\<rparr>, c))"

definition stdRows_Columns :: "'pg std_env \<Rightarrow> stdRows \<Rightarrow> 'pg Conn \<Rightarrow> (string list \<times> stdRows) option" where
  "stdRows_Columns se r c =
     (case sr_columnNames r of
        Some names \<Rightarrow> Some (names, r)
      | None \<Rightarrow>
          map_option (\<lambda>fields. (map fd_Name fields, r\<lparr>sr_columnNames := Some (map fd_Name fields)\<rparr>))
            (rows_FieldDescriptions (s_ops (se_sy se)) (sr_rows r) c))"

definition std_QueryContext ::
  "'pg std_env \<Rightarrow> go_context \<Rightarrow> string \<Rightarrow> goval list \<Rightarrow> 'pg stdConn \<Rightarrow> ((go_error + stdRows) \<times> 'pg stdConn) option" where
  "std_QueryContext se ctx query argsV c =
     (if IsClosed (s_ops (se_sy se)) (sc_conn c) then Some (Inl ErrBadConn, c)
      else Option.bind (CheckSetSchemaCtx se ctx query c) (\<lambda>(err, c).
        case err of
          Some e \<Rightarrow> Some (Inl e, c)
        | None \<Rightarrow>
            Option.bind (Conn_Query (se_sy se) query (databaseSQLResultFormats (se_oids se) # namedValueToInterface argsV) (sc_conn c))
              (\<lambda>((rows, err), conn).
                 case err of
                   Some e \<Rightarrow> Some (Inl (if se_SafeToRetry se e then ErrBadConn else e), c\<lparr>sc_conn := conn\<rparr>)
                 | None \<Rightarrow>
                     Option.bind (rows_Next (s_ops (se_sy se)) rows conn) (\<lambda>(has, rows, conn).
                       case r_err rows of
                         Some e \<Rightarrow> Some (Inl e, c\<lparr>sc_conn := snd (rows_Close (s_ops (se_sy se)) rows conn)\<rparr>)
                       | None \<Rightarrow>
                           Some (Inr \<lparr>sr_rows = rows, sr_valueFuncs = None, sr_skipNext = True, sr_skipNextMore = has,
                             sr_columnNames = None\<rparr>, c\<lparr>sc_conn := conn\<rparr>)))))"

definition Stmt_QueryContext ::
  "'pg std_env \<Rightarrow> go_context \<Rightarrow> Stmt \<Rightarrow> goval list \<Rightarrow> 'pg stdConn \<Rightarrow> ((go_error + stdRows) \<times> 'pg stdConn) option" where
  "Stmt_QueryContext se ctx s argsV c = std_QueryContext se ctx (sd_Name (st_sd s)) argsV c"

subsection \<open>Types of columns\<close>

text \<open>An index out of range panics.\<close>

definition fieldAt :: "'pg std_env \<Rightarrow> stdRows \<Rightarrow> 'pg Conn \<Rightarrow> nat \<Rightarrow> field_description option" where
  "fieldAt se r c i =
     (case rows_FieldDescriptions (s_ops (se_sy se)) (sr_rows r) c of
        None \<Rightarrow> None
      | Some fds \<Rightarrow> if i < length fds then Some (fds ! i) else None)"

definition ColumnTypeLength :: "pgtype_oids \<Rightarrow> field_description \<Rightarrow> int \<times> bool" where
  "ColumnTypeLength os fd =
     (let oid = fd_DataTypeOID fd in
      if oid = TextOID os \<or> oid = ByteaOID os then (2 ^ 63 - 1, True)
      else if oid = VarcharOID os \<or> oid = BPCharArrayOID os then (sint (fd_TypeModifier fd - 4), True)
      else (0, False))"

definition ColumnTypePrecisionScale :: "pgtype_oids \<Rightarrow> field_description \<Rightarrow> int \<times> int \<times> bool" where
  "ColumnTypePrecisionScale os fd =
     (if fd_DataTypeOID fd = NumericOID os then
        let m = fd_TypeModifier fd - 4 in (sint (signed_drop_bit 16 m AND 0xffff), sint (m AND 0xffff), True)
      else (0, 0, False))"

text \<open>A \<open>reflect.Type\<close> by its name.\<close>

definition ColumnTypeScanType :: "pgtype_oids \<Rightarrow> field_description \<Rightarrow> string" where
  "ColumnTypeScanType os fd =
     (let oid = fd_DataTypeOID fd in
      if oid = Float8OID os then ''float64''
      else if oid = Float4OID os then ''float32''
      else if oid = Int8OID os then ''int64''
      else if oid = Int4OID os then ''int32''
      else if oid = Int2OID os then ''int16''
      else if oid = BoolOID os then ''bool''
      else if oid = NumericOID os then ''float64''
      else if oid = DateOID os \<or> oid = TimestampOID os \<or> oid = TimestamptzOID os then ''time.Time''
      else if oid = ByteaOID os then ''[]uint8''
      else ''string'')"

definition stdRows_ColumnType ::
  "'pg std_env \<Rightarrow> (pgtype_oids \<Rightarrow> field_description \<Rightarrow> 'r) \<Rightarrow> stdRows \<Rightarrow> 'pg Conn \<Rightarrow> nat \<Rightarrow> 'r option" where
  "stdRows_ColumnType se f r c i = map_option (f (se_oids se)) (fieldAt se r c i)"

subsection \<open>Connections of a sql.DB\<close>

record ('db, 'pg) sql_ops =
  sql_BeginTx :: "'db \<Rightarrow> (go_error + nat) \<times> nat option \<times> 'db"
  sql_Rollback :: "nat \<Rightarrow> 'db \<Rightarrow> go_error option \<times> 'db"
  sql_Conn :: "nat \<Rightarrow> 'db \<Rightarrow> 'pg Conn"
  sql_SetConn :: "nat \<Rightarrow> 'pg Conn \<Rightarrow> 'db \<Rightarrow> 'db"

type_synonym fakeTxConns = "nat \<rightharpoonup> nat"

definition AcquireConn ::
  "('db, 'pg) sql_ops \<Rightarrow> fakeTxConns \<times> 'db \<Rightarrow> (go_error + nat) \<times> fakeTxConns \<times> 'db" where
  "AcquireConn sq s =
     (case s of (fakes, db) \<Rightarrow>
      (case sql_BeginTx sq db of
         (Inl err, _, db) \<Rightarrow> (Inl err, fakes, db)
       | (Inr tx, None, db) \<Rightarrow> (Inl ErrNotPgx, fakes, snd (sql_Rollback sq tx db))
       | (Inr tx, Some conn, db) \<Rightarrow> (Inr conn, fakes(conn \<mapsto> tx), db)))"

definition ReleaseConn ::
  "'pg pgconn_ops \<Rightarrow> ('db, 'pg) sql_ops \<Rightarrow> nat \<Rightarrow> fakeTxConns \<times> 'db \<Rightarrow> go_error option \<times> fakeTxConns \<times> 'db" where
  "ReleaseConn ops sq conn s =
     (case s of (fakes, db) \<Rightarrow>
      let pg = pgConn (sql_Conn sq conn db);
          db = (if op_IsBusy ops pg \<or> op_TxStatus ops pg \<noteq> CHR ''I''
                then sql_SetConn sq conn (snd (Conn_Close ops (sql_Conn sq conn db))) db else db)
      in case fakes conn of
           None \<Rightarrow> (Some (Errorf (''can'' @ [CHR 0x27] @ ''t release conn that is not acquired'')), fakes, db)
         | Some tx \<Rightarrow> (case sql_Rollback sq tx db of (err, db) \<Rightarrow> (err, fakes(conn := None), db)))"

subsection \<open>The schema check\<close>

text \<open>
  The statement that \<open>CheckSetSchemaCtx\<close> sends begins with \<open>set schema\<close> itself, so that sending it
  checks again.
\<close>

lemma setSchema_prefix [simp]: "take 11 (setSchema appID) = ''set schema ''"
  by (simp add: setSchema_def)

lemma ExecContext_setSchema_loops:
  assumes "std_ExecContext se ctx query argsV c = Some r" and "\<not> ctx_nil ctx" "ctx_appID ctx = Some appID"
    "take 11 query = ''set schema ''"
  shows "IsClosed (s_ops (se_sy se)) (sc_conn c)"
proof -
  from assms(1) have "\<not> ctx_nil ctx \<longrightarrow> ctx_appID ctx = Some appID \<longrightarrow> take 11 query = ''set schema ''
      \<longrightarrow> IsClosed (s_ops (se_sy se)) (sc_conn c)"
    by (rule std_ExecContext.raw_induct [rotated]) (auto split: if_splits simp: Option.bind_eq_Some_conv)
  with assms(2-4) show ?thesis by blast
qed

lemma CheckSetSchemaCtx_unset:
  assumes "CheckSetSchemaCtx se ctx query c = Some (err, c')" and "\<not> IsClosed (s_ops (se_sy se)) (sc_conn c)"
  shows "err = None \<and> c' = c"
proof (cases "\<not> ctx_nil ctx \<and> take 11 query = ''set schema ''")
  case True
  with assms show ?thesis
    by (cases "ctx_appID ctx")
      (auto simp: CheckSetSchemaCtx_def Option.bind_eq_Some_conv dest: ExecContext_setSchema_loops [OF _ _ _ setSchema_prefix])
next
  case False
  with assms(1) show ?thesis by (auto simp: CheckSetSchemaCtx_def)
qed

subsection \<open>Hosts\<close>

lemma mset_shuffle: "n < length xs \<Longrightarrow> mset (shuffle draw n xs) = mset xs"
proof (induction draw n xs rule: shuffle.induct)
  case (2 draw i xs)
  have "draw (Suc i) mod (i + 2) < i + 2" by simp
  with 2 have "mset (xs[Suc i := xs ! (draw (Suc i) mod (i + 2)), (draw (Suc i) mod (i + 2)) := xs ! Suc i]) = mset xs"
    by (intro mset_swap) linarith+
  with 2 show ?case by (simp add: Let_def)
qed simp

text \<open>No host is lost or used twice by the new order.\<close>

lemma RandomizeHostOrderFunc_hosts:
  "mset (hs_primary (RandomizeHostOrderFunc draw cfg) # hs_Fallbacks (RandomizeHostOrderFunc draw cfg))
   = mset (hs_primary cfg # hs_Fallbacks cfg)"
proof (cases "hs_Fallbacks cfg = []")
  case False
  let ?xs = "hs_primary cfg # hs_Fallbacks cfg"
  let ?ys = "shuffle draw (length ?xs - 1) ?xs"
  have m: "mset ?ys = mset ?xs" by (rule mset_shuffle) simp
  then have "?ys \<noteq> []" by (metis list.distinct(1) mset_zero_iff)
  then have "mset (last ?ys # butlast ?ys) = mset ?ys"
    by (metis append_butlast_last_id mset.simps(2) mset_append add_mset_add_single mset_single_iff_right)
  with m False show ?thesis by (simp add: RandomizeHostOrderFunc_def Let_def)
qed (simp add: RandomizeHostOrderFunc_def)

subsection \<open>Connections\<close>

text \<open>When \<open>AfterConnect\<close> fails, the connection is dropped as the hook left it: it is not closed.\<close>

lemma connector_Connect_leaks:
  assumes "cn_BeforeConnect c (cn_ConnConfig c) = (None, cfg)" "connect ops dial cfg = Ret (Inr conn, logs)"
    and "cn_AfterConnect c conn = (Some err, conn')"
  shows "connector_Connect ops dial c = Ret (Inl (err, Some conn'))"
  using assms by (simp add: connector_Connect_def)

text \<open>A connection that is acquired is released once.\<close>

lemma ReleaseConn_once:
  assumes "AcquireConn sq (fakes, db) = (Inr conn, fakes', db')" and "ReleaseConn ops sq conn (fakes', db'') = (err, s)"
  shows "\<exists>err' s'. ReleaseConn ops sq conn s = (Some (Errorf err'), s') \<and> fst s = fakes(conn := None) \<and> fst s' = fst s"
  using assms
  by (auto simp: AcquireConn_def ReleaseConn_def Let_def split: prod.splits sum.splits option.splits)

subsection \<open>Reading rows\<close>

text \<open>A number of calls of \<open>Next\<close>, each with its destinations, and of \<open>Next\<close> of the rows below.\<close>

fun stdNexts ::
  "'pg std_env \<Rightarrow> goval list list \<Rightarrow> stdRows \<Rightarrow> 'pg Conn \<Rightarrow> ((go_error option \<times> goval list) list \<times> stdRows \<times> 'pg Conn) option" where
  "stdNexts se [] r c = Some ([], r, c)"
| "stdNexts se (dest # dests) r c =
     Option.bind (stdRows_Next se dest r c) (\<lambda>(out, r, c).
       map_option (\<lambda>(outs, r, c). (out # outs, r, c)) (stdNexts se dests r c))"

fun connNexts :: "'pg pgconn_ops \<Rightarrow> nat \<Rightarrow> connRows \<Rightarrow> 'pg Conn \<Rightarrow> (bool list \<times> connRows \<times> 'pg Conn) option" where
  "connNexts ops 0 rows c = Some ([], rows, c)"
| "connNexts ops (Suc k) rows c =
     Option.bind (rows_Next ops rows c) (\<lambda>(has, rows, c).
       map_option (\<lambda>(hass, rows, c). (has # hass, rows, c)) (connNexts ops k rows c))"

text \<open>The end of the rows, and only the end, is reported as such.\<close>

definition signals :: "go_error option \<times> goval list \<Rightarrow> bool \<Rightarrow> bool" where
  "signals out has \<longleftrightarrow> (if has then fst out \<noteq> Some EOF else (\<exists>e. fst out = Some e))"

lemma convertRow_not_EOF: "convertRow env i rvs vfs dest = Some (err, vfs', dest') \<Longrightarrow> err \<noteq> Some EOF"
proof (induction env i rvs vfs dest arbitrary: err vfs' dest' rule: convertRow.induct)
  case (3 env i rv rvs vf vfs d dest)
  then show ?case by (fastforce simp: Option.bind_eq_Some_conv split: option.splits)
qed auto

lemma stdRows_Next_step:
  assumes "stdRows_Next se dest r c = Some (out, r', c')"
  shows "\<not> sr_skipNext r' \<and> (\<exists>has.
    (if sr_skipNext r then Some (sr_skipNextMore r, sr_rows r, c) else rows_Next (s_ops (se_sy se)) (sr_rows r) c)
      = Some (has, sr_rows r', c') \<and> signals out has)"
proof -
  define step where "step = (if sr_skipNext r then Some (sr_skipNextMore r, sr_rows r, c)
    else rows_Next (s_ops (se_sy se)) (sr_rows r) c)"
  from assms obtain has rows c1 vfs where step: "step = Some (has, rows, c1)"
    and rest: "(let r = r\<lparr>sr_valueFuncs := Some vfs, sr_skipNext := False, sr_rows := rows\<rparr> in
            if \<not> has then Some ((Some (case r_err rows of None \<Rightarrow> EOF | Some e \<Rightarrow> e), dest), r, c1)
            else map_option (\<lambda>(err, vfs, dest). ((err, dest), r\<lparr>sr_valueFuncs := Some vfs\<rparr>, c1))
              (convertRow (s_env (se_sy se)) 0 (r_values rows) vfs dest)) = Some (out, r', c')"
    unfolding stdRows_Next_def stdRows_advance_def rowsEnd_def step_def [symmetric] by (auto simp: Option.bind_eq_Some_conv Let_def)
  from rest have "\<not> sr_skipNext r' \<and> sr_rows r' = rows \<and> c' = c1 \<and> signals out has"
    by (cases has) (auto simp: Let_def signals_def dest: convertRow_not_EOF)
  with step show ?thesis unfolding step_def by blast
qed

lemma stdNexts_in_step:
  assumes "stdNexts se dests r c = Some (outs, r', c')" "\<not> sr_skipNext r"
  shows "\<exists>hass. connNexts (s_ops (se_sy se)) (length dests) (sr_rows r) c = Some (hass, sr_rows r', c') \<and> list_all2 signals outs hass"
  using assms
proof (induction dests arbitrary: r c outs)
  case (Cons dest dests)
  then obtain out r1 c1 outs1 where 1: "stdRows_Next se dest r c = Some (out, r1, c1)"
    and 2: "stdNexts se dests r1 c1 = Some (outs1, r', c')" "outs = out # outs1"
    by (auto simp: Option.bind_eq_Some_conv)
  from stdRows_Next_step [OF 1] Cons.prems(2) obtain has where n: "\<not> sr_skipNext r1"
    "rows_Next (s_ops (se_sy se)) (sr_rows r) c = Some (has, sr_rows r1, c1)" "signals out has" by auto
  from Cons.IH [OF 2(1) n(1)] obtain hass where "connNexts (s_ops (se_sy se)) (length dests) (sr_rows r1) c1 = Some (hass, sr_rows r', c')"
    "list_all2 signals outs1 hass" by blast
  with n 2(2) show ?case by (intro exI [of _ "has # hass"]) simp
qed simp

subsection \<open>Names\<close>

fun registerAll :: "ConnConfig list \<Rightarrow> Driver \<Rightarrow> string list \<times> Driver" where
  "registerAll [] d = ([], d)"
| "registerAll (c # cs) d =
     (case registerConnConfig c d of (name, d) \<Rightarrow> (case registerAll cs d of (names, d) \<Rightarrow> (name # names, d)))"

definition configName :: "64 word \<Rightarrow> string" where
  "configName n = ''registeredConnConfig'' @ FormatInt (sint n)"

lemma configName_inject [simp]: "configName v = configName w \<longleftrightarrow> v = w"
  by (simp add: configName_def FormatInt_inject) (metis signed_word_eqI)

lemma registerAll_names:
  "registerAll cs d = (names, d') \<Longrightarrow>
   names = map (\<lambda>i. configName (d_sequence d + of_nat i)) [0..<length cs]
   \<and> (\<forall>name. name \<notin> set names \<longrightarrow> d_configs d' name = d_configs d name)"
proof (induction cs arbitrary: d names)
  case (Cons c cs)
  then obtain d1 names1 where r: "registerConnConfig c d = (configName (d_sequence d), d1)" "registerAll cs d1 = (names1, d')"
    "names = configName (d_sequence d) # names1"
    by (auto simp: registerConnConfig_def configName_def Let_def split: prod.splits)
  have d1: "d_sequence d1 = d_sequence d + 1" "\<And>name. name \<noteq> configName (d_sequence d) \<Longrightarrow> d_configs d1 name = d_configs d name"
    using r(1) by (auto simp: registerConnConfig_def configName_def Let_def)
  from Cons.IH [OF r(2)] have "names1 = map (\<lambda>i. configName (d_sequence d + of_nat (Suc i))) [0..<length cs]"
    by (simp add: d1 algebra_simps)
  then have "names = map (\<lambda>i. configName (d_sequence d + of_nat i)) [0..<length (c # cs)]"
    by (simp add: r(3) upt_conv_Cons map_Suc_upt [symmetric] del: upt_Suc of_nat_Suc)
  with Cons.IH [OF r(2)] r(3) d1(2) show ?case by auto
qed simp

lemma registerAll_distinct:
  assumes "registerAll cs d = (names, d')" "length cs \<le> 2 ^ 64"
  shows "distinct names"
proof -
  have "of_nat i = (of_nat j :: 64 word) \<longleftrightarrow> i = j" if "i < length cs" "j < length cs" for i j
    using that assms(2) by (simp add: word_of_nat_eq_iff take_bit_nat_eq_self)
  then show ?thesis using registerAll_names [OF assms(1)] by (simp add: distinct_map inj_on_def)
qed

lemma registerAll_lookup:
  assumes "registerAll cs d = (names, d')" "distinct names" "i < length cs"
  shows "d_configs d' (names ! i) = Some (cs ! i)"
  using assms
proof (induction cs arbitrary: d names i)
  case (Cons c cs)
  then obtain name d1 names1 where r: "registerConnConfig c d = (name, d1)" "registerAll cs d1 = (names1, d')" "names = name # names1"
    by (auto split: prod.splits)
  have "d_configs d1 name = Some c" using r(1) by (auto simp: registerConnConfig_def Let_def)
  with r Cons.prems(2) registerAll_names [OF r(2)] have "d_configs d' name = Some c" by simp
  with Cons.IH [OF r(2)] Cons.prems r(3) show ?case by (cases i) simp_all
qed simp

subsection \<open>A concrete driver\<close>

definition pg_oids :: pgtype_oids where
  "pg_oids = \<lparr>BoolOID = 16, ByteaOID = 17, CIDOID = 29, DateOID = 1082, Float4OID = 700, Float8OID = 701, Int2OID = 21,
     Int4OID = 23, Int8OID = 20, JSONOID = 114, JSONBOID = 3802, OIDOID = 26, TimestampOID = 1114, TimestamptzOID = 1184,
     XIDOID = 28, TextOID = 25, VarcharOID = 1043, BPCharArrayOID = 1014, NumericOID = 1700\<rparr>"

definition demo_se :: "bool std_env" where
  "demo_se = \<lparr>se_sy = demo_sy, se_oids = pg_oids, se_SafeToRetry = \<lambda>_. False, se_zero = \<lambda>type. GObj type 0\<rparr>"

definition demo_std :: "bool stdConn" where
  "demo_std = \<lparr>sc_conn = demo_prepared, sc_psCount = 0, sc_resetSessionFunc = Pair None\<rparr>"

definition demo_tenant :: go_context where
  "demo_tenant = background\<lparr>ctx_appID := Some ''tenant''\<rparr>"

lemma demo_std_open: "\<not> IsClosed (s_ops (se_sy demo_se)) (sc_conn demo_std)"
  by (simp add: demo_se_def demo_std_def IsClosed_def demo_simps)

subsection \<open>Properties\<close>

text \<open>
  C38. The schema of an application is never set. With an application id in the context, a
  statement that begins with \<open>set schema\<close> does not return, on an open connection: the check sends
  the statement for the application, which is checked again before it is sent. For every other
  statement the check does nothing, so the id has no effect.
\<close>

theorem set_schema_diverges:
  assumes "\<not> ctx_nil ctx" and "ctx_appID ctx = Some appID" and "\<not> IsClosed (s_ops (se_sy se)) (sc_conn c)"
  shows "if take 11 query = ''set schema ''
    then std_ExecContext se ctx query argsV c = None \<and> std_QueryContext se ctx query argsV c = None
    else CheckSetSchemaCtx se ctx query c = Some (None, c)"
proof -
  have "std_ExecContext se ctx query argsV c = None" if "take 11 query = ''set schema ''" for query argsV
    using ExecContext_setSchema_loops [of se ctx query argsV c, OF _ assms(1,2) that] assms(3)
    by (cases "std_ExecContext se ctx query argsV c") auto
  then show ?thesis
    by (simp add: std_QueryContext_def CheckSetSchemaCtx_def assms)
qed

theorem set_schema_diverges_witness:
  "std_ExecContext demo_se demo_tenant ''set schema public'' [] demo_std = None
   \<and> CheckSetSchemaCtx demo_se demo_tenant ''select 1'' demo_std = Some (None, demo_std)"
  using set_schema_diverges [of demo_tenant "''tenant''" demo_se demo_std "''set schema public''" "[]"]
    set_schema_diverges [of demo_tenant "''tenant''" demo_se demo_std "''select 1''" "[]"] demo_std_open
  by (simp add: demo_tenant_def background_def)

text \<open>
  C39. No row is lost or repeated between pgx and \<open>database/sql\<close>, although \<open>QueryContext\<close> reads the
  first one ahead. After the query, any number of calls of \<open>Next\<close> has read exactly as far as the
  same number of calls of \<open>Next\<close> on the rows of pgx; it fails when they end, and returns
  \<open>io.EOF\<close> for no row.
\<close>

theorem stdRows_in_step:
  assumes "std_QueryContext se ctx query argsV c = Some (Inr r, c1)"
    and "stdNexts se (dest # dests) r (sc_conn c1) = Some (outs, r', conn')"
  shows "\<exists>rows conn hass. Conn_Query (se_sy se) query (databaseSQLResultFormats (se_oids se) # namedValueToInterface argsV) (sc_conn c)
      = Some ((rows, None), conn)
    \<and> connNexts (s_ops (se_sy se)) (length (dest # dests)) rows conn = Some (hass, sr_rows r', conn')
    \<and> list_all2 signals outs hass"
proof -
  have closed: "\<not> IsClosed (s_ops (se_sy se)) (sc_conn c)" using assms(1) by (auto simp: std_QueryContext_def)
  obtain e c0 where check: "CheckSetSchemaCtx se ctx query c = Some (e, c0)"
    using assms(1) closed by (auto simp: std_QueryContext_def Option.bind_eq_Some_conv)
  note unset = CheckSetSchemaCtx_unset [OF check closed]
  from assms(1) closed check unset obtain rows conn where q: "Conn_Query (se_sy se) query
      (databaseSQLResultFormats (se_oids se) # namedValueToInterface argsV) (sc_conn c) = Some ((rows, None), conn)"
    and n: "rows_Next (s_ops (se_sy se)) rows conn = Some (sr_skipNextMore r, sr_rows r, sc_conn c1)" "sr_skipNext r"
    by (auto simp: std_QueryContext_def Option.bind_eq_Some_conv split: option.splits)
  from assms(2) obtain out r1 conn1 outs1 where 1: "stdRows_Next se dest r (sc_conn c1) = Some (out, r1, conn1)"
    and 2: "stdNexts se dests r1 conn1 = Some (outs1, r', conn')" "outs = out # outs1"
    by (auto simp: Option.bind_eq_Some_conv)
  from stdRows_Next_step [OF 1] n have s: "\<not> sr_skipNext r1" "sr_rows r1 = sr_rows r" "conn1 = sc_conn c1" "signals out (sr_skipNextMore r)"
    by auto
  from stdNexts_in_step [OF 2(1) s(1)] obtain hass where
    "connNexts (s_ops (se_sy se)) (length dests) (sr_rows r) (sc_conn c1) = Some (hass, sr_rows r', conn')" "list_all2 signals outs1 hass"
    by (auto simp: s)
  with q n s(4) 2(2) show ?thesis
    by (intro exI [of _ rows] exI [of _ conn] exI [of _ "sr_skipNextMore r # hass"]) simp
qed

lemma demo_std_rows:
  "\<exists>r c1 outs r' conn'. std_QueryContext demo_se background ''ps'' [] demo_std = Some (Inr r, c1)
     \<and> stdNexts demo_se [[]] r (sc_conn c1) = Some (outs, r', conn')"
proof -
  have "\<exists>rows c'. Conn_Query demo_sy ''ps'' [databaseSQLResultFormats pg_oids] demo_prepared = Some ((rows, None), c')
      \<and> r_resultReader rows = Some 0 \<and> \<not> r_closed rows \<and> r_err rows = None \<and> r_multiResultReader rows = None \<and> \<not> hasLogger c'"
    by (simp add: Conn_Query_def databaseSQLResultFormats_def queryExtended_def queryDescribe_def queryExecute_def case_prod_unfold
        demo_simps Let_def eqb_AppendResultFormats_def resetEqb_def eqb_Reset_def new_eqb_def getRows_def zero_rows_def
        sendExecPrepared_def)
  then obtain rows c' where q: "Conn_Query demo_sy ''ps'' [databaseSQLResultFormats pg_oids] demo_prepared = Some ((rows, None), c')"
    and rows: "r_resultReader rows = Some 0" "\<not> r_closed rows" "r_err rows = None" "r_multiResultReader rows = None" "\<not> hasLogger c'"
    by blast
  have "\<exists>rows' c''. rows_Next demo_ops rows c' = Some (False, rows', c'') \<and> r_err rows' = None \<and> r_resultReader rows' = Some 0"
    using rows
    by (simp add: rows_Next_def rows_Close_def rows_closeReader_def rows_closeMulti_def rows_logClose_def firstErr_def log_if_def
        shouldLog_def demo_ops_def onPg_unfold)
  then obtain rows' c'' where n: "rows_Next demo_ops rows c' = Some (False, rows', c'')" "r_err rows' = None" "r_resultReader rows' = Some 0"
    by blast
  have "std_QueryContext demo_se background ''ps'' [] demo_std = Some (Inr \<lparr>sr_rows = rows', sr_valueFuncs = None, sr_skipNext = True,
      sr_skipNextMore = False, sr_columnNames = None\<rparr>, demo_std\<lparr>sc_conn := c''\<rparr>)"
    using q n demo_std_open
    by (simp add: std_QueryContext_def CheckSetSchemaCtx_def namedValueToInterface_def demo_se_def demo_sy_def demo_std_def background_def)
  moreover have "\<exists>outs r' conn'. stdNexts demo_se [[]] \<lparr>sr_rows = rows', sr_valueFuncs = None, sr_skipNext = True,
      sr_skipNextMore = False, sr_columnNames = None\<rparr> c'' = Some (outs, r', conn')"
    using n by (simp add: stdRows_Next_def stdRows_advance_def rowsEnd_def rows_FieldDescriptions_def Let_def)
  ultimately show ?thesis by fastforce
qed

theorem stdRows_in_step_witness:
  "\<exists>r c1 outs r' conn' rows conn hass. std_QueryContext demo_se background ''ps'' [] demo_std = Some (Inr r, c1)
     \<and> stdNexts demo_se [[]] r (sc_conn c1) = Some (outs, r', conn')
     \<and> Conn_Query demo_sy ''ps'' [databaseSQLResultFormats pg_oids] demo_prepared = Some ((rows, None), conn)
     \<and> connNexts demo_ops 1 rows conn = Some (hass, sr_rows r', conn') \<and> list_all2 signals outs hass"
proof -
  obtain r c1 outs r' conn' where q: "std_QueryContext demo_se background ''ps'' [] demo_std = Some (Inr r, c1)"
    "stdNexts demo_se [[]] r (sc_conn c1) = Some (outs, r', conn')" using demo_std_rows by blast
  from stdRows_in_step [OF q] q show ?thesis
    by (simp add: demo_se_def demo_sy_def demo_std_def namedValueToInterface_def)
qed

text \<open>
  Registered configurations: the strings that registering configurations returns are all
  different, and \<open>Open\<close> connects each of them with the configuration it was returned for.
\<close>

lemma registered_configs:
  assumes "registerAll cs d = (names, d')" and "length cs \<le> 2 ^ 64" and "i < length cs"
  shows "distinct names \<and> connConfigFor parse d' (names ! i) = Inr (cs ! i)"
  using registerAll_distinct [OF assms(1,2)] registerAll_lookup [OF assms(1) _ assms(3)]
  by (simp add: connConfigFor_def)

subsection \<open>Types of columns\<close>

text \<open>The precision and the scale of a numeric column, which PostgreSQL packs into the type modifier.\<close>

lemma ColumnTypePrecisionScale_numeric:
  assumes "precision < 2 ^ 15" "scale < 2 ^ 16" "fd_DataTypeOID fd = NumericOID os"
    and "fd_TypeModifier fd = (push_bit 16 (of_nat precision) OR of_nat scale) + 4"
  shows "ColumnTypePrecisionScale os fd = (int precision, int scale, True)"
proof -
  let ?m = "push_bit 16 (of_nat precision) OR of_nat scale :: 32 word"
  have p: "bit precision n \<Longrightarrow> n < 15" and s: "bit scale n \<Longrightarrow> n < 16" for n
    using assms(1,2) by (metis bit_take_bit_iff take_bit_nat_eq_self)+
  have mask: "(0xffff :: 32 word) = mask 16" by (simp add: mask_eq_exp_minus_1)
  have "signed_drop_bit 16 ?m AND 0xffff = of_nat precision"
    unfolding mask by (rule bit_word_eqI) (auto simp: bit_simps dest: p s)
  moreover have "?m AND 0xffff = of_nat scale"
    unfolding mask by (rule bit_word_eqI) (auto simp: bit_simps dest: p s)
  moreover have "sint (of_nat precision :: 32 word) = int precision" "sint (of_nat scale :: 32 word) = int scale"
    using assms(1,2) by (simp_all add: signed_of_nat signed_take_bit_int_eq_self)
  ultimately show ?thesis using assms(3,4) by (simp add: ColumnTypePrecisionScale_def Let_def)
qed

end
