(* ===== verification/Std_Statements.thy ===== *)
theory Std_Statements
  imports Stdlib
begin

text \<open>
  Prepared statements of the driver for \<open>database/sql\<close> (\<open>src/stdlib/sql.go\<close>) over a run: statements
  are prepared, executed and closed on one connection in any order. What the driver promises of
  them rests on the connection of \<open>src/conn.go\<close> keeping its table of prepared statements.
\<close>

subsection \<open>The table of prepared statements\<close>

lemma drainResults_table: "drainResults ops mrr tag c = Some (tag', c') \<Longrightarrow> preparedStatements c' = preparedStatements c"
proof -
  assume "drainResults ops mrr tag c = Some (tag', c')"
  then have "preparedStatements (snd (tag', c')) = preparedStatements c"
    by (rule drainResults.raw_induct [rotated]) (fastforce simp: case_prod_unfold split: if_splits)
  then show ?thesis by simp
qed

lemma execSimpleProtocol_table:
  "execSimpleProtocol sy sql args c = Some (r, c') \<Longrightarrow> preparedStatements c' = preparedStatements c"
  by (auto simp: execSimpleProtocol_def case_prod_unfold dest!: drainResults_table split: if_splits option.splits sum.splits)

lemma execPrefix_table:
  "execParamsAndPreparedPrefix sy sd args c = Some (err, args', c') \<Longrightarrow> preparedStatements c' = preparedStatements c"
  by (auto simp: execParamsAndPreparedPrefix_def case_prod_unfold split: if_splits option.splits prod.splits)

lemma execPrepared_table:
  "execPrepared sy sd args c = Some (r, args', c') \<Longrightarrow> preparedStatements c' = preparedStatements c"
  "execParams sy sd args c = Some (r, args', c') \<Longrightarrow> preparedStatements c' = preparedStatements c"
  by (auto simp: execPrepared_def execParams_def sendExecPrepared_def sendExecParams_def case_prod_unfold Let_def
      dest!: execPrefix_table split: option.splits)

lemma Conn_Prepare_anonymous:
  "Conn_Prepare ops [] sql c = (r, c') \<Longrightarrow> preparedStatements c' = preparedStatements c"
  by (auto simp: Conn_Prepare_def prepareOn_def log_msg_def Let_def case_prod_unfold split: sum.splits prod.splits if_splits)

lemma cacheGet_table: "cacheGet ops h sql c = (r, c') \<Longrightarrow> preparedStatements c' = preparedStatements c"
  by (metis cacheGet_def sendPg_keeps(1) snd_conv)

lemma exec_table:
  assumes "exec sy sql arguments c = Some (r, args', c')"
  shows "preparedStatements c' = preparedStatements c"
  using assms
  by (auto simp: exec_def dest: execPrepared_table execSimpleProtocol_table cacheGet_table Conn_Prepare_anonymous
      split: prod.splits option.splits sum.splits if_splits)
    (metis execPrepared_table cacheGet_table Conn_Prepare_anonymous)+

lemma Conn_Exec_table: "Conn_Exec sy sql arguments c = Some (r, c') \<Longrightarrow> preparedStatements c' = preparedStatements c"
  by (auto simp: Conn_Exec_def Let_def dest!: exec_table split: option.splits prod.splits)

lemma rows_Close_table [simp]: "preparedStatements (snd (rows_Close ops rows c)) = preparedStatements c"
  by (simp add: rows_Close_def rows_closeReader_def rows_closeMulti_def rows_logClose_def case_prod_unfold Let_def
      split: option.split)

lemma rows_fatal_table [simp]: "preparedStatements (snd (rows_fatal ops err rows c)) = preparedStatements c"
  by (simp add: rows_fatal_def)

lemma rows_Next_table: "rows_Next ops rows c = Some (ok, rows', c') \<Longrightarrow> preparedStatements c' = preparedStatements c"
  by (auto simp: rows_Next_def case_prod_unfold split: if_splits option.splits) (metis rows_Close_table onPg_keeps(1) snd_conv)

lemma querySimple_table:
  "querySimple sy sql args rows c = Some (r, c') \<Longrightarrow> preparedStatements c' = preparedStatements c"
  by (auto simp: querySimple_def case_prod_unfold split: option.splits sum.splits if_splits)

lemma queryDescribe_table:
  "queryDescribe ops sql c = (r, c') \<Longrightarrow> preparedStatements c' = preparedStatements c"
  by (auto simp: queryDescribe_def dest: cacheGet_table split: option.splits) (metis sendPg_keeps(1) snd_conv)

lemma failRows_table: "failRows ops err rows c = (r, c') \<Longrightarrow> preparedStatements c' = preparedStatements c"
  by (auto simp: failRows_def case_prod_unfold)

lemma queryExecute_table: "queryExecute sy sql q sd rows c = (r, c') \<Longrightarrow> preparedStatements c' = preparedStatements c"
  by (auto simp: queryExecute_def sendExecParams_def sendExecPrepared_def case_prod_unfold Let_def)

lemma queryExtended_table:
  assumes "queryExtended sy sql q args rows c = Some (r, c')"
  shows "preparedStatements c' = preparedStatements c"
proof -
  obtain d c1 where d: "queryDescribe (s_ops sy) sql (resetEqb c) = (d, c1)" by force
  have "preparedStatements c1 = preparedStatements c" using queryDescribe_table [OF d] by simp
  moreover have "preparedStatements c' = preparedStatements c1"
    using assms d by (auto simp: queryExtended_def Let_def dest!: failRows_table queryExecute_table
        split: sum.splits if_splits prod.splits option.splits)
  ultimately show ?thesis by simp
qed

lemma Conn_Query_table: "Conn_Query sy sql args c = Some (r, c') \<Longrightarrow> preparedStatements c' = preparedStatements c"
  by (auto simp: Conn_Query_def dest!: getRows_fresh querySimple_table queryExtended_table split: prod.splits if_splits)

lemma Conn_Close_table [simp]: "preparedStatements (snd (Conn_Close ops c)) = preparedStatements c"
  by (simp add: Conn_Close_def case_prod_unfold)

subsection \<open>Runs of a connection\<close>

lemma CheckSetSchemaCtx_table:
  assumes "CheckSetSchemaCtx se ctx query c = Some (err, c')" "\<not> IsClosed (s_ops (se_sy se)) (sc_conn c)"
  shows "c' = c"
  using assms ExecContext_setSchema_loops [of se ctx _ "[]" c]
  by (fastforce simp: CheckSetSchemaCtx_def Option.bind_eq_Some_conv split: if_splits option.splits)

definition same_table :: "'pg stdConn \<Rightarrow> 'pg stdConn \<Rightarrow> bool" where
  "same_table c c' \<longleftrightarrow> sc_psCount c' = sc_psCount c \<and> preparedStatements (sc_conn c') = preparedStatements (sc_conn c)"

lemma ExecContext_table:
  assumes "std_ExecContext se ctx query args c = Some (r, c')"
  shows "same_table c c'"
proof (cases "IsClosed (s_ops (se_sy se)) (sc_conn c)")
  case True
  with assms show ?thesis by (simp add: ExecContext_check [of se ctx query] same_table_def)
next
  case False
  with assms obtain err c1 where check: "CheckSetSchemaCtx se ctx query c = Some (err, c1)"
    by (auto simp: ExecContext_check [of se ctx query] Option.bind_eq_Some_conv)
  with CheckSetSchemaCtx_table [OF check False] have c1: "CheckSetSchemaCtx se ctx query c = Some (err, c)" by simp
  show ?thesis
  proof (cases err)
    case None
    with assms False c1 obtain r1 conn where "Conn_Exec (se_sy se) query (namedValueToInterface args) (sc_conn c) = Some (r1, conn)"
      "c' = c\<lparr>sc_conn := conn\<rparr>"
      by (auto simp: ExecContext_check [of se ctx query] Option.bind_eq_Some_conv)
    then show ?thesis by (simp add: same_table_def Conn_Exec_table)
  qed (use assms False c1 in \<open>simp add: ExecContext_check [of se ctx query] same_table_def\<close>)
qed

lemma QueryContext_table:
  assumes "std_QueryContext se ctx query args c = Some (r, c')"
  shows "same_table c c'"
  using assms
  by (auto simp: std_QueryContext_def same_table_def Option.bind_eq_Some_conv
      dest!: CheckSetSchemaCtx_table Conn_Query_table rows_Next_table split: if_splits option.splits)

text \<open>
  What is done with a connection of the driver: statements are prepared and closed, and everything
  else. \<open>sts\<close> are the statements that are open.
\<close>

inductive std_step :: "'pg std_env \<Rightarrow> Stmt list \<times> 'pg stdConn \<Rightarrow> Stmt list \<times> 'pg stdConn \<Rightarrow> bool" for se where
  prepare: "std_PrepareContext se query c = (Inr st, c') \<Longrightarrow> std_step se (sts, c) (sts @ [st], c')"
| prepare_fails: "std_PrepareContext se query c = (Inl err, c') \<Longrightarrow> std_step se (sts, c) (sts, c')"
| close: "Stmt_Close se st c = (err, c') \<Longrightarrow> std_step se (xs @ st # ys, c) (xs @ ys, c')"
| exec: "std_ExecContext se ctx query args c = Some (r, c') \<Longrightarrow> std_step se (sts, c) (sts, c')"
| query: "std_QueryContext se ctx query args c = Some (r, c') \<Longrightarrow> std_step se (sts, c) (sts, c')"
| rows_Next: "stdRows_Next se dest rows (sc_conn c) = Some (res, rows', conn) \<Longrightarrow> std_step se (sts, c) (sts, c\<lparr>sc_conn := conn\<rparr>)"
| rows_Close: "stdRows_Close se rows (sc_conn c) = (err, rows', conn) \<Longrightarrow> std_step se (sts, c) (sts, c\<lparr>sc_conn := conn\<rparr>)"
| begin_tx: "std_BeginTx se ctx opts c = Some (r, c') \<Longrightarrow> std_step se (sts, c) (sts, c')"
| commit: "std_Commit se tx c = Some (err, tx', c') \<Longrightarrow> std_step se (sts, c) (sts, c')"
| rollback: "std_Rollback se tx c = Some (err, tx', c') \<Longrightarrow> std_step se (sts, c) (sts, c')"
| ping: "std_Ping se c = Some (err, c') \<Longrightarrow> std_step se (sts, c) (sts, c')"

lemma die_table [simp]: "preparedStatements (die ops c) = preparedStatements c"
  by (simp add: die_def)

lemma Conn_BeginTx_table: "Conn_BeginTx sy opts c = Some (r, c') \<Longrightarrow> preparedStatements c' = preparedStatements c"
  by (auto simp: Conn_BeginTx_def split: option.splits) (rule Conn_Exec_table, assumption)+

lemma BeginTx_table:
  assumes "std_BeginTx se ctx opts c = Some (r, c')"
  shows "same_table c c'"
proof -
  have "c' = c \<or> (\<exists>pgxOpts r1 conn. Conn_BeginTx (se_sy se) pgxOpts (sc_conn c) = Some (r1, conn) \<and> c' = c\<lparr>sc_conn := conn\<rparr>)"
    using assms by (cases "isoLevel (Isolation opts)") (auto simp: std_BeginTx_def Let_def split: if_splits)
  then show ?thesis by (auto simp: same_table_def Conn_BeginTx_table)
qed

lemma dbTx_Commit_table:
  assumes "dbTx_Commit sy tx c = Some (err, tx', c')"
  shows "preparedStatements c' = preparedStatements c"
proof (cases "tx_closed tx")
  case False
  then obtain tag e c1 where e: "Conn_Exec sy ''commit'' [] c = Some ((tag, e), c1)"
    using assms by (auto simp: dbTx_Commit_def)
  with assms False have "preparedStatements c' = preparedStatements c1"
    by (auto simp: dbTx_Commit_def split: option.splits if_splits)
  with Conn_Exec_table [OF e] show ?thesis by simp
qed (use assms in \<open>simp add: dbTx_Commit_def\<close>)

lemma dbTx_Rollback_table:
  assumes "dbTx_Rollback sy tx c = Some (err, tx', c')"
  shows "preparedStatements c' = preparedStatements c"
proof (cases "tx_closed tx")
  case False
  then obtain tag e c1 where e: "Conn_Exec sy ''rollback'' [] c = Some ((tag, e), c1)"
    using assms by (auto simp: dbTx_Rollback_def)
  with assms False have "preparedStatements c' = preparedStatements c1"
    by (auto simp: dbTx_Rollback_def split: if_splits)
  with Conn_Exec_table [OF e] show ?thesis by simp
qed (use assms in \<open>simp add: dbTx_Rollback_def\<close>)

lemma Commit_table: "std_Commit se tx c = Some (err, tx', c') \<Longrightarrow> same_table c c'"
  by (cases tx) (auto simp: same_table_def dbTx_Commit_table)

lemma Rollback_table: "std_Rollback se tx c = Some (err, tx', c') \<Longrightarrow> same_table c c'"
  by (cases tx) (auto simp: same_table_def dbTx_Rollback_table)

lemma Ping_table:
  assumes "std_Ping se c = Some (err, c')"
  shows "same_table c c'"
proof (cases "IsClosed (s_ops (se_sy se)) (sc_conn c)")
  case False
  then obtain r conn where e: "Conn_Exec (se_sy se) '';'' [] (sc_conn c) = Some (r, conn)"
    using assms by (auto simp: std_Ping_def Ping_def)
  with assms False have "preparedStatements (sc_conn c') = preparedStatements conn" "sc_psCount c' = sc_psCount c"
    by (auto simp: std_Ping_def Ping_def std_Close_def Let_def case_prod_unfold split: if_splits)
  with Conn_Exec_table [OF e] show ?thesis by (simp add: same_table_def)
qed (use assms in \<open>simp add: std_Ping_def same_table_def\<close>)

lemma stdRows_Next_table:
  "stdRows_Next se dest rows c = Some (res, rows', c') \<Longrightarrow> preparedStatements c' = preparedStatements c"
  by (auto simp: stdRows_Next_def stdRows_advance_def Let_def Option.bind_eq_Some_conv dest: rows_Next_table split: if_splits)

lemma stdRows_Close_table:
  "stdRows_Close se rows c = (err, rows', c') \<Longrightarrow> preparedStatements c' = preparedStatements c"
  by (auto simp: stdRows_Close_def case_prod_unfold)

subsection \<open>The invariant\<close>

definition psName :: "64 word \<Rightarrow> string" where
  "psName n = ''pgx_'' @ FormatInt (sint n)"

lemma psName_inject [simp]: "psName v = psName w \<longleftrightarrow> v = w"
  by (simp add: psName_def FormatInt_inject) (metis signed_word_eqI)

text \<open>What is documented of \<open>pgconn\<close>: the description of a prepared statement has its name.\<close>

definition names_statements :: "'pg pgconn_ops \<Rightarrow> bool" where
  "names_statements ops \<longleftrightarrow> (\<forall>name sql pg sd. snd (snd (op_Prepare ops name sql pg)) = Inr sd \<longrightarrow> sd_Name sd = name)"

text \<open>
  After \<open>k\<close> calls of \<open>PrepareContext\<close>: the table has names of the driver only below \<open>k\<close>, and each open
  statement is in the table under a name of its own.
\<close>

definition std_inv :: "nat \<Rightarrow> Stmt list \<times> 'pg stdConn \<Rightarrow> bool" where
  "std_inv k x \<longleftrightarrow> (case x of (sts, c) \<Rightarrow>
     sc_psCount c = of_nat k
     \<and> (\<forall>w. preparedStatements (sc_conn c) (psName w) \<noteq> None \<longrightarrow> unat w < k)
     \<and> distinct (map (sd_Name \<circ> st_sd) sts)
     \<and> (\<forall>st \<in> set sts. (\<exists>w. sd_Name (st_sd st) = psName w)
          \<and> preparedStatements (sc_conn c) (sd_Name (st_sd st)) = Some (st_sd st)))"

lemma std_inv_unchanged: "same_table c c' \<Longrightarrow> std_inv k (sts, c) \<Longrightarrow> \<exists>k' \<le> Suc k. std_inv k' (sts, c')"
  by (rule exI [of _ k]) (simp add: std_inv_def same_table_def)

lemma Conn_Prepare_new:
  assumes "Conn_Prepare ops name sql c = (r, c')" "preparedStatements c name = None" "names_statements ops" "name \<noteq> []"
  shows "case r of Inl _ \<Rightarrow> preparedStatements c' = preparedStatements c
    | Inr sd \<Rightarrow> sd_Name sd = name \<and> preparedStatements c' = (preparedStatements c)(name \<mapsto> sd)"
proof -
  have "prepareOn ops name sql c = (r, c')" using assms by (simp add: Conn_Prepare_def)
  then show ?thesis
    using assms(3,4) by (auto simp: prepareOn_def names_statements_def sendPg_def onPg_unfold log_msg_def Let_def
        split: sum.splits if_splits prod.splits) 
qed

lemma PrepareContext_inv:
  assumes "std_PrepareContext se query c = (r, c')" "std_inv k (sts, c)" "names_statements (s_ops (se_sy se))" "k < 2 ^ 64"
  shows "\<exists>k' \<le> Suc k. std_inv k' (case r of Inl _ \<Rightarrow> sts | Inr st \<Rightarrow> sts @ [st], c')"
proof (cases "IsClosed (s_ops (se_sy se)) (sc_conn c)")
  case True
  with assms(1,2) show ?thesis by (auto simp: std_PrepareContext_def Let_def intro: exI [of _ k])
next
  case False
  let ?w = "of_nat k :: 64 word"
  have w: "unat ?w = k" using assms(4) by (simp add: unat_of_nat take_bit_nat_eq_self)
  have fresh: "preparedStatements (sc_conn c) (psName ?w) = None" using assms(2) w by (auto simp: std_inv_def)
  obtain r0 conn where p: "Conn_Prepare (s_ops (se_sy se)) (psName ?w) query (sc_conn c) = (r0, conn)" by force
  have out: "r = map_sum id (Stmt.make) r0" "c' = c\<lparr>sc_psCount := of_nat (Suc k), sc_conn := conn\<rparr>"
    using assms(1,2) False p by (auto simp: std_PrepareContext_def Let_def std_inv_def psName_def Stmt.defs split: sum.splits)
  have new: "case r0 of Inl _ \<Rightarrow> preparedStatements conn = preparedStatements (sc_conn c)
      | Inr sd \<Rightarrow> sd_Name sd = psName ?w \<and> preparedStatements conn = (preparedStatements (sc_conn c))(psName ?w \<mapsto> sd)"
    by (rule Conn_Prepare_new [OF p fresh assms(3)]) (simp add: psName_def)
  have "std_inv (Suc k) (case r of Inl _ \<Rightarrow> sts | Inr st \<Rightarrow> sts @ [st], c')"
  proof (cases r0)
    case (Inl e)
    with new assms(2) show ?thesis by (auto simp: out std_inv_def less_Suc_eq)
  next
    case (Inr sd)
    have "sd_Name (st_sd st) \<noteq> psName ?w" if "st \<in> set sts" for st
      using assms(2) that fresh by (auto simp: std_inv_def)
    with Inr new assms(2) w show ?thesis by (auto simp: out std_inv_def Stmt.defs less_Suc_eq)
  qed
  then show ?thesis by blast
qed

lemma Stmt_Close_inv:
  assumes "Stmt_Close se st c = (err, c')" "std_inv k (xs @ st # ys, c)"
  shows "std_inv k (xs @ ys, c')"
proof -
  have "preparedStatements (sc_conn c') = (preparedStatements (sc_conn c))(sd_Name (st_sd st) := None)" "sc_psCount c' = sc_psCount c"
    using assms(1) by (auto simp: Stmt_Close_def Deallocate_def Let_def case_prod_unfold)
  moreover have "sd_Name (st_sd x) \<noteq> sd_Name (st_sd st)" if "x \<in> set (xs @ ys)" for x
    using assms(2) that by (auto simp: std_inv_def rev_image_eqI)
  ultimately show ?thesis using assms(2) by (simp add: std_inv_def)
qed

lemma std_inv_step:
  assumes "std_step se x y" "std_inv k x" "names_statements (s_ops (se_sy se))" "k < 2 ^ 64"
  shows "\<exists>k' \<le> Suc k. std_inv k' y"
  using assms(1,2)
proof (induction rule: std_step.induct)
  case (prepare query c st c' sts)
  from PrepareContext_inv [OF prepare(1,2) assms(3,4)] show ?case by simp
next
  case (prepare_fails query c err c' sts)
  from PrepareContext_inv [OF prepare_fails(1,2) assms(3,4)] show ?case by simp
next
  case (close st c err c' xs ys)
  from Stmt_Close_inv [OF close] show ?case by (blast intro: le_SucI)
next
  case (rows_Next dest rows c res rows' conn sts)
  then show ?case by (intro std_inv_unchanged) (simp_all add: same_table_def stdRows_Next_table)
next
  case (rows_Close rows c err rows' conn sts)
  then show ?case by (intro std_inv_unchanged) (simp_all add: same_table_def stdRows_Close_table)
qed (blast intro: std_inv_unchanged ExecContext_table QueryContext_table BeginTx_table Commit_table Rollback_table Ping_table)+

lemma std_inv_run:
  assumes "(std_step se ^^ n) x y" "std_inv 0 x" "names_statements (s_ops (se_sy se))" "n \<le> 2 ^ 64"
  shows "\<exists>k \<le> n. std_inv k y"
  using assms(1,4)
proof (induction n arbitrary: y)
  case (Suc n)
  then obtain z where z: "(std_step se ^^ n) x z" "std_step se z y" by auto
  from Suc.IH [OF z(1)] Suc.prems(2) obtain k where k: "k \<le> n" "std_inv k z" by auto
  from std_inv_step [OF z(2) k(2) assms(3)] k(1) Suc.prems(2) obtain k' where "k' \<le> Suc k" "std_inv k' y" by auto
  with k(1) show ?case by (auto intro: exI [of _ k'])
qed (use assms(2) in auto)

lemma execPrepared_sends:
  assumes "execPrepared sy sd args c = Some ((tag, err), args', c')"
  shows "err \<noteq> None \<and> sent c' = sent c
    \<or> (\<exists>vs fs rfs. sent c' = sent c @ [PgExecPrepared (sd_Name sd) vs fs rfs] \<and> length vs = length (sd_ParamOIDs sd))"
proof -
  obtain e args1 c1 where p: "execParamsAndPreparedPrefix sy sd args c = Some (e, args1, c1)"
    using assms by (auto simp: execPrepared_def split: option.splits)
  show ?thesis
  proof (cases e)
    case None
    with p have "length (paramValues (c_eqb c1)) = length (sd_ParamOIDs sd)" using execPrefix_ok [of sy sd args c] by simp
    with None p assms execPrefix_sent [OF p] show ?thesis
      by (auto simp: execPrepared_def sendExecPrepared_def Let_def case_prod_unfold)
  qed (use p assms execPrefix_sent [OF p] in \<open>auto simp: execPrepared_def\<close>)
qed

text \<open>Executing an open statement: its name does not begin with \<open>set schema\<close>, and it is in the table.\<close>

lemma Stmt_ExecContext_sends:
  assumes "std_inv k (sts, c)" "st \<in> set sts" "Stmt_ExecContext se ctx st args c = Some (res, c')"
  shows "snd res \<noteq> None \<and> sent (sc_conn c') = sent (sc_conn c)
    \<or> (\<exists>vs fs rfs. sent (sc_conn c') = sent (sc_conn c) @ [PgExecPrepared (sd_Name (st_sd st)) vs fs rfs]
        \<and> length vs = Stmt_NumInput st)"
proof -
  let ?name = "sd_Name (st_sd st)" and ?args = "namedValueToInterface args"
  from assms(1,2) obtain w where name: "?name = psName w" and tab: "preparedStatements (sc_conn c) ?name = Some (st_sd st)"
    by (auto simp: std_inv_def)
  show ?thesis
  proof (cases "IsClosed (s_ops (se_sy se)) (sc_conn c)")
    case True
    with assms(3) show ?thesis by (auto simp: Stmt_ExecContext_def ExecContext_check [of se ctx])
  next
    case False
    have "CheckSetSchemaCtx se ctx ?name c = Some (None, c)" by (simp add: CheckSetSchemaCtx_def name psName_def)
    with assms(3) False obtain tag err conn where e: "Conn_Exec (se_sy se) ?name ?args (sc_conn c) = Some ((tag, err), conn)"
      and c': "c' = c\<lparr>sc_conn := conn\<rparr>" and out: "res = (case err of
          Some e \<Rightarrow> if se_SafeToRetry se e then (None, Some ErrBadConn) else (Some (tag_RowsAffected (s_ops (se_sy se)) tag), Some e)
        | None \<Rightarrow> (Some (tag_RowsAffected (s_ops (se_sy se)) tag), None))"
      by (auto simp: Stmt_ExecContext_def ExecContext_check [of se ctx] Option.bind_eq_Some_conv)
    have res: "err \<noteq> None \<Longrightarrow> snd res \<noteq> None" by (auto simp: out)
    obtain args1 args2 c1 where "execPrepared (se_sy se) (st_sd st) args1 (sc_conn c) = Some ((tag, err), args2, c1)"
      "sent conn = sent c1"
      using e tab by (auto simp: Conn_Exec_def exec_def Let_def split: option.splits prod.splits)
    with execPrepared_sends [OF this(1)] c' res show ?thesis by (auto simp: Stmt_NumInput_def)
  qed
qed

subsection \<open>Property\<close>

text \<open>
  C7. Each prepared statement of \<open>database/sql\<close> stays itself. Start with a connection that has no
  statement with a name of the driver, and do anything: prepare, execute, query, begin and end
  transactions, close statements, in up to \<open>2 ^ 64\<close> steps. The open statements have different
  names, and executing one either fails with nothing sent, or sends exactly one command, which
  executes that statement with as many values as it has parameters, whatever schema the context
  asks for.
\<close>

theorem std_statements_own:
  assumes "names_statements (s_ops (se_sy se))" and "\<And>w. preparedStatements (sc_conn c) (psName w) = None"
    and "sc_psCount c = 0" and "(std_step se ^^ n) ([], c) (sts, c')" and "n \<le> 2 ^ 64"
  shows "distinct (map (sd_Name \<circ> st_sd) sts)
    \<and> (\<forall>st \<in> set sts. \<forall>ctx args res c''. Stmt_ExecContext se ctx st args c' = Some (res, c'') \<longrightarrow>
        snd res \<noteq> None \<and> sent (sc_conn c'') = sent (sc_conn c')
        \<or> (\<exists>vs fs rfs. sent (sc_conn c'') = sent (sc_conn c') @ [PgExecPrepared (sd_Name (st_sd st)) vs fs rfs]
            \<and> length vs = Stmt_NumInput st))"
proof -
  have "std_inv 0 ([], c)" using assms(2,3) by (simp add: std_inv_def)
  from std_inv_run [OF assms(4) this assms(1,5)] obtain k where k: "std_inv k (sts, c')" by blast
  then have "distinct (map (sd_Name \<circ> st_sd) sts)" by (simp add: std_inv_def)
  then show ?thesis by (rule conjI) (intro ballI allI impI, rule Stmt_ExecContext_sends [OF k])
qed

definition demo_stmt :: "string \<Rightarrow> Stmt" where
  "demo_stmt name = \<lparr>st_sd = demo_sd name ''select 1''\<rparr>"

theorem std_statements_own_witness:
  "\<exists>c'. (std_step demo_se ^^ 2) ([], demo_std) ([demo_stmt ''pgx_0'', demo_stmt ''pgx_1''], c')
     \<and> distinct (map (sd_Name \<circ> st_sd) [demo_stmt ''pgx_0'', demo_stmt ''pgx_1''])"
proof -
  have prep: "\<exists>c'. std_PrepareContext demo_se ''select 1'' c = (Inr (demo_stmt name), c') \<and> sc_psCount c' = sc_psCount c + 1
      \<and> preparedStatements (sc_conn c') = (preparedStatements (sc_conn c))(name \<mapsto> demo_sd name ''select 1'')
      \<and> \<not> pgConn (sc_conn c') \<and> \<not> hasLogger (sc_conn c')"
    if "\<not> pgConn (sc_conn c)" "\<not> hasLogger (sc_conn c)" "psName (sc_psCount c) = name" "preparedStatements (sc_conn c) name = None" for c name
    using that unfolding psName_def
    by (auto simp: std_PrepareContext_def demo_se_def demo_stmt_def demo_simps IsClosed_def Let_def Conn_Prepare_def
        prepareOn_def shouldLog_def)
  have names: "psName 0 = ''pgx_0''" "psName 1 = ''pgx_1''" by code_simp+
  obtain c1 where c1: "std_PrepareContext demo_se ''select 1'' demo_std = (Inr (demo_stmt ''pgx_0''), c1)"
    "sc_psCount c1 = 1" "preparedStatements (sc_conn c1) ''pgx_1'' = None" "\<not> pgConn (sc_conn c1)" "\<not> hasLogger (sc_conn c1)"
    using prep [of demo_std "''pgx_0''"] names by (auto simp: demo_std_def demo_prepared_def demo_conn_def)
  obtain c2 where c2: "std_PrepareContext demo_se ''select 1'' c1 = (Inr (demo_stmt ''pgx_1''), c2)"
    using prep [of c1 "''pgx_1''"] c1 names by auto
  have "(std_step demo_se ^^ 2) ([], demo_std) ([demo_stmt ''pgx_0'', demo_stmt ''pgx_1''], c2)"
    using std_step.prepare [OF c1(1), of "[]"] std_step.prepare [OF c2, of "[demo_stmt ''pgx_0'']"]
    by (auto simp: numeral_2_eq_2)
  from conjunct1 [OF std_statements_own [OF _ _ _ this]] this show ?thesis
    by (force simp: names_statements_def demo_se_def demo_std_def psName_def demo_simps)
qed

end
