(* ===== verification/Examples.thy ===== *)
theory Examples
  imports Pool_Session
begin

text \<open>
  The programs of \<open>src/examples\<close>: a task list on one connection (\<open>todo\<close>), a web server that
  shortens addresses (\<open>url_shortener\<close>) and a chat (\<open>chat\<close>), both on a pool. They are clients of the
  library, and what is shown of them follows from its theorems.

  Output is a list of the strings written. The text of an error, \<open>%v\<close>, is a parameter. A program
  ends with its exit code; an index out of range panics, which is \<open>None\<close>.
\<close>

subsection \<open>The task list\<close>

text \<open>One line of the list: the destinations of \<open>Scan\<close> are an \<open>int32\<close> and a \<open>string\<close>.\<close>

definition taskDest :: "goval list" where
  "taskDest = [GPtr ''int32'' (Some (GInt32 0)), GPtr ''string'' (Some (GString []))]"

fun taskLine :: "goval list \<Rightarrow> string option" where
  "taskLine [GPtr _ (Some (GInt32 i)), GPtr _ (Some (GString description))] =
     Some (FormatInt (sint i) @ ''. '' @ description @ [CHR 0x0A])"
| "taskLine _ = None"

partial_function (option) listLoop ::
  "'pg surroundings \<Rightarrow> connRows \<Rightarrow> 'pg Conn \<Rightarrow> string list \<Rightarrow> ((go_error option \<times> string list) \<times> connRows \<times> 'pg Conn) option" where
  "listLoop sy rows c out =
     Option.bind (rows_Next (s_ops sy) rows c) (\<lambda>(ok, rows, c).
       if \<not> ok then Some ((rows_Err rows, out), rows, c)
       else Option.bind (rows_Scan (s_ops sy) (s_env sy) taskDest rows c) (\<lambda>((err, dest), rows, c).
         if err \<noteq> None then Some ((err, out), rows, c)
         else Option.bind (taskLine dest) (\<lambda>line. listLoop sy rows c (out @ [line]))))"

definition listTasks ::
  "'pg surroundings \<Rightarrow> 'pg Conn \<Rightarrow> ((go_error option \<times> string list) \<times> connRows \<times> 'pg Conn) option" where
  "listTasks sy c = Option.bind (Conn_Query sy ''select * from tasks'' [] c) (\<lambda>((rows, _), c). listLoop sy rows c [])"

definition addTask :: "'pg surroundings \<Rightarrow> string \<Rightarrow> 'pg Conn \<Rightarrow> (go_error option \<times> 'pg Conn) option" where
  "addTask sy description c =
     map_option (\<lambda>((_, err), c). (err, c))
       (Conn_Exec sy ''insert into tasks(description) values($1)'' [GString description] c)"

definition updateTask :: "'pg surroundings \<Rightarrow> 32 word \<Rightarrow> string \<Rightarrow> 'pg Conn \<Rightarrow> (go_error option \<times> 'pg Conn) option" where
  "updateTask sy itemNum description c =
     map_option (\<lambda>((_, err), c). (err, c))
       (Conn_Exec sy ''update tasks set description=$1 where id=$2'' [GString description, GInt32 itemNum] c)"

definition removeTask :: "'pg surroundings \<Rightarrow> 32 word \<Rightarrow> 'pg Conn \<Rightarrow> (go_error option \<times> 'pg Conn) option" where
  "removeTask sy itemNum c =
     map_option (\<lambda>((_, err), c). (err, c)) (Conn_Exec sy ''delete from tasks where id=$1'' [GInt32 itemNum] c)"

definition nl :: string where "nl = [CHR 0x0A]"

definition printHelp :: string where
  "printHelp = ''Todo pgx demo'' @ nl @ nl @ ''Usage:'' @ nl @ nl @ ''  todo list'' @ nl @ ''  todo add task'' @ nl
     @ ''  todo update task_num item'' @ nl @ ''  todo remove task_num'' @ nl @ nl @ ''Example:'' @ nl @ nl
     @ ''  todo add '' @ [CHR 0x27] @ ''Learn Go'' @ [CHR 0x27] @ nl @ ''  todo list'' @ nl"

record ending =
  exit_code :: nat
  stdout :: "string list"
  stderr :: "string list"

definition failed :: "(go_error \<Rightarrow> string) \<Rightarrow> string \<Rightarrow> string list \<Rightarrow> go_error \<Rightarrow> ending" where
  "failed text what out err = \<lparr>exit_code = 1, stdout = out, stderr = [what @ '': '' @ text err @ nl]\<rparr>"

definition done_or :: "(go_error \<Rightarrow> string) \<Rightarrow> string \<Rightarrow> string list \<Rightarrow> go_error option \<Rightarrow> ending" where
  "done_or text what out err =
     (case err of Some e \<Rightarrow> failed text what out e | None \<Rightarrow> \<lparr>exit_code = 0, stdout = out, stderr = []\<rparr>)"

definition arg :: "string list \<Rightarrow> nat \<Rightarrow> string option" where
  "arg args i = (if i < length args then Some (args ! i) else None)"

definition taskNum :: "(go_error \<Rightarrow> string) \<Rightarrow> string \<Rightarrow> (32 word \<Rightarrow> ending option) \<Rightarrow> ending option" where
  "taskNum text s f = (case ParseInt s 32 of
       Inl err \<Rightarrow> Some (failed text ''Unable convert task_num into int32'' [] err)
     | Inr n \<Rightarrow> f (word_of_int n))"

definition todo_main ::
  "'pg surroundings \<Rightarrow> (string \<Rightarrow> go_error + pg_config) \<Rightarrow> (pg_config \<Rightarrow> go_error + ('pg \<times> notification list))
     \<Rightarrow> (go_error \<Rightarrow> string) \<Rightarrow> string \<Rightarrow> string list \<Rightarrow> ending option" where
  "todo_main sy parse dial text url args =
     (case Connect (s_ops sy) parse dial url of
        Ret (Inl err, _) \<Rightarrow> Some (failed text ''Unable to connection to database'' [] err)
      | Ret (Inr conn, _) \<Rightarrow>
          if length args = 1 then Some \<lparr>exit_code = 0, stdout = [printHelp], stderr = []\<rparr>
          else Option.bind (arg args 1) (\<lambda>cmd.
            if cmd = ''list'' then
              map_option (\<lambda>((err, out), _). done_or text ''Unable to list tasks'' out err) (listTasks sy conn)
            else if cmd = ''add'' then
              Option.bind (arg args 2) (\<lambda>description.
                map_option (\<lambda>(err, _). done_or text ''Unable to add task'' [] err) (addTask sy description conn))
            else if cmd = ''update'' then
              Option.bind (arg args 2) (\<lambda>num. taskNum text num (\<lambda>n.
                Option.bind (arg args 3) (\<lambda>description.
                  map_option (\<lambda>(err, _). done_or text ''Unable to update task'' [] err) (updateTask sy n description conn))))
            else if cmd = ''remove'' then
              Option.bind (arg args 2) (\<lambda>num. taskNum text num (\<lambda>n.
                map_option (\<lambda>(err, _). done_or text ''Unable to remove task'' [] err) (removeTask sy n conn)))
            else Some \<lparr>exit_code = 1, stdout = [printHelp], stderr = [''Invalid command'' @ nl]\<rparr>)
      | _ \<Rightarrow> None)"

subsection \<open>The address shortener\<close>

record request =
  req_Method :: string
  req_Path :: string
  req_Body :: "go_error + bytes"

text \<open>What a handler does with its \<open>ResponseWriter\<close>.\<close>

datatype response =
    Redirect string nat
  | NotFound
  | HTTPError string nat
  | WriteHeader nat
  | Disallowed string nat

fun status :: "response \<Rightarrow> nat" where
  "status (Redirect url code) = code"
| "status NotFound = 404"
| "status (HTTPError msg code) = code"
| "status (WriteHeader code) = code"
| "status (Disallowed allow code) = code"

definition internalError :: response where
  "internalError = HTTPError ''Internal server error'' 500"

text \<open>
  The variable \<open>url\<close> after \<open>Scan\<close>. The error of \<open>Scan\<close> is compared by \<open>==\<close>, not by \<open>errors.Is\<close>.
\<close>

fun scannedString :: "goval list \<Rightarrow> string option" where
  "scannedString [GPtr _ (Some (GString s))] = Some s"
| "scannedString _ = None"

definition getUrlHandler ::
  "('p, 'pg) pool_env \<Rightarrow> request \<Rightarrow> ('p, 'pg) pool_state \<Rightarrow> (response \<times> ('p, 'pg) pool_state) option" where
  "getUrlHandler db req s =
     Option.bind (Pool_QueryRow db ''select url from shortened_urls where id=$1'' [GString (req_Path req)] s) (\<lambda>(row, s).
       Option.bind (Row_Scan db [GPtr ''string'' (Some (GString []))] row s) (\<lambda>((err, dest), _, s).
         case err of
           None \<Rightarrow> map_option (\<lambda>url. (Redirect url 303, s)) (scannedString dest)
         | Some e \<Rightarrow> Some (if e = ErrNoRows then NotFound else internalError, s)))"

definition upsertSQL :: string where
  "upsertSQL = ''insert into shortened_urls(id, url) values ($1, $2)'' @ [CHR 0x0A, CHR 0x09]
     @ ''on conflict (id) do update set url=excluded.url''"

definition putUrlHandler ::
  "('p, 'pg) pool_env \<Rightarrow> request \<Rightarrow> ('p, 'pg) pool_state \<Rightarrow> (response \<times> ('p, 'pg) pool_state) option" where
  "putUrlHandler db req s =
     (case req_Body req of
        Inl _ \<Rightarrow> Some (internalError, s)
      | Inr url \<Rightarrow>
          map_option (\<lambda>((_, err), s). (if err = None then WriteHeader 200 else internalError, s))
            (Pool_Exec db upsertSQL [GString (req_Path req), GString url] s))"

definition deleteUrlHandler ::
  "('p, 'pg) pool_env \<Rightarrow> request \<Rightarrow> ('p, 'pg) pool_state \<Rightarrow> (response \<times> ('p, 'pg) pool_state) option" where
  "deleteUrlHandler db req s =
     map_option (\<lambda>((_, err), s). (if err = None then WriteHeader 200 else internalError, s))
       (Pool_Exec db ''delete from shortened_urls where id=$1'' [GString (req_Path req)] s)"

definition urlHandler ::
  "('p, 'pg) pool_env \<Rightarrow> request \<Rightarrow> ('p, 'pg) pool_state \<Rightarrow> (response \<times> ('p, 'pg) pool_state) option" where
  "urlHandler db req s =
     (if req_Method req = ''GET'' then getUrlHandler db req s
      else if req_Method req = ''PUT'' then putUrlHandler db req s
      else if req_Method req = ''DELETE'' then deleteUrlHandler db req s
      else Some (Disallowed ''GET, PUT, DELETE'' 405, s))"

text \<open>The server answers one request after another.\<close>

fun serveAll ::
  "('p, 'pg) pool_env \<Rightarrow> request list \<Rightarrow> ('p, 'pg) pool_state \<Rightarrow> (response list \<times> ('p, 'pg) pool_state) option" where
  "serveAll db [] s = Some ([], s)"
| "serveAll db (req # reqs) s =
     Option.bind (urlHandler db req s) (\<lambda>(resp, s). map_option (map_prod ((#) resp) id) (serveAll db reqs s))"

subsection \<open>The chat\<close>

text \<open>The loop over the lines of the standard input; \<open>inputErr\<close> is the error of the scanner at its end.\<close>

fun chatLoop ::
  "('p, 'pg) pool_env \<Rightarrow> (go_error \<Rightarrow> string) \<Rightarrow> string list \<Rightarrow> go_error option \<Rightarrow> ('p, 'pg) pool_state
     \<Rightarrow> (ending \<times> ('p, 'pg) pool_state) option" where
  "chatLoop pool text [] inputErr s = Some (done_or text ''Error scanning from stdin'' [] inputErr, s)"
| "chatLoop pool text (msg # msgs) inputErr s =
     (if msg = ''exit'' then Some (\<lparr>exit_code = 0, stdout = [], stderr = []\<rparr>, s)
      else Option.bind (Pool_Exec pool (''select pg_notify('' @ [CHR 0x27] @ ''chat'' @ [CHR 0x27] @ '', $1)'') [GString msg] s)
        (\<lambda>((_, err), s). case err of
           Some e \<Rightarrow> Some (failed text ''Error sending notification'' [] e, s)
         | None \<Rightarrow> chatLoop pool text msgs inputErr s))"

definition chatLine :: "notification \<Rightarrow> string" where
  "chatLine n = ''PID: '' @ FormatInt (uint (n_PID n)) @ '' Channel: '' @ n_Channel n @ '' Payload: '' @ n_Payload n @ nl"

text \<open>\<open>listen\<close> returns only through \<open>os.Exit\<close>, which does not run the deferred \<open>Release\<close>.\<close>

partial_function (option) listenLoop ::
  "'pg pgconn_ops \<Rightarrow> (go_error \<Rightarrow> string) \<Rightarrow> string list \<Rightarrow> 'pg Conn \<Rightarrow> (ending \<times> 'pg Conn) option" where
  "listenLoop ops text out c =
     (case WaitForNotification ops c of ((n, err), c) \<Rightarrow>
        (case err of
           Some e \<Rightarrow> Some (failed text ''Error waiting for notification'' out e, c)
         | None \<Rightarrow> (case n of None \<Rightarrow> None | Some n \<Rightarrow> listenLoop ops text (out @ [chatLine n]) c)))"

definition chat_listen ::
  "('p, 'pg) pool_env \<Rightarrow> (go_error \<Rightarrow> string) \<Rightarrow> ('p, 'pg) pool_state \<Rightarrow> (ending \<times> ('p, 'pg) pool_state) option" where
  "chat_listen pool text s =
     Option.bind (Pool_Acquire pool s) (\<lambda>(r, s).
       case r of
         Inl e \<Rightarrow> Some (failed text ''Error acquiring connection'' [] e, s)
       | Inr conn \<Rightarrow>
           Option.bind (pconn_Exec pool ''listen chat'' [] conn s) (\<lambda>((_, err), s).
             case err of
               Some e \<Rightarrow> Some (failed text ''Error listening to chat channel'' [] e, s)
             | None \<Rightarrow> onConn conn (listenLoop (s_ops (pe_sy pool)) text []) s))"

definition greeting :: string where
  "greeting = ''Type a message and press enter.'' @ nl @ nl
     @ ''This message should appear in any other chat instances connected to the same'' @ nl @ ''database.'' @ nl @ nl
     @ ''Type '' @ [CHR 0x22] @ ''exit'' @ [CHR 0x22] @ '' to quit.'' @ nl"

text \<open>\<open>main\<close> without the goroutine of \<open>listen\<close>, which is \<open>chat_listen\<close> on the same pool.\<close>

definition chat_main ::
  "'pg surroundings \<Rightarrow> ('p, 'pg) puddle_ops \<Rightarrow> (string \<Rightarrow> go_error + pg_config) \<Rightarrow> (string \<Rightarrow> go_error + 64 word) \<Rightarrow> 32 word
     \<Rightarrow> (nat \<Rightarrow> pg_config \<Rightarrow> go_error + ('pg \<times> notification list)) \<Rightarrow> (go_error \<Rightarrow> string) \<Rightarrow> string
     \<Rightarrow> string list \<Rightarrow> go_error option \<Rightarrow> ending option" where
  "chat_main sy pud parse parseDuration numCPU dial text url msgs inputErr =
     Option.bind (Pool_Connect sy pud parse parseDuration numCPU dial url) (\<lambda>(r, s).
       case r of
         Inl err \<Rightarrow> Some (failed text ''Unable to connect to database'' [] err)
       | Inr pool \<Rightarrow>
           Option.bind s (\<lambda>s. map_option (\<lambda>(e, _). e\<lparr>stdout := greeting # stdout e\<rparr>) (chatLoop pool text msgs inputErr s)))"

text \<open>
  \<open>main\<close> of the address shortener, which serves the requests \<open>reqs\<close> until \<open>ListenAndServe\<close> fails
  with \<open>listenErr\<close>. What is written to the log is the output.
\<close>

definition url_main ::
  "'pg surroundings \<Rightarrow> ('p, 'pg) puddle_ops \<Rightarrow> (string \<Rightarrow> go_error + pg_config) \<Rightarrow> (string \<Rightarrow> go_error + 64 word) \<Rightarrow> 32 word
     \<Rightarrow> (nat \<Rightarrow> pg_config \<Rightarrow> go_error + ('pg \<times> notification list)) \<Rightarrow> (go_error \<Rightarrow> string) \<Rightarrow> string
     \<Rightarrow> request list \<Rightarrow> go_error option \<Rightarrow> (ending \<times> response list) option" where
  "url_main sy pud parse parseDuration numCPU dial text url reqs listenErr =
     (case Pool_ParseConfig parse parseDuration numCPU url of
        Inl err \<Rightarrow> Some (failed text ''Unable to parse DATABASE_URL'' [] err, [])
      | Inr poolConfig \<Rightarrow>
          let poolConfig = poolConfig\<lparr>pcfg_ConnConfig := (pcfg_ConnConfig poolConfig)\<lparr>cc_Logger := True\<rparr>\<rparr> in
          Option.bind (Pool_ConnectConfig sy pud dial poolConfig) (\<lambda>(r, s).
            case r of
              Inl err \<Rightarrow> Some (failed text ''Unable to create connection pool'' [] err, [])
            | Inr db \<Rightarrow>
                map_option (\<lambda>(resps, _).
                    (done_or text ''Unable to start web server'' [''Starting URL shortener on localhost:8080''] listenErr, resps))
                  (serveAll db reqs s)))"

subsection \<open>The programs give back what they use\<close>

text \<open>
  Listing the tasks leaves the connection free for the next query: the rows are closed on every
  path, although the program never calls \<open>Close\<close>.
\<close>

definition open_or_closed :: "connRows \<Rightarrow> bool" where
  "open_or_closed rows \<longleftrightarrow> r_err rows = None \<or> r_closed rows"

lemma fatal_open_or_closed: "r_err rows = None \<Longrightarrow> open_or_closed (fst (rows_fatal ops err rows c))"
  by (simp add: open_or_closed_def rows_fatal_closed)

lemma querySimple_open_or_closed:
  "r_err rows = None \<Longrightarrow> querySimple sy sql args rows c = Some res \<Longrightarrow> open_or_closed (fst (fst res))"
  by (auto simp: querySimple_def case_prod_unfold fatal_open_or_closed split: option.splits sum.splits if_splits)
    (simp add: open_or_closed_def)

lemma queryExtended_open_or_closed:
  "r_err rows = None \<Longrightarrow> queryExtended sy sql q args rows c = Some res \<Longrightarrow> open_or_closed (fst (fst res))"
  by (auto simp: queryExtended_def Let_def queryExecute_def failRows_def case_prod_unfold fatal_open_or_closed
      split: option.splits sum.splits prod.splits if_splits)
    (simp_all add: open_or_closed_def)

lemma Conn_Query_open_or_closed:
  assumes "Conn_Query sy sql args c = Some ((rows, err), c')"
  shows "open_or_closed rows"
proof -
  obtain q args1 where q: "queryOptions \<lparr>q_resultFormats = None, q_resultFormatsByOID = None,
      q_simpleProtocol = cfg_PreferSimpleProtocol c\<rparr> args = (q, args1)" by force
  obtain rows1 c1 where g: "getRows sql args1 c = (rows1, c1)" by force
  have "querySimple sy sql args1 rows1 c1 = Some ((rows, err), c') \<or> queryExtended sy sql q args1 rows1 c1 = Some ((rows, err), c')"
    using assms q g by (simp add: Conn_Query_def split: if_splits)
  moreover have "r_err rows1 = None" using getRows_fresh [OF g] by simp
  ultimately show ?thesis
    using querySimple_open_or_closed [of rows1 sy sql args1 c1] queryExtended_open_or_closed [of rows1 sy sql q args1 c1]
    by (metis fst_conv)
qed

lemma rows_Next_open: "rows_Next ops rows c = Some (True, rows', c') \<Longrightarrow> open_or_closed rows \<Longrightarrow> r_err rows' = None"
  by (auto simp: rows_Next_def open_or_closed_def case_prod_unfold split: if_splits option.splits)

lemma rows_Scan_open: "rows_Scan ops env dest rows c = Some ((None, dest'), rows', c') \<Longrightarrow> r_err rows' = r_err rows"
  by (auto simp: rows_Scan_def Let_def split: option.splits if_splits prod.splits)

lemma listLoop_closed:
  assumes "listLoop sy rows c out = Some (res, rows', c')" "open_or_closed rows"
  shows "r_closed rows'"
proof -
  from assms(1) have "open_or_closed rows \<longrightarrow> r_closed (fst (snd (res, rows', c')))"
  proof (rule listLoop.raw_induct [rotated])
    fix self :: "'a surroundings \<Rightarrow> connRows \<Rightarrow> 'a Conn \<Rightarrow> string list \<Rightarrow> ((go_error option \<times> string list) \<times> connRows \<times> 'a Conn) option"
      and sy rows c out r
    assume IH: "\<And>sy rows c out r. self sy rows c out = Some r \<Longrightarrow> open_or_closed rows \<longrightarrow> r_closed (fst (snd r))"
      and step: "Option.bind (rows_Next (s_ops sy) rows c) (\<lambda>(ok, rows, c).
       if \<not> ok then Some ((rows_Err rows, out), rows, c)
       else Option.bind (rows_Scan (s_ops sy) (s_env sy) taskDest rows c) (\<lambda>((err, dest), rows, c).
         if err \<noteq> None then Some ((err, out), rows, c)
         else Option.bind (taskLine dest) (\<lambda>line. self sy rows c (out @ [line])))) = Some r"
    obtain ok rows1 c1 where n: "rows_Next (s_ops sy) rows c = Some (ok, rows1, c1)"
      using step by (auto simp: Option.bind_eq_Some_conv)
    show "open_or_closed rows \<longrightarrow> r_closed (fst (snd r))"
    proof (cases ok)
      case False
      with n step rows_Next_end [of "s_ops sy" rows c rows1 c1] show ?thesis by auto
    next
      case True
      with n step obtain err dest rows2 c2 where sc: "rows_Scan (s_ops sy) (s_env sy) taskDest rows1 c1 = Some ((err, dest), rows2, c2)"
        by (auto simp: Option.bind_eq_Some_conv)
      have one: "open_or_closed rows \<Longrightarrow> r_err rows1 = None" using rows_Next_open [of "s_ops sy" rows c rows1 c1] n True by simp
      show ?thesis
      proof (cases err)
        case None
        with True n sc step obtain line where "self sy rows2 c2 (out @ [line]) = Some r"
          by (auto simp: Option.bind_eq_Some_conv)
        from IH [OF this] one rows_Scan_open [OF sc [unfolded None]] show ?thesis by (simp add: open_or_closed_def)
      next
        case (Some e)
        with True n sc step have "r = ((err, out), rows2, c2)" by simp
        with one rows_Scan_error [OF sc [unfolded Some]] show ?thesis by simp
      qed
    qed
  qed
  with assms(2) show ?thesis by simp
qed

lemma listTasks_closed: "listTasks sy c = Some (res, rows, c') \<Longrightarrow> r_closed rows"
  by (auto simp: listTasks_def Option.bind_eq_Some_conv intro: listLoop_closed Conn_Query_open_or_closed)

text \<open>A command of the task list without its argument panics after connecting; no help is printed.\<close>

lemma todo_missing_argument:
  assumes "Connect (s_ops sy) parse dial url = Ret (Inr conn, l)" and "cmd \<in> {''add'', ''update'', ''remove''}"
  shows "todo_main sy parse dial text url [prog, cmd] = None"
  using assms by (auto simp: todo_main_def arg_def)

context ledger
begin

lemma balance_Row_Scan:
  assumes "Row_Scan pe dest row s = Some (res, row', s')"
    and "case row of ErrRow e \<Rightarrow> balance H s | PoolRow pw \<Rightarrow> pw_err pw = None \<and> balance (held (pw_c pw) + H) s"
  shows "balance H s'"
  using assms balance_poolRow_Scan by (cases row) auto

lemma balance_urlHandler:
  assumes "urlHandler pe req s = Some (resp, s')" "balance H s"
  shows "balance H s' \<and> status resp \<in> {200, 303, 404, 405, 500}"
proof -
  have get: "balance H s' \<and> status resp \<in> {303, 404, 500}" if "getUrlHandler pe req s = Some (resp, s')"
  proof -
    from that obtain row s1 err dest row' where q: "Pool_QueryRow pe ''select url from shortened_urls where id=$1'' [GString (req_Path req)] s = Some (row, s1)"
      and sc: "Row_Scan pe [GPtr ''string'' (Some (GString []))] row s1 = Some ((err, dest), row', s')"
      and st: "status resp \<in> {303, 404, 500}"
      by (auto simp: getUrlHandler_def Option.bind_eq_Some_conv internalError_def split: option.splits if_splits)
    from balance_Row_Scan [OF sc balance_QueryRow [OF q assms(2)]] st show ?thesis by simp
  qed
  have put: "balance H s' \<and> status resp \<in> {200, 500}" if "putUrlHandler pe req s = Some (resp, s')"
    using that assms(2) balance_calls(1) [OF assms(2)]
    by (auto simp: putUrlHandler_def internalError_def split: sum.splits if_splits)
  have del: "balance H s' \<and> status resp \<in> {200, 500}" if "deleteUrlHandler pe req s = Some (resp, s')"
    using that balance_calls(1) [OF assms(2)] by (auto simp: deleteUrlHandler_def internalError_def split: if_splits)
  from assms get put del show ?thesis by (auto simp: urlHandler_def split: if_splits)
qed

lemma balance_serveAll:
  "serveAll pe reqs s = Some (resps, s') \<Longrightarrow> balance H s \<Longrightarrow> balance H s' \<and> length resps = length reqs"
  by (induction reqs arbitrary: s resps) (auto simp: Option.bind_eq_Some_conv dest!: balance_urlHandler)

lemma balance_chatLoop: "chatLoop pe text msgs e s = Some (res, s') \<Longrightarrow> balance H s \<Longrightarrow> balance H s'"
  by (induction msgs arbitrary: s)
    (auto simp: Option.bind_eq_Some_conv dest: balance_calls(1) split: if_splits option.splits)

end

text \<open>The server and the chat hold no connection between requests and between messages.\<close>

lemma servers_give_back:
  assumes "holds H s"
  shows "serveAll pe reqs s = Some (resps, s') \<Longrightarrow> holds H s'"
    and "chatLoop pe text msgs e s = Some (res, s') \<Longrightarrow> holds H s'"
  using trace.balance_serveAll trace.balance_chatLoop assms by blast+

end
