(* ===== verification/Log_Adapters.thy ===== *)
theory Log_Adapters
  imports Logger
begin

text \<open>
  \<open>src/log\<close>: the adapters that pass the entries of the driver's log to the loggers of other
  packages. Those loggers are not part of the repository; an adapter is modelled by the call it
  makes: the method, the message and the fields, in order. Go ranges over the fields in any
  order: \<open>data\<close> is the list of them in the order of the iteration.
\<close>

datatype sink = SinkDebug | SinkInfo | SinkWarn | SinkError | SinkNoLevel | SinkPlain

text \<open>A field is a field of the entry or the level, under a key the adapter adds.\<close>

datatype 'v field = Field string 'v | LevelField string LogLevel | ModuleField

type_synonym 'v sink_call = "sink \<times> string \<times> 'v field list"

definition fieldsOf :: "(string \<times> 'v) list \<Rightarrow> 'v field list" where
  "fieldsOf data = map (\<lambda>(k, v). Field k v) data"

text \<open>The logger of go-kit has the message under a key: \<open>error\<close> instead of \<open>msg\<close> at an invalid level.\<close>

definition kitlog_Log :: "LogLevel \<Rightarrow> string \<Rightarrow> (string \<times> 'v) list \<Rightarrow> 'v sink_call \<times> string" where
  "kitlog_Log level msg data =
     (if level = LogLevelTrace then ((SinkPlain, msg, fieldsOf data @ [LevelField ''PGX_LOG_LEVEL'' level]), ''msg'')
      else if level = LogLevelDebug then ((SinkDebug, msg, fieldsOf data), ''msg'')
      else if level = LogLevelInfo then ((SinkInfo, msg, fieldsOf data), ''msg'')
      else if level = LogLevelWarn then ((SinkWarn, msg, fieldsOf data), ''msg'')
      else if level = LogLevelError then ((SinkError, msg, fieldsOf data), ''msg'')
      else ((SinkPlain, msg, fieldsOf data @ [LevelField ''INVALID_PGX_LOG_LEVEL'' level]), ''error''))"

definition log15_Log :: "LogLevel \<Rightarrow> string \<Rightarrow> (string \<times> 'v) list \<Rightarrow> 'v sink_call" where
  "log15_Log level msg data =
     (if level = LogLevelTrace then (SinkDebug, msg, fieldsOf data @ [LevelField ''PGX_LOG_LEVEL'' level])
      else if level = LogLevelDebug then (SinkDebug, msg, fieldsOf data)
      else if level = LogLevelInfo then (SinkInfo, msg, fieldsOf data)
      else if level = LogLevelWarn then (SinkWarn, msg, fieldsOf data)
      else if level = LogLevelError then (SinkError, msg, fieldsOf data)
      else (SinkError, msg, fieldsOf data @ [LevelField ''INVALID_PGX_LOG_LEVEL'' level]))"

definition logrus_Log :: "LogLevel \<Rightarrow> string \<Rightarrow> (string \<times> 'v) list option \<Rightarrow> 'v sink_call" where
  "logrus_Log level msg data =
     (let fields = (case data of None \<Rightarrow> [] | Some data \<Rightarrow> fieldsOf data) in
      if level = LogLevelTrace then (SinkDebug, msg, fields @ [LevelField ''PGX_LOG_LEVEL'' level])
      else if level = LogLevelDebug then (SinkDebug, msg, fields)
      else if level = LogLevelInfo then (SinkInfo, msg, fields)
      else if level = LogLevelWarn then (SinkWarn, msg, fields)
      else if level = LogLevelError then (SinkError, msg, fields)
      else (SinkError, msg, fields @ [LevelField ''INVALID_PGX_LOG_LEVEL'' level]))"

definition zap_Log :: "LogLevel \<Rightarrow> string \<Rightarrow> (string \<times> 'v) list \<Rightarrow> 'v sink_call" where
  "zap_Log level msg data =
     (if level = LogLevelTrace then (SinkDebug, msg, fieldsOf data @ [LevelField ''PGX_LOG_LEVEL'' level])
      else if level = LogLevelDebug then (SinkDebug, msg, fieldsOf data)
      else if level = LogLevelInfo then (SinkInfo, msg, fieldsOf data)
      else if level = LogLevelWarn then (SinkWarn, msg, fieldsOf data)
      else if level = LogLevelError then (SinkError, msg, fieldsOf data)
      else (SinkError, msg, fieldsOf data @ [LevelField ''PGX_LOG_LEVEL'' level]))"

text \<open>
  The logger of zerolog drops an event that is not enabled. Unless the module is skipped, its
  field is added: by \<open>init\<close> to the logger, or by \<open>Log\<close> when the logger comes from the context. The
  fields that the logger of the context has are a parameter.
\<close>

record 'v zerolog_Logger =
  zl_logger :: "'v field list"
  zl_withFunc :: "('v field list \<Rightarrow> 'v field list) option"
  zl_fromContext :: bool
  zl_skipModule :: bool

definition zerolog_level :: "LogLevel \<Rightarrow> sink" where
  "zerolog_level level =
     (if level = LogLevelNone then SinkNoLevel
      else if level = LogLevelError then SinkError
      else if level = LogLevelWarn then SinkWarn
      else if level = LogLevelInfo then SinkInfo
      else if level = LogLevelDebug then SinkDebug
      else SinkDebug)"

definition zerolog_init :: "'v zerolog_Logger \<Rightarrow> 'v zerolog_Logger" where
  "zerolog_init pl = (if \<not> zl_skipModule pl then pl\<lparr>zl_logger := zl_logger pl @ [ModuleField]\<rparr> else pl)"

definition zerolog_Log ::
  "(sink \<Rightarrow> bool) \<Rightarrow> 'v field list \<Rightarrow> 'v zerolog_Logger \<Rightarrow> LogLevel \<Rightarrow> string \<Rightarrow> (string \<times> 'v) list \<Rightarrow> 'v sink_call option" where
  "zerolog_Log enabled ctxLogger pl level msg data =
     (let zlevel = zerolog_level level;
          zctx = (if zl_fromContext pl then ctxLogger else zl_logger pl);
          zctx = (case zl_withFunc pl of None \<Rightarrow> zctx | Some f \<Rightarrow> f zctx)
      in if enabled zlevel then
           Some (zlevel, msg,
             zctx @ (if zl_fromContext pl \<and> \<not> zl_skipModule pl then [ModuleField] else []) @ fieldsOf data)
         else None)"

subsection \<open>The levels of the driver\<close>

text \<open>The module is named once, however the logger was made.\<close>

lemma zerolog_module_once:
  assumes "zerolog_Log enabled ctxLogger (zerolog_init pl) level msg data = Some (l, m, fs)"
    and "zl_withFunc pl = None" "ModuleField \<notin> set (zl_logger pl)" "ModuleField \<notin> set ctxLogger"
  shows "length (filter (\<lambda>f. f = ModuleField) fs) = (if zl_skipModule pl then 0 else 1)"
  using assms
  by (auto simp: zerolog_Log_def zerolog_init_def Let_def fieldsOf_def filter_empty_conv split: if_splits)

text \<open>
  The adapter for tests passes the level, the message and a text for each field; \<open>text\<close> is the
  format \<open>%v\<close>. It logs at every level, and no field is lost.
\<close>

datatype log_arg = ArgLevel LogLevel | ArgText string

definition testing_Log :: "('v \<Rightarrow> string) \<Rightarrow> LogLevel \<Rightarrow> string \<Rightarrow> (string \<times> 'v) list \<Rightarrow> log_arg list" where
  "testing_Log text level msg data =
     [ArgLevel level, ArgText msg] @ map (\<lambda>(k, v). ArgText (k @ ''='' @ text v)) data"

lemma testing_Log_fields: "length (testing_Log text level msg data) = 2 + length data"
  by (simp add: testing_Log_def)

text \<open>
  The adapters agree: an entry at one of the levels error to debug, the levels at which the
  driver logs, reaches each of the loggers at the level of the same name, with its message and
  exactly its fields (and the module, in zerolog).
\<close>

lemma adapters_agree:
  assumes "level = LogLevelError \<and> s = SinkError \<or> level = LogLevelWarn \<and> s = SinkWarn
    \<or> level = LogLevelInfo \<and> s = SinkInfo \<or> level = LogLevelDebug \<and> s = SinkDebug"
  shows "kitlog_Log level msg data = ((s, msg, fieldsOf data), ''msg'')
    \<and> log15_Log level msg data = (s, msg, fieldsOf data)
    \<and> logrus_Log level msg (Some data) = (s, msg, fieldsOf data)
    \<and> zap_Log level msg data = (s, msg, fieldsOf data)
    \<and> (enabled s \<longrightarrow> zl_fromContext pl = False \<longrightarrow> zl_withFunc pl = None \<longrightarrow>
        zerolog_Log enabled ctxLogger pl level msg data = Some (s, msg, zl_logger pl @ fieldsOf data))"
  using assms
  by (auto simp: kitlog_Log_def log15_Log_def logrus_Log_def zap_Log_def zerolog_Log_def zerolog_level_def
      log_levels Let_def)

end
