(* ===== verification/Spec2Isabelle.thy ===== *)
theory Spec2Isabelle
  imports Simple_Protocol Conn_Info Pool_Session Std_Statements Examples Log_Adapters
begin

text \<open>
  A verification of schemapgx, a fork of version 4 of the PostgreSQL driver pgx.

  \<^bold>\<open>The program.\<close> A connection (\<open>conn.go\<close>) talks to a server through the package \<open>pgconn\<close>. Queries are
  sent by the extended protocol, their arguments encoded by a builder
  (\<open>extended_query_builder.go\<close>, \<open>values.go\<close>), or by the simple protocol, their arguments placed into
  the text (\<open>sanitize/sanitize.go\<close>). Results are read through rows (\<open>rows.go\<close>). On top of this are
  batches (\<open>batch.go\<close>), bulk copies (\<open>copy_from.go\<close>), transactions and savepoints (\<open>tx.go\<close>) and large
  objects (\<open>large_objects.go\<close>); a pool of connections (\<open>pgxpool\<close>); a driver for the package
  \<open>database/sql\<close> (\<open>stdlib/sql.go\<close>); and adapters for other loggers (\<open>log\<close>).

  \<^bold>\<open>Conventions.\<close> Strings and byte slices are HOL strings, a slice that may be nil an option of one;
  integers that may wrap are words. Errors are values of \<open>go_error\<close>, a nil error is \<open>None\<close>. The values
  of \<open>interface{}\<close> are \<open>goval\<close>. A function that may panic or not end returns an option, and \<open>None\<close> is
  a call that does not return, or an \<open>outcome\<close> where a panic matters by itself. Loops without a bound
  are \<open>partial_function (option)\<close>; no definition has fuel. State is passed: methods take the object
  and return it updated. Packages that are not in the repository are records of operations that the
  definitions take as an argument: \<open>pgtype_env\<close> (\<open>pgtype\<close>, \<open>pgio\<close>), \<open>pgconn_ops\<close> (\<open>pgconn\<close> and its
  statement cache, on an arbitrary state), \<open>puddle_ops\<close> (\<open>puddle\<close>) and \<open>sql_ops\<close>
  (\<open>sql.DB\<close>). What a theorem needs of them is a named contract (\<open>pgio_ok\<close>, \<open>encoders_ok\<close>,
  \<open>valuers_ok\<close>, \<open>encodes_all\<close>, \<open>finite_results\<close>, \<open>describes\<close>, \<open>closes\<close>, \<open>serves\<close>, \<open>lends\<close>,
  \<open>names_statements\<close>), which states
  documented behaviour, and the witnesses give instances that satisfy it.

  \<^bold>\<open>The theories.\<close>

  \<^item> \<open>Go_Prelude\<close>, \<open>Utf8\<close>: errors, values, integers as text, string functions and UTF-8 decoding of
    the language and its library; the round trip of formatting and parsing integers.

  \<^item> \<open>Sanitize\<close>, \<open>Lex_Lossless\<close>, \<open>Splice\<close>, \<open>Interpolate\<close> (\<open>sanitize.go\<close>): the lexer as a machine over
    positions and its recursive specification \<open>lexSQL\<close>, which it refines; the parts are the text
    again; quoting and its inverses; where \<open>Sanitize\<close> succeeds; and that the text of an argument
    cannot leave its place in a separated template.

  \<^item> \<open>Logger\<close> (\<open>logger.go\<close>): levels and their names, and the shortening of arguments in the log.
    \<open>Log_Adapters\<close> (\<open>log\<close>): the calls that six adapters make, and that those with levels agree on
    them.

  \<^item> \<open>Pgtype\<close>, \<open>Pgconn\<close>: the interfaces of the packages that are parameters, with their contracts.

  \<^item> \<open>Values\<close> (\<open>values.go\<close>, \<open>messages.go\<close>, \<open>go_stdlib.go\<close>), \<open>Ext_Query_Builder\<close>: conversion and encoding
    of arguments; converted arguments can be sanitized, integers keep their value or are refused,
    encodings are framed, end, and leave the earlier ones alone.

  \<^item> \<open>Conn\<close> (\<open>conn.go\<close>): configuration, connecting, closing, preparing, notifications, identifiers and
    logging; \<open>Rows\<close> (\<open>rows.go\<close>): reading, scanning and closing, with the interface \<open>closable_rows\<close>;
    \<open>Conn_Query\<close> (\<open>conn.go\<close>): \<open>Exec\<close>, \<open>Query\<close>, \<open>QueryRow\<close> and \<open>QueryFunc\<close> in all protocols. A connection has
    a record \<open>sent\<close> of the commands passed to \<open>pgconn\<close>, which no definition reads; the theorems on what
    is sent are about it. \<open>Conn_Info\<close>: the names of types from the rows of a query.

  \<^item> \<open>Simple_Protocol\<close>: the conversion of arguments, their interpolation and the query that is sent,
    put together: no injection from the call of \<open>Exec\<close> or \<open>Query\<close> to the command.

  \<^item> \<open>Copy_From\<close>: the interface \<open>copy_source\<close> and its two sources; the stream of bytes is the binary copy
    format of the rows, by a reader of that format.

  \<^item> \<open>Batch\<close>: one command for a whole batch or none, that sending returns, and the log of the results.

  \<^item> \<open>Tx\<close>: the interface \<open>tx_control\<close>, which transactions, savepoints and the transactions of a pool
    have; functions run in a transaction end it once; names of savepoints over a step relation of
    sessions; closed transactions; failures that close the connection.

  \<^item> \<open>Large_Objects\<close>: the operations over the interface of a transaction; reading to the end.

  \<^item> \<open>Pool\<close> (\<open>pgxpool/pool.go\<close>, \<open>conn.go\<close>, \<open>stat.go\<close>), \<open>Pool_Objects\<close> (\<open>pgxpool/rows.go\<close>, \<open>tx.go\<close>,
    \<open>batch_results.go\<close>): configuration, acquiring, releasing, health checks, statistics, and the objects
    that hold a connection. A record of the calls of \<open>puddle\<close> replays to the resources that are held
    (\<open>holds\<close>). What the methods do to it follows from the laws of the interface \<open>ledger\<close>.

  \<^item> \<open>Pool_Session\<close>: a client of a pool as a step relation (\<open>client_step\<close>), any number of objects in
    use at once. No connection is leaked or given back twice, and no two objects share one, in any
    run; the second needs of \<open>puddle\<close> that it does not lend what it has lent.

  \<^item> \<open>Stdlib\<close> (\<open>stdlib/sql.go\<close>): the registry of configurations, statements, transactions, rows and the
    schema check of the fork; that the rows keep in step with those of pgx, and that the schema check
    never returns where it acts. \<open>Std_Statements\<close>: prepared statements over the runs of a connection
    (\<open>std_step\<close>), each of which keeps its name and executes itself.

  \<^item> \<open>Examples\<close> (\<open>examples\<close>): the task list, the address shortener and the chat as clients of the
    library, which free what they use; a missing argument panics.

  \<^bold>\<open>Interfaces.\<close> The locales \<open>closable_rows\<close>, \<open>copy_source\<close>, \<open>tx_control\<close> and \<open>ledger\<close> are
  interpreted on the definitions of the model: rows of a connection; sources from rows and from a
  function; transactions, savepoints and transactions of a pool; the record of the calls of \<open>puddle\<close>.
  The resources that \<open>puddle\<close> has lent are a second ledger, under its contract.

  \<^bold>\<open>Concurrency.\<close> Goroutines are run in one order. The writer of \<open>CopyFrom\<close> and the reader in \<open>pgconn\<close>
  share only a pipe: the point where the reader closes it is a parameter. The goroutines of a pool
  create resources independently and run one after another; the hook run after a release holds its
  resource alone. The goroutines of a client appear as the interleaving of the steps of a run. Contexts are not modelled but for the values that the \<open>database/sql\<close> driver reads:
  cancellation shows in the errors that the operations of \<open>pgconn\<close> and \<open>puddle\<close> return.

  \<^bold>\<open>Not modelled.\<close> The type map of \<open>pgtype\<close> and the name of the type of a column, which are data of
  that package; accessors, which are the selectors of the records; the documentation; the parser of
  durations of the Go library, the formatting of floating point numbers and of errors, and the copy
  of a \<open>pgconn.Config\<close>, which are parameters.
\<close>

end
